theory Spec2Isabelle
  imports Complex_Main
begin

section \<open>Numbers, vectors and the random source\<close>

text \<open>
  The component is a TypeScript program; its \<^verbatim>\<open>number\<close>s are modelled as
  real numbers (no rounding, no NaN), \<^verbatim>\<open>Math.sqrt\<close> as \<^const>\<open>sqrt\<close>.
  A vector (\<^verbatim>\<open>CANNON.Vec3\<close>, \<^verbatim>\<open>THREE.Vector3\<close>) is a triple of coordinates.
\<close>

datatype vec3 = Vec3 (vx: real) (vy: real) (vz: real)

definition vzero :: vec3 where
  "vzero = Vec3 0 0 0"

definition vscale :: "real \<Rightarrow> vec3 \<Rightarrow> vec3" where
  "vscale k v = Vec3 (vx v * k) (vy v * k) (vz v * k)"

definition vadd :: "vec3 \<Rightarrow> vec3 \<Rightarrow> vec3" where
  "vadd a b = Vec3 (vx a + vx b) (vy a + vy b) (vz a + vz b)"

definition vneg :: "vec3 \<Rightarrow> vec3" where
  "vneg v = Vec3 (- vx v) (- vy v) (- vz v)"

definition lengthSq :: "vec3 \<Rightarrow> real" where
  "lengthSq v = vx v * vx v + vy v * vy v + vz v * vz v"

definition vlength :: "vec3 \<Rightarrow> real" where
  "vlength v = sqrt (vx v * vx v + vy v * vy v + vz v * vz v)"

text \<open>
  \<^verbatim>\<open>CANNON.Vec3.normalize\<close>: a vector of positive length is divided by its length,
  any other vector becomes the zero vector.
\<close>

definition normalize_vec :: "vec3 \<Rightarrow> vec3" where
  "normalize_vec v =
     (let n = vlength v
      in if n > 0 then (let invN = 1 / n in Vec3 (vx v * invN) (vy v * invN) (vz v * invN))
         else Vec3 0 0 0)"

text \<open>
  \<^verbatim>\<open>Math.random()\<close> is an oracle: the \<open>n\<close>-th call of a session returns \<open>rnd n\<close>,
  and the state counts the calls made so far.  The library promises \<open>0 \<le> rnd n < 1\<close>.
\<close>

type_synonym random_source = "nat \<Rightarrow> real"

definition random_ok :: "random_source \<Rightarrow> bool" where
  "random_ok rnd = (\<forall>n. 0 \<le> rnd n \<and> rnd n < 1)"

subsection \<open>calculateNewImpulseDirection\<close>

text \<open>The raw sample drawn by one round of the do-while loop, starting at call \<open>n\<close>.\<close>

definition rawSample :: "random_source \<Rightarrow> nat \<Rightarrow> vec3" where
  "rawSample rnd n = Vec3 (rnd n * 2 - 1) (rnd (n + 1) * 2 - 1) (rnd (n + 2) * 2 - 1)"

text \<open>The loop condition \<^verbatim>\<open>lengthSquared >= 1 || lengthSquared < 0.1\<close>.\<close>

definition rejected :: "vec3 \<Rightarrow> bool" where
  "rejected v = (lengthSq v \<ge> 1 \<or> lengthSq v < 0.1)"

text \<open>
  The loop has no retry cap, so it is a partial function: \<open>None\<close> is the run that never
  leaves the loop.  A result is the direction and the number of random calls made.
\<close>

partial_function (option) calculateNewImpulseDirection ::
  "random_source \<Rightarrow> nat \<Rightarrow> (vec3 \<times> nat) option" where
  "calculateNewImpulseDirection rnd n =
     (let x = rnd n * 2 - 1;
          y = rnd (n + 1) * 2 - 1;
          z = rnd (n + 2) * 2 - 1;
          lengthSquared = x * x + y * y + z * z
      in if lengthSquared \<ge> 1 \<or> lengthSquared < 0.1
         then calculateNewImpulseDirection rnd (n + 3)
         else (let length = sqrt lengthSquared
               in Some (Vec3 (x / length) (y / length) (z / length), n + 3)))"

section \<open>Configuration\<close>

text \<open>The constants of \<^verbatim>\<open>physicsConfig\<close> and \<^verbatim>\<open>sphereConfig\<close> that the loop reads.\<close>

definition timeStep :: real where "timeStep = 1 / 60"
definition boundaryForceMultiplier :: real where "boundaryForceMultiplier = 150"
definition centralGravityStrength :: real where "centralGravityStrength = 0"
definition exitThreshold :: real where "exitThreshold = 1.02"
definition mainRadius :: real where "mainRadius = 5.0"
definition smallCount :: nat where "smallCount = 14"
definition smallMinRadius :: real where "smallMinRadius = 0.2"
definition smallMaxRadius :: real where "smallMaxRadius = 0.6"
definition cueBallRadius :: real where "cueBallRadius = 0.5"
definition cueBallMass :: real where "cueBallMass = 5.0"
definition cueBallImpulseFactor :: real where "cueBallImpulseFactor = 40.0"
definition cueBallEmissiveIntensity :: real where "cueBallEmissiveIntensity = 0.9"
definition regenerationInterval :: real where "regenerationInterval = 10000"
definition popupDuration :: real where "popupDuration = 800"
definition popupScale :: real where "popupScale = 1.5"
definition newSphereImpulseFactor :: real where "newSphereImpulseFactor = 40.0"

text \<open>\<^verbatim>\<open>const effectiveRadius = sphereConfig.mainRadius * 0.9\<close> and \<^verbatim>\<open>const maxVelocity = 12\<close>.\<close>

definition effectiveRadius :: real where "effectiveRadius = mainRadius * 0.9"
definition maxVelocity :: real where "maxVelocity = 12"

section \<open>Data model\<close>

subsection \<open>Rigid bodies of the physics library\<close>

text \<open>
  A \<^verbatim>\<open>CANNON.Body\<close>.  The library is not part of the repository; the model keeps what the
  loop reads and writes (type, mass, position, velocity) and, per body, the list of
  \<^verbatim>\<open>applyImpulse\<close> and \<^verbatim>\<open>applyForce\<close> calls made on it since the last \<^verbatim>\<open>world.step\<close>.
  As the library documents, both calls do nothing on a body that is not dynamic, and an
  impulse changes the velocity at once by impulse / mass.  \<open>body_id\<close> is the identity of
  the JavaScript object.
\<close>

datatype body_type = DYNAMIC | KINEMATIC

datatype call = Impulse vec3 vec3 | Force vec3 vec3

record body =
  body_id :: nat
  btype :: body_type
  radius :: real
  mass :: real
  position :: vec3
  velocity :: vec3
  applied :: "call list"

definition applyImpulse :: "vec3 \<Rightarrow> vec3 \<Rightarrow> body \<Rightarrow> body" where
  "applyImpulse impulse relativePoint b =
     (if btype b \<noteq> DYNAMIC then b
      else b\<lparr>velocity := vadd (velocity b) (vscale (1 / mass b) impulse),
             applied := applied b @ [Impulse impulse relativePoint]\<rparr>)"

definition applyForce :: "vec3 \<Rightarrow> vec3 \<Rightarrow> body \<Rightarrow> body" where
  "applyForce force relativePoint b =
     (if btype b \<noteq> DYNAMIC then b
      else b\<lparr>applied := applied b @ [Force force relativePoint]\<rparr>)"

subsection \<open>Scene objects of the renderer\<close>

text \<open>
  Objects of the scene graph live in a store indexed by object identity; \<open>children\<close>
  of the state is \<^verbatim>\<open>scene.children\<close>, a list of identities.  A mesh refers to its light
  only through \<open>lightIndex\<close>, a position in \<^verbatim>\<open>scene.children\<close> recorded when the light was
  added.  \<open>ownedLight\<close> is a ghost field, never read by the program's model: the identity
  of the light that was created for the mesh.
\<close>

record SphereUserData =
  hasLight :: bool
  lightIndex :: int
  isCueBall :: bool

datatype object_kind = MeshObject | PointLightObject | OtherObject

record object3d =
  okind :: object_kind
  userData :: SphereUserData
  ownedLight :: "nat option"
  oposition :: vec3
  oscale :: vec3
  orotation :: vec3
  intensity :: real
  emissiveIntensity :: real

definition noUserData :: SphereUserData where
  "noUserData = \<lparr>hasLight = False, lightIndex = -1, isCueBall = False\<rparr>"

definition newObject :: "object_kind \<Rightarrow> object3d" where
  "newObject k = \<lparr>okind = k, userData = noUserData, ownedLight = None, oposition = vzero,
     oscale = Vec3 1 1 1, orotation = vzero, intensity = 1, emissiveIntensity = 1\<rparr>"

subsection \<open>The state of the component\<close>

record pending =
  pmesh :: "nat option"
  pbody :: "body option"
  startTime :: real
  initialPosition :: vec3

definition noPending :: pending where
  "noPending = \<lparr>pmesh = None, pbody = None, startTime = 0, initialPosition = vzero\<rparr>"

text \<open>
  The refs, the closure variables of the effect, the scene and the physics world.
  \<open>isActive_state\<close> is the React state cell written by \<^verbatim>\<open>setIsActive\<close>;
  \<open>isActive_closure\<close> is the \<^verbatim>\<open>const isActive\<close> binding that \<^verbatim>\<open>animate\<close> closes over: the
  effect has an empty dependency list, so \<^verbatim>\<open>animate\<close> is created once, in the first
  render, where \<^verbatim>\<open>useState(true)\<close> bound \<^verbatim>\<open>isActive\<close> to \<^verbatim>\<open>true\<close>.
  \<open>world_steps\<close> logs the calls of \<^verbatim>\<open>world.step\<close>, \<open>rng\<close> counts the calls of
  \<^verbatim>\<open>Math.random\<close>, \<open>renders\<close> those of \<^verbatim>\<open>composer.render\<close> and \<open>raf_requests\<close> those of
  \<^verbatim>\<open>requestAnimationFrame(animate)\<close>.
\<close>

record state =
  isActive_state :: bool
  isActive_closure :: bool
  worldRef :: bool
  mainSphereMeshRef :: "nat option"
  particlesMesh :: nat
  timeRef :: real
  lastTime :: real
  smallSphereMeshes :: "nat list"
  smallSphereBodies :: "body list"
  cueBallIndex :: int
  lastImpulseTime :: real
  impulseInterval :: real
  lastSphereRegenerationTime :: real
  impulseDirection :: vec3
  newSphereScale :: real
  pendingNewSphere :: pending
  lastVelocities :: "vec3 list"
  stationaryTimes :: "real list"
  children :: "nat list"
  objects :: "nat \<Rightarrow> object3d"
  next_object :: nat
  world_bodies :: "nat list"
  world_steps :: "real list"
  next_body :: nat
  rng :: nat
  renders :: nat
  raf_requests :: nat

text \<open>
  What a call can do: return, throw (the exception leaves \<^verbatim>\<open>animate\<close>, and no further
  frame is requested), or never return.  \<open>OutsideModel\<close> stands for JavaScript values the
  model has no number for (\<^verbatim>\<open>undefined + deltaTime\<close>).
\<close>

datatype error = TypeError | OutsideModel

datatype 'a outcome = Returns 'a | Throws error | Diverges

definition obind :: "'a outcome \<Rightarrow> ('a \<Rightarrow> 'b outcome) \<Rightarrow> 'b outcome" where
  "obind m f = (case m of Returns a \<Rightarrow> f a | Throws e \<Rightarrow> Throws e | Diverges \<Rightarrow> Diverges)"

subsection \<open>Library calls on the scene and the world\<close>

text \<open>\<^verbatim>\<open>array[i]\<close> for a number \<open>i\<close>: \<^verbatim>\<open>undefined\<close> outside the array.\<close>

definition at_index :: "'a list \<Rightarrow> int \<Rightarrow> 'a option" where
  "at_index xs i = (if 0 \<le> i \<and> i < int (length xs) then Some (xs ! nat i) else None)"

text \<open>\<^verbatim>\<open>array.splice(i, 1)\<close> for an index inside the array.\<close>

definition splice1 :: "nat \<Rightarrow> 'a list \<Rightarrow> 'a list" where
  "splice1 i xs = take i xs @ drop (Suc i) xs"

text \<open>\<^verbatim>\<open>array.indexOf(x)\<close>, \<open>-1\<close> when absent.\<close>

fun indexOf :: "'a list \<Rightarrow> 'a \<Rightarrow> int" where
  "indexOf [] x = -1"
| "indexOf (y # ys) x = (if y = x then 0 else (let r = indexOf ys x in if r < 0 then -1 else r + 1))"

text \<open>\<^verbatim>\<open>scene.add\<close> of a new object appends it; \<^verbatim>\<open>scene.remove\<close> deletes it from the children.\<close>

definition scene_add :: "object3d \<Rightarrow> state \<Rightarrow> nat \<times> state" where
  "scene_add ob s =
     (let oid = next_object s
      in (oid, s\<lparr>objects := (objects s)(oid := ob), children := children s @ [oid],
                 next_object := oid + 1\<rparr>))"

definition scene_remove :: "nat \<Rightarrow> state \<Rightarrow> state" where
  "scene_remove oid s = s\<lparr>children := remove1 oid (children s)\<rparr>"

definition update_object :: "nat \<Rightarrow> (object3d \<Rightarrow> object3d) \<Rightarrow> state \<Rightarrow> state" where
  "update_object oid f s = s\<lparr>objects := (objects s)(oid := f (objects s oid))\<rparr>"

definition world_addBody :: "body \<Rightarrow> state \<Rightarrow> state" where
  "world_addBody b s = s\<lparr>world_bodies := world_bodies s @ [body_id b]\<rparr>"

definition world_removeBody :: "body \<Rightarrow> state \<Rightarrow> state" where
  "world_removeBody b s = s\<lparr>world_bodies := remove1 (body_id b) (world_bodies s)\<rparr>"

text \<open>
  \<^verbatim>\<open>world.step(dt)\<close> is the solver, a black box \<open>phys\<close>: from the step and the bodies of
  the world it gives each of them a new position and velocity, and it consumes the calls
  applied since the last step.  Bodies that are not in the world are left alone.
\<close>

type_synonym physics = "real \<Rightarrow> body list \<Rightarrow> body \<Rightarrow> vec3 \<times> vec3"

definition in_world :: "state \<Rightarrow> body \<Rightarrow> bool" where
  "in_world s b = (body_id b \<in> set (world_bodies s))"

definition stepBody :: "physics \<Rightarrow> real \<Rightarrow> body list \<Rightarrow> body \<Rightarrow> body" where
  "stepBody phys dt snapshot b =
     (case phys dt snapshot b of
        (p, v) \<Rightarrow> b\<lparr>position := p, velocity := v, applied := []\<rparr>)"

definition world_step :: "physics \<Rightarrow> real \<Rightarrow> state \<Rightarrow> state" where
  "world_step phys dt s =
     (let snapshot = filter (in_world s)
            (smallSphereBodies s @ (case pbody (pendingNewSphere s) of None \<Rightarrow> [] | Some b \<Rightarrow> [b]));
          upd = (\<lambda>b. if in_world s b then stepBody phys dt snapshot b else b)
      in s\<lparr>smallSphereBodies := map upd (smallSphereBodies s),
            pendingNewSphere := (pendingNewSphere s)\<lparr>pbody := map_option upd (pbody (pendingNewSphere s))\<rparr>,
            world_steps := world_steps s @ [dt]\<rparr>)"

section \<open>Operations on the registry\<close>

subsection \<open>Removing the sphere at an index\<close>

text \<open>
  The lines that \<^verbatim>\<open>removeRandomSphere\<close> and the removal loop at the end of the boundary
  pass share: adjust the driver index, look the light up at \<open>lightIndex\<close> in the
  children of the scene and remove what is found there, remove the mesh from the scene
  and the body from the world, splice both arrays.  Reading \<^verbatim>\<open>userData\<close> of a mesh that
  is \<^verbatim>\<open>undefined\<close>, or removing an \<^verbatim>\<open>undefined\<close> body from the world, throws.
\<close>

definition removeSphereAt :: "int \<Rightarrow> state \<Rightarrow> state outcome" where
  "removeSphereAt indexToRemove s =
     (case (at_index (smallSphereMeshes s) indexToRemove,
            at_index (smallSphereBodies s) indexToRemove) of
        (Some meshToRemove, Some bodyToRemove) \<Rightarrow>
          (let s1 = (if indexToRemove < cueBallIndex s
                     then s\<lparr>cueBallIndex := cueBallIndex s - 1\<rparr> else s);
               ud = userData (objects s1 meshToRemove);
               s2 = (if hasLight ud \<and> lightIndex ud \<ge> 0
                     then (case at_index (children s1) (lightIndex ud) of
                             Some lightToRemove \<Rightarrow> scene_remove lightToRemove s1
                           | None \<Rightarrow> s1)
                     else s1);
               s3 = scene_remove meshToRemove s2;
               s4 = world_removeBody bodyToRemove s3
           in Returns (s4\<lparr>smallSphereMeshes := splice1 (nat indexToRemove) (smallSphereMeshes s4),
                           smallSphereBodies := splice1 (nat indexToRemove) (smallSphereBodies s4)\<rparr>))
      | _ \<Rightarrow> Throws TypeError)"

subsection \<open>removeRandomSphere\<close>

text \<open>
  The do-while loop that draws an index until it differs from the driver's.  It has no
  retry cap either.  The result is the index and the number of random calls made.
\<close>

partial_function (option) pickRandomIndex ::
  "random_source \<Rightarrow> nat \<Rightarrow> nat \<Rightarrow> int \<Rightarrow> (int \<times> nat) option" where
  "pickRandomIndex rnd n len cueBallIdx =
     (let randomIndex = \<lfloor>rnd n * real len\<rfloor>
      in if randomIndex = cueBallIdx then pickRandomIndex rnd (n + 1) len cueBallIdx
         else Some (randomIndex, n + 1))"

definition removeRandomSphere :: "random_source \<Rightarrow> real \<Rightarrow> state \<Rightarrow> state outcome" where
  "removeRandomSphere rnd time s =
     (if length (smallSphereMeshes s) \<le> 1 \<or> length (smallSphereBodies s) \<le> 1 then Returns s
      else (case pickRandomIndex rnd (rng s) (length (smallSphereMeshes s)) (cueBallIndex s) of
              None \<Rightarrow> Diverges
            | Some (randomIndex, n) \<Rightarrow>
                obind (removeSphereAt randomIndex (s\<lparr>rng := n\<rparr>))
                  (\<lambda>s'. Returns (s'\<lparr>lastSphereRegenerationTime := time\<rparr>))))"

subsection \<open>createNewSphere\<close>

text \<open>
  One random call for the radius and three for the colour (\<^verbatim>\<open>generateVibrantColor\<close>;
  colours and materials are not part of the state), then the direction of the initial
  position.  The mesh and its light are added to the scene, the body to the world as a
  kinematic body, and the three become the pending spawn.
\<close>

definition createNewSphere :: "random_source \<Rightarrow> real \<Rightarrow> state \<Rightarrow> state outcome" where
  "createNewSphere rnd time s =
     (let r = smallMinRadius + rnd (rng s) * (smallMaxRadius - smallMinRadius)
      in case calculateNewImpulseDirection rnd (rng s + 4) of
           None \<Rightarrow> Diverges
         | Some (initialDir, n) \<Rightarrow>
             (let initialDist = mainRadius * 0.3;
                  pos = Vec3 (vx initialDir * initialDist) (vy initialDir * initialDist)
                          (vz initialDir * initialDist);
                  lightId = next_object s + 1;
                  (meshId, s1) = scene_add ((newObject MeshObject)
                      \<lparr>oposition := pos, oscale := Vec3 0.01 0.01 0.01, emissiveIntensity := 0.7,
                       ownedLight := Some lightId\<rparr>) (s\<lparr>rng := n\<rparr>);
                  (lightId', s2) = scene_add ((newObject PointLightObject)
                      \<lparr>oposition := pos, intensity := 2.0\<rparr>) s1;
                  lightIdx = indexOf (children s2) lightId';
                  s3 = update_object meshId
                      (\<lambda>ob. ob\<lparr>userData := \<lparr>hasLight = True, lightIndex = lightIdx, isCueBall = False\<rparr>\<rparr>) s2;
                  sphereBody = \<lparr>body_id = next_body s3, btype = KINEMATIC, radius = r, mass = r * 3,
                      position = pos, velocity = vzero, applied = []\<rparr>;
                  s4 = world_addBody sphereBody (s3\<lparr>next_body := next_body s3 + 1\<rparr>)
              in Returns (s4\<lparr>pendingNewSphere := \<lparr>pmesh = Some meshId, pbody = Some sphereBody,
                                startTime = time, initialPosition = pos\<rparr>,
                              newSphereScale := 0\<rparr>)))"

subsection \<open>updateNewSphereAnimation\<close>

definition easeOutElastic :: "real \<Rightarrow> real" where
  "easeOutElastic x =
     (let c4 = (2 * pi) / 3
      in if x = 0 \<or> x = 1 then x
         else 2 powr (-10 * x) * sin ((x * 10 - 0.75) * c4) + 1)"

definition updateNewSphereAnimation :: "random_source \<Rightarrow> real \<Rightarrow> state \<Rightarrow> state outcome" where
  "updateNewSphereAnimation rnd time s =
     (case (pmesh (pendingNewSphere s), pbody (pendingNewSphere s)) of
        (Some mesh, Some b) \<Rightarrow>
          (let elapsed = time - startTime (pendingNewSphere s);
               duration = popupDuration
           in if elapsed \<le> duration then
                (let progress = elapsed / duration;
                     easedProgress = easeOutElastic progress;
                     scale = easedProgress * popupScale;
                     s1 = update_object mesh (\<lambda>ob. ob\<lparr>oscale := Vec3 scale scale scale\<rparr>) s;
                     ud = userData (objects s1 mesh)
                 in Returns
                      (if hasLight ud then
                         (case at_index (children s1) (lightIndex ud) of
                            Some light \<Rightarrow> update_object light
                              (\<lambda>ob. ob\<lparr>intensity := 2.0 + sin (progress * pi * 10) * 1.0\<rparr>) s1
                          | None \<Rightarrow> s1)
                       else s1))
              else
                (let s1 = update_object mesh (\<lambda>ob. ob\<lparr>oscale := Vec3 1 1 1\<rparr>) s;
                     b1 = b\<lparr>btype := DYNAMIC\<rparr>
                 in case calculateNewImpulseDirection rnd (rng s1) of
                      None \<Rightarrow> Diverges
                    | Some (direction, n) \<Rightarrow>
                        (let impulseVector = Vec3 (vx direction * newSphereImpulseFactor)
                               (vy direction * newSphereImpulseFactor)
                               (vz direction * newSphereImpulseFactor);
                             b2 = applyImpulse impulseVector (position b1) b1
                         in Returns (s1\<lparr>rng := n,
                               smallSphereMeshes := smallSphereMeshes s1 @ [mesh],
                               smallSphereBodies := smallSphereBodies s1 @ [b2],
                               pendingNewSphere := noPending\<rparr>))))
      | _ \<Rightarrow> Returns s)"

subsection \<open>applyCueBallImpulse\<close>

definition applyCueBallImpulse :: "random_source \<Rightarrow> real \<Rightarrow> state \<Rightarrow> state outcome" where
  "applyCueBallImpulse rnd time s =
     (if time - lastImpulseTime s > impulseInterval s then
        (case at_index (smallSphereBodies s) (cueBallIndex s) of
           Some cueBallBody \<Rightarrow>
             (case calculateNewImpulseDirection rnd (rng s) of
                None \<Rightarrow> Diverges
              | Some (direction, n) \<Rightarrow>
                  (let impulseVector = Vec3 (vx direction * cueBallImpulseFactor)
                         (vy direction * cueBallImpulseFactor)
                         (vz direction * cueBallImpulseFactor);
                       applicationOffset = Vec3 ((rnd n - 0.5) * 0.1) ((rnd (n + 1) - 0.5) * 0.1)
                         ((rnd (n + 2) - 0.5) * 0.1);
                       b = applyImpulse impulseVector applicationOffset cueBallBody
                   in Returns (s\<lparr>impulseDirection := direction,
                         smallSphereBodies := (smallSphereBodies s)[nat (cueBallIndex s) := b],
                         lastImpulseTime := time,
                         impulseInterval := 3000 + rnd (n + 3) * 2000,
                         rng := n + 4\<rparr>)))
         | None \<Rightarrow> Returns s)
      else Returns s)"

section \<open>The phases of a frame\<close>

text \<open>A \<^verbatim>\<open>forEach\<close> over the indices of an array whose callback may throw.\<close>

fun forEachIndex :: "(nat \<Rightarrow> state \<Rightarrow> state outcome) \<Rightarrow> nat list \<Rightarrow> state \<Rightarrow> state outcome" where
  "forEachIndex f [] s = Returns s"
| "forEachIndex f (i # is) s = obind (f i s) (forEachIndex f is)"

subsection \<open>The regeneration cycle\<close>

definition regenerationCycle :: "random_source \<Rightarrow> real \<Rightarrow> state \<Rightarrow> state outcome" where
  "regenerationCycle rnd time s =
     (if time - lastSphereRegenerationTime s > regenerationInterval then
        obind (if real (length (smallSphereMeshes s)) > max 2 (real smallCount / 2)
               then removeRandomSphere rnd time s else Returns s)
          (\<lambda>s1. if pmesh (pendingNewSphere s1) = None then createNewSphere rnd time s1
                else Returns s1)
      else Returns s)"

definition populationRegenerator :: "random_source \<Rightarrow> real \<Rightarrow> state \<Rightarrow> state outcome" where
  "populationRegenerator rnd time s =
     obind (regenerationCycle rnd time s)
       (\<lambda>s1. if pmesh (pendingNewSphere s1) \<noteq> None then updateNewSphereAnimation rnd time s1
             else Returns s1)"

subsection \<open>The random nudge of slow bodies, every frame whose time is a multiple of 120\<close>

definition nudgeBody :: "random_source \<Rightarrow> nat \<Rightarrow> state \<Rightarrow> state" where
  "nudgeBody rnd index s =
     (if int index \<noteq> cueBallIndex s then
        (let s1 = s\<lparr>rng := rng s + 1\<rparr>
         in if rnd (rng s) > 0.5 then
              (let b = smallSphereBodies s1 ! index;
                   currentVelocity = vlength (velocity b)
               in if currentVelocity < 0.8 then
                    (let randomImpulse = Vec3 ((rnd (rng s1) - 0.5) * 0.8)
                           ((rnd (rng s1 + 1) - 0.5) * 0.8) ((rnd (rng s1 + 2) - 0.5) * 0.8)
                     in s1\<lparr>smallSphereBodies :=
                              (smallSphereBodies s1)[index := applyImpulse randomImpulse (position b) b],
                            rng := rng s1 + 3\<rparr>)
                  else s1)
            else s1)
      else s)"

definition ambientNudge :: "random_source \<Rightarrow> real \<Rightarrow> state \<Rightarrow> state" where
  "ambientNudge rnd time s =
     (if time / 120 = of_int \<lfloor>time / 120\<rfloor>
      then fold (nudgeBody rnd) [0..<length (smallSphereBodies s)] s
      else s)"

subsection \<open>Liveness enforcement\<close>

text \<open>
  The revival impulse: three random calls for the direction, one for the strength.
\<close>

definition revivalImpulse :: "random_source \<Rightarrow> nat \<Rightarrow> body \<Rightarrow> vec3" where
  "revivalImpulse rnd n b =
     (let toCenter = normalize_vec (Vec3 (- vx (position b)) (- vy (position b)) (- vz (position b)));
          randomDir = normalize_vec (Vec3 ((rnd n - 0.5) * 2) ((rnd (n + 1) - 0.5) * 2)
                                      ((rnd (n + 2) - 0.5) * 2));
          finalDir = normalize_vec (Vec3 (vx toCenter * 0.8 + vx randomDir * 0.2)
                                     (vy toCenter * 0.8 + vy randomDir * 0.2)
                                     (vz toCenter * 0.8 + vz randomDir * 0.2));
          impulseStrength = 8 + rnd (n + 3) * 6
      in Vec3 (vx finalDir * impulseStrength) (vy finalDir * impulseStrength)
              (vz finalDir * impulseStrength))"

text \<open>
  The callback of the liveness \<^verbatim>\<open>forEach\<close>.  \<^verbatim>\<open>lastVelocities[index]\<close> outside the array
  is \<^verbatim>\<open>undefined\<close>: the \<^verbatim>\<open>if (lastVel)\<close> block is skipped and the
  \<^verbatim>\<open>lastVelocities[index].copy(vel)\<close> after it throws.  \<^verbatim>\<open>stationaryTimes\<close> is created with
  the length of \<^verbatim>\<open>lastVelocities\<close> and neither is resized; an index inside one and outside
  the other has no value in the model.  \<^verbatim>\<open>vel\<close> is the velocity vector of the body itself, not
  a copy, and \<^verbatim>\<open>applyImpulse\<close> adds to that vector in place: the speed is read before the
  impulse, and the sample stored by \<^verbatim>\<open>lastVelocities[index].copy(vel)\<close> is the velocity the
  body has at the end of the callback, after the impulse if there was one.
\<close>

definition livenessBody :: "random_source \<Rightarrow> real \<Rightarrow> nat \<Rightarrow> state \<Rightarrow> state outcome" where
  "livenessBody rnd deltaTime index s =
     (if int index \<noteq> cueBallIndex s then
        (let b = smallSphereBodies s ! index;
             vel = velocity b;
             currentSpeed = vlength vel
         in if index < length (lastVelocities s) then
              (if index < length (stationaryTimes s) then
                 (let lastVel = lastVelocities s ! index;
                      velocityChange = \<bar>currentSpeed - vlength lastVel\<bar>;
                      s1 = (if currentSpeed < 0.3 \<and> velocityChange < 0.05 then
                              (let t = stationaryTimes s ! index + deltaTime
                               in if t > 2000 then
                                    s\<lparr>smallSphereBodies := (smallSphereBodies s)
                                         [index := applyImpulse (revivalImpulse rnd (rng s) b) (position b) b],
                                      rng := rng s + 4,
                                      stationaryTimes := (stationaryTimes s)[index := 0]\<rparr>
                                  else s\<lparr>stationaryTimes := (stationaryTimes s)[index := t]\<rparr>)
                            else s\<lparr>stationaryTimes := (stationaryTimes s)[index := 0]\<rparr>)
                  in Returns (s1\<lparr>lastVelocities := (lastVelocities s1)
                                   [index := velocity (smallSphereBodies s1 ! index)]\<rparr>))
               else Throws OutsideModel)
            else Throws TypeError)
      else Returns s)"

definition livenessEnforcement :: "random_source \<Rightarrow> real \<Rightarrow> state \<Rightarrow> state outcome" where
  "livenessEnforcement rnd deltaTime s =
     forEachIndex (livenessBody rnd deltaTime) [0..<length (smallSphereBodies s)] s"

subsection \<open>The impulse on the body under the pointer\<close>

text \<open>
  The ray cast is the renderer's; \<open>hit\<close> is \<^verbatim>\<open>intersects[0].object\<close> when the list of
  intersections is not empty.
\<close>

definition pointerImpulse :: "random_source \<Rightarrow> nat option \<Rightarrow> state \<Rightarrow> state" where
  "pointerImpulse rnd hit s =
     (case hit of
        None \<Rightarrow> s
      | Some ob \<Rightarrow>
          (let index = indexOf (smallSphereMeshes s) ob
           in if index \<noteq> -1 \<and> index < int (length (smallSphereBodies s)) then
                (let b = smallSphereBodies s ! nat index;
                     force = Vec3 ((rnd (rng s) - 0.5) * 10) ((rnd (rng s + 1) - 0.5) * 10)
                                  ((rnd (rng s + 2) - 0.5) * 10)
                 in s\<lparr>smallSphereBodies :=
                          (smallSphereBodies s)[nat index := applyImpulse force (position b) b],
                        rng := rng s + 3\<rparr>)
              else s))"

subsection \<open>Boundary confinement\<close>

text \<open>
  The callback of the boundary \<^verbatim>\<open>forEach\<close> on one body: the new body, and whether its
  index is pushed on \<^verbatim>\<open>toRemove\<close>.  \<open>isDriver\<close> is \<^verbatim>\<open>index === cueBallIndexRef.current\<close>.
\<close>

definition boundaryBody :: "bool \<Rightarrow> body \<Rightarrow> body \<times> bool" where
  "boundaryBody isDriver b =
     (let centerDirection = Vec3 (- vx (position b)) (- vy (position b)) (- vz (position b));
          distanceFromCenter = vlength (position b)
      in if distanceFromCenter > mainRadius * exitThreshold then
           (if \<not> isDriver then (b, True)
            else (b\<lparr>position := vscale ((effectiveRadius / distanceFromCenter) * 0.7) (position b),
                    velocity := Vec3 0 0 0\<rparr>, False))
         else
           (let centerDirection1 = (if distanceFromCenter > 0
                  then vscale (1 / distanceFromCenter) centerDirection else centerDirection);
                gravityCentral = vscale centralGravityStrength centerDirection1;
                b1 = applyForce gravityCentral (Vec3 0 0 0) b;
                b2 = (if distanceFromCenter > effectiveRadius * 0.8 then
                        (let boundaryFactor =
                               ((distanceFromCenter - effectiveRadius * 0.8) / (effectiveRadius * 0.2))\<^sup>2
                                 * boundaryForceMultiplier;
                             boundaryForce = vscale boundaryFactor centerDirection1;
                             b' = applyForce boundaryForce (Vec3 0 0 0) b1
                         in b'\<lparr>velocity := vscale 0.95 (velocity b')\<rparr>)
                      else b1);
                currentVelocity = vlength (velocity b2)
            in (if currentVelocity > maxVelocity
                then b2\<lparr>velocity := vscale (maxVelocity / currentVelocity) (velocity b2)\<rparr>
                else b2, False)))"

definition boundaryStep :: "nat \<Rightarrow> state \<times> nat list \<Rightarrow> state \<times> nat list" where
  "boundaryStep index acc =
     (case acc of (s, toRemove) \<Rightarrow>
        (case boundaryBody (int index = cueBallIndex s) (smallSphereBodies s ! index) of
           (b', marked) \<Rightarrow>
              (s\<lparr>smallSphereBodies := (smallSphereBodies s)[index := b']\<rparr>,
               if marked then toRemove @ [index] else toRemove)))"

definition boundaryConfinement :: "state \<Rightarrow> state \<times> nat list" where
  "boundaryConfinement s = fold boundaryStep [0..<length (smallSphereBodies s)] (s, [])"

text \<open>The loop \<^verbatim>\<open>for (let i = toRemove.length - 1; i >= 0; i--)\<close>.\<close>

fun removeMarked :: "nat list \<Rightarrow> state \<Rightarrow> state outcome" where
  "removeMarked [] s = Returns s"
| "removeMarked (indexToRemove # rest) s = obind (removeSphereAt (int indexToRemove) s) (removeMarked rest)"

definition removalCompaction :: "nat list \<Rightarrow> state \<Rightarrow> state outcome" where
  "removalCompaction toRemove s = removeMarked (rev toRemove) s"

subsection \<open>Render sync\<close>

definition syncBody :: "real \<Rightarrow> nat \<Rightarrow> state \<Rightarrow> state outcome" where
  "syncBody time index s =
     (case at_index (smallSphereMeshes s) (int index) of
        None \<Rightarrow> Throws TypeError
      | Some sphereMesh \<Rightarrow>
          (let b = smallSphereBodies s ! index;
               ud = userData (objects s sphereMesh);
               s1 = update_object sphereMesh (\<lambda>ob. ob\<lparr>oposition := position b\<rparr>) s;
               s2 = (if hasLight ud then
                       (case at_index (children s1) (lightIndex ud) of
                          Some light \<Rightarrow> update_object light
                            (\<lambda>ob. ob\<lparr>oposition := oposition (objects s1 sphereMesh),
                                     intensity := (if isCueBall ud then 2.5 + sin (time * 0.003) * 0.5
                                                   else 1.5 + sin (time * 0.002 + real index) * 0.3)\<rparr>) s1
                        | None \<Rightarrow> s1)
                     else s1)
           in Returns
                (if isCueBall ud then
                   update_object sphereMesh
                     (\<lambda>ob. ob\<lparr>emissiveIntensity := 0.7 + sin (time * 0.003) * 0.2,
                              oscale := (let scalePulse = 1.0 + sin (time * 0.003) * 0.03
                                         in Vec3 scalePulse scalePulse scalePulse)\<rparr>) s2
                 else
                   update_object sphereMesh
                     (\<lambda>ob. ob\<lparr>emissiveIntensity := 0.4 + sin (time * 0.001 + real index * 0.2) * 0.15\<rparr>) s2)))"

definition renderSync :: "real \<Rightarrow> state \<Rightarrow> state outcome" where
  "renderSync time s =
     (case mainSphereMeshRef s of
        None \<Rightarrow> Throws TypeError
      | Some mainSphereMesh \<Rightarrow>
          (let mainSpherePulse = sin (time * 0.001) * 0.03 + 1;
               s1 = update_object mainSphereMesh
                      (\<lambda>ob. ob\<lparr>orotation := Vec3 (time * 0.0001) (time * 0.0002) (vz (orotation ob)),
                               oposition := Vec3 0 0 0,
                               oscale := Vec3 mainSpherePulse mainSpherePulse mainSpherePulse\<rparr>) s;
               s2 = update_object (particlesMesh s1)
                      (\<lambda>ob. ob\<lparr>orotation := Vec3 (time * 0.0001) (time * 0.0002) (vz (orotation ob))\<rparr>) s1
           in obind (forEachIndex (syncBody time) [0..<length (smallSphereBodies s2)] s2)
                (\<lambda>s3. Returns (s3\<lparr>renders := renders s3 + 1\<rparr>))))"

section \<open>The frame callback\<close>

text \<open>The loop \<^verbatim>\<open>for (let i = 0; i < 2; i++) world.step(physicsConfig.timeStep)\<close>.\<close>

definition stepWorld :: "physics \<Rightarrow> state \<Rightarrow> state" where
  "stepWorld phys s = world_step phys timeStep (world_step phys timeStep s)"

text \<open>
  \<^verbatim>\<open>animate(time)\<close>, with the object hit by the pointer ray as a second input.
\<close>

definition animate :: "random_source \<Rightarrow> physics \<Rightarrow> real \<Rightarrow> nat option \<Rightarrow> state \<Rightarrow> state outcome" where
  "animate rnd phys time hit s =
     (if \<not> isActive_closure s then Returns s
      else
        (let deltaTime = time - lastTime s;
             s0 = s\<lparr>lastTime := time, timeRef := time\<rparr>
         in if \<not> worldRef s0 \<or> mainSphereMeshRef s0 = None then Returns s0
            else
              obind (populationRegenerator rnd time (stepWorld phys s0)) (\<lambda>s1.
              obind (applyCueBallImpulse rnd time s1) (\<lambda>s2.
              obind (livenessEnforcement rnd deltaTime (ambientNudge rnd time s2)) (\<lambda>s3.
              (case boundaryConfinement (pointerImpulse rnd hit s3) of
                 (s4, toRemove) \<Rightarrow>
                   obind (removalCompaction toRemove s4) (\<lambda>s5.
                   obind (renderSync time s5) (\<lambda>s6.
                   Returns (s6\<lparr>raf_requests := raf_requests s6 + 1\<rparr>)))))))))"

text \<open>
  The order of phases the specification gives: driver impulse scheduler, then
  population regenerator, then the rest.  Written from the specification, to be compared
  with \<^const>\<open>animate\<close>.
\<close>

definition animate_spec_order ::
  "random_source \<Rightarrow> physics \<Rightarrow> real \<Rightarrow> nat option \<Rightarrow> state \<Rightarrow> state outcome" where
  "animate_spec_order rnd phys time hit s =
     (if \<not> isActive_closure s then Returns s
      else
        (let deltaTime = time - lastTime s;
             s0 = s\<lparr>lastTime := time, timeRef := time\<rparr>
         in if \<not> worldRef s0 \<or> mainSphereMeshRef s0 = None then Returns s0
            else
              obind (applyCueBallImpulse rnd time (stepWorld phys s0)) (\<lambda>s1.
              obind (populationRegenerator rnd time s1) (\<lambda>s2.
              obind (livenessEnforcement rnd deltaTime s2) (\<lambda>s3.
              (case boundaryConfinement s3 of
                 (s4, toRemove) \<Rightarrow>
                   obind (removalCompaction toRemove s4) (\<lambda>s5.
                   obind (renderSync time s5) (\<lambda>s6.
                   Returns (s6\<lparr>raf_requests := raf_requests s6 + 1\<rparr>)))))))))"

subsection \<open>Teardown\<close>

text \<open>
  The cleanup function of the effect: \<^verbatim>\<open>setIsActive(false)\<close> writes the state cell,
  \<^verbatim>\<open>scene.clear()\<close> empties the children of the scene, and every body of the registry is
  removed from the world.  Nothing here writes the binding \<^verbatim>\<open>animate\<close> closed over, and
  no pending frame request is cancelled.
\<close>

definition cleanup :: "state \<Rightarrow> state" where
  "cleanup s =
     (let s1 = s\<lparr>isActive_state := False\<rparr>;
          s2 = s1\<lparr>children := []\<rparr>
      in if worldRef s2 \<and> length (smallSphereBodies s2) > 0
         then fold world_removeBody (smallSphereBodies s2) s2
         else s2)"

section \<open>The initial population\<close>

text \<open>\<^verbatim>\<open>THREE.Vector3.normalize\<close> divides by \<^verbatim>\<open>length() || 1\<close>.\<close>

definition three_normalize :: "vec3 \<Rightarrow> vec3" where
  "three_normalize v = vscale (1 / (if vlength v = 0 then 1 else vlength v)) v"

text \<open>
  One round of the loop \<^verbatim>\<open>for (let i = 0; i < sphereCount; i++)\<close> of the effect.  The
  random calls are counted in the order the source makes them: radius, colour (three),
  metalness, roughness, emissive intensity, direction (three), distance, the light's coin
  and intensity, the velocity (three); the driver draws none of the first seven, nor the
  light's two, and calls \<^verbatim>\<open>calculateNewImpulseDirection\<close> at the end.
\<close>

definition createInitialSphere :: "random_source \<Rightarrow> nat \<Rightarrow> state \<Rightarrow> state outcome" where
  "createInitialSphere rnd i s =
     (let isCue = (int i = cueBallIndex s);
          n0 = rng s;
          r = (if isCue then cueBallRadius
               else smallMinRadius + rnd n0 * (smallMaxRadius - smallMinRadius));
          n3 = (if isCue then n0 else n0 + 7);
          emi = (if isCue then cueBallEmissiveIntensity else rnd (n0 + 6) * 0.6 + 0.4);
          maxStartRadius = mainRadius * 0;
          randomDir = three_normalize (Vec3 (rnd n3 * 2 - 1) (rnd (n3 + 1) * 2 - 1) (rnd (n3 + 2) * 2 - 1));
          randomDist = rnd (n3 + 3) * maxStartRadius;
          pos = Vec3 (vx randomDir * randomDist) (vy randomDir * randomDist) (vz randomDir * randomDist);
          n4 = n3 + 4;
          withLight = (isCue \<or> rnd n4 > 0.3);
          n5 = (if isCue then n4 else n4 + 1);
          lightIntensity = (if isCue then 3.0 else rnd n5 * 1.5 + 0.5);
          n6 = (if withLight \<and> \<not> isCue then n5 + 1 else n5);
          (meshId, s1) = scene_add ((newObject MeshObject)\<lparr>oposition := pos, emissiveIntensity := emi\<rparr>) s;
          s2 = s1\<lparr>smallSphereMeshes := smallSphereMeshes s1 @ [meshId]\<rparr>;
          s3 = (if withLight then
                  (let (lightId, t) = scene_add ((newObject PointLightObject)
                          \<lparr>oposition := pos, intensity := lightIntensity\<rparr>) s2
                   in update_object meshId
                        (\<lambda>ob. ob\<lparr>userData := \<lparr>hasLight = True,
                                   lightIndex = indexOf (children t) lightId, isCueBall = isCue\<rparr>,
                                 ownedLight := Some lightId\<rparr>) t)
                else update_object meshId
                        (\<lambda>ob. ob\<lparr>userData := \<lparr>hasLight = False, lightIndex = -1, isCueBall = isCue\<rparr>\<rparr>) s2);
          initialVelocity = Vec3 ((rnd n6 - 0.5) * 1.5) ((rnd (n6 + 1) - 0.5) * 1.5)
                                 ((rnd (n6 + 2) - 0.5) * 1.5);
          sphereBody = \<lparr>body_id = next_body s3, btype = DYNAMIC, radius = r,
                        mass = (if isCue then cueBallMass else r * 2),
                        position = pos, velocity = initialVelocity, applied = []\<rparr>;
          s4 = world_addBody sphereBody
                 (s3\<lparr>next_body := next_body s3 + 1,
                     smallSphereBodies := smallSphereBodies s3 @ [sphereBody],
                     rng := n6 + 3\<rparr>)
      in if isCue then
           (case calculateNewImpulseDirection rnd (rng s4) of
              None \<Rightarrow> Diverges
            | Some (d, n) \<Rightarrow> Returns (s4\<lparr>rng := n\<rparr>))
         else Returns s4)"

text \<open>
  The state before the loop: the scene holds the ambient, directional and inner lights,
  the shell and the particle cloud (objects 0 to 4); the cloud has drawn 900 random
  numbers; the refs hold their initial values.
\<close>

definition beforeSpheres :: state where
  "beforeSpheres =
     \<lparr>isActive_state = True, isActive_closure = True, worldRef = True,
      mainSphereMeshRef = Some 3, particlesMesh = 4, timeRef = 0, lastTime = 0,
      smallSphereMeshes = [], smallSphereBodies = [], cueBallIndex = -1,
      lastImpulseTime = 0, impulseInterval = 3000, lastSphereRegenerationTime = 0,
      impulseDirection = vzero, newSphereScale = 0, pendingNewSphere = noPending,
      lastVelocities = [], stationaryTimes = [],
      children = [0, 1, 2, 3, 4],
      objects = (\<lambda>i. newObject (if i = 3 then MeshObject else if i < 3 then PointLightObject
                                   else OtherObject)),
      next_object = 5, world_bodies = [], world_steps = [], next_body = 0,
      rng = 900, renders = 0, raf_requests = 0\<rparr>"

text \<open>\<^verbatim>\<open>createInnerGlow\<close> adds two glow spheres to the scene.\<close>

definition createInnerGlow :: "state \<Rightarrow> state" where
  "createInnerGlow s = snd (scene_add (newObject MeshObject) (snd (scene_add (newObject MeshObject) s)))"

text \<open>
  The effect up to the first call \<^verbatim>\<open>animate(0)\<close>: the driver index is drawn, the two
  tracker arrays are created with \<open>sphereCount\<close> entries, the spheres are created, and
  the glow spheres are added.
\<close>

definition mount :: "random_source \<Rightarrow> state outcome" where
  "mount rnd =
     (let sphereCount = smallCount;
          s0 = beforeSpheres\<lparr>cueBallIndex := \<lfloor>rnd 900 * real sphereCount\<rfloor>, rng := 901,
                 lastVelocities := replicate sphereCount (Vec3 0 0 0),
                 stationaryTimes := replicate sphereCount 0\<rparr>
      in obind (forEachIndex (createInitialSphere rnd) [0..<sphereCount] s0)
           (\<lambda>s. Returns (createInnerGlow s)))"

section \<open>Notions used in the statements\<close>

text \<open>The speed clamp at the end of the boundary callback, as a function of the velocity.\<close>

definition clampSpeed :: "vec3 \<Rightarrow> vec3" where
  "clampSpeed v = (if vlength v > maxVelocity then vscale (maxVelocity / vlength v) v else v)"

text \<open>A strictly descending list of indices.\<close>

fun descending :: "nat list \<Rightarrow> bool" where
  "descending [] = True"
| "descending (k # ks) = ((\<forall>j \<in> set ks. j < k) \<and> descending ks)"

text \<open>
  The object and the body the driver index points at: the mesh
  \<^verbatim>\<open>smallSphereMeshes[cueBallIndexRef.current]\<close> and the identity of the body
  \<^verbatim>\<open>smallSphereBodies[cueBallIndexRef.current]\<close>.
\<close>

definition driverMesh :: "state \<Rightarrow> nat option" where
  "driverMesh s = at_index (smallSphereMeshes s) (cueBallIndex s)"

definition driverBody :: "state \<Rightarrow> nat option" where
  "driverBody s = map_option body_id (at_index (smallSphereBodies s) (cueBallIndex s))"

text \<open>The two arrays of the registry run in parallel and the driver index lies inside them.\<close>

definition driver_valid :: "state \<Rightarrow> bool" where
  "driver_valid s =
     (length (smallSphereMeshes s) = length (smallSphereBodies s) \<and>
      0 \<le> cueBallIndex s \<and> cueBallIndex s < int (length (smallSphereMeshes s)))"

text \<open>A body beyond the exit threshold, and the indices the boundary scan marks.\<close>

definition exits :: "body \<Rightarrow> bool" where
  "exits b = (vlength (position b) > mainRadius * exitThreshold)"

definition markedIndices :: "state \<Rightarrow> nat list" where
  "markedIndices s =
     filter (\<lambda>i. int i \<noteq> cueBallIndex s \<and> exits (smallSphereBodies s ! i))
       [0..<length (smallSphereBodies s)]"

text \<open>The children of the scene after the removal code has run for the sphere at \<open>k\<close>.\<close>

definition childrenAfterRemoval :: "nat \<Rightarrow> state \<Rightarrow> nat list" where
  "childrenAfterRemoval k s =
     (let m = smallSphereMeshes s ! k; ud = userData (objects s m)
      in remove1 m
           (if hasLight ud \<and> lightIndex ud \<ge> 0
            then (case at_index (children s) (lightIndex ud) of
                    Some l \<Rightarrow> remove1 l (children s)
                  | None \<Rightarrow> children s)
            else children s))"

text \<open>The bodies after the boundary scan: the callback applied at every index.\<close>

definition confinedBodies :: "state \<Rightarrow> body list" where
  "confinedBodies s =
     map (\<lambda>i. fst (boundaryBody (int i = cueBallIndex s) (smallSphereBodies s ! i)))
       [0..<length (smallSphereBodies s)]"

text \<open>
  The vector \<^verbatim>\<open>randomDir\<close> of the revival impulse before it is normalised, from the random
  calls \<open>n\<close>, \<open>n + 1\<close> and \<open>n + 2\<close>.
\<close>

definition revivalRandom :: "random_source \<Rightarrow> nat \<Rightarrow> vec3" where
  "revivalRandom rnd n = Vec3 ((rnd n - 0.5) * 2) ((rnd (n + 1) - 0.5) * 2) ((rnd (n + 2) - 0.5) * 2)"

text \<open>
  The test of the liveness callback on a body and the velocity sampled at its position,
  and the value the timer at that position takes.
\<close>

definition stationary :: "body \<Rightarrow> vec3 \<Rightarrow> bool" where
  "stationary b lastVel =
     (vlength (velocity b) < 0.3 \<and> \<bar>vlength (velocity b) - vlength lastVel\<bar> < 0.05)"

text \<open>
  The liveness pass at the positions below \<open>n\<close>, written position by position from the
  state before the pass: whether the body at \<open>i\<close> is revived, the number of random calls
  made when the callback reaches \<open>i\<close> (four per revival before it), the body the callback
  leaves at \<open>i\<close>, and the three arrays the pass writes.
\<close>

definition revivedAt :: "real \<Rightarrow> state \<Rightarrow> nat \<Rightarrow> bool" where
  "revivedAt dt s i =
     (int i \<noteq> cueBallIndex s \<and> stationary (smallSphereBodies s ! i) (lastVelocities s ! i)
      \<and> stationaryTimes s ! i + dt > 2000)"

definition rngAt :: "real \<Rightarrow> state \<Rightarrow> nat \<Rightarrow> nat" where
  "rngAt dt s i = rng s + 4 * length (filter (revivedAt dt s) [0..<i])"

definition revivedBody :: "random_source \<Rightarrow> real \<Rightarrow> state \<Rightarrow> nat \<Rightarrow> body" where
  "revivedBody rnd dt s i =
     (let b = smallSphereBodies s ! i
      in if revivedAt dt s i
         then applyImpulse (revivalImpulse rnd (rngAt dt s i) b) (position b) b
         else b)"

definition livenessBodies :: "random_source \<Rightarrow> real \<Rightarrow> state \<Rightarrow> nat \<Rightarrow> body list" where
  "livenessBodies rnd dt s n =
     map (\<lambda>i. let b = smallSphereBodies s ! i
              in if i < n \<and> revivedAt dt s i
                 then applyImpulse (revivalImpulse rnd (rngAt dt s i) b) (position b) b
                 else b)
       [0..<length (smallSphereBodies s)]"

definition livenessTimes :: "real \<Rightarrow> state \<Rightarrow> nat \<Rightarrow> real list" where
  "livenessTimes dt s n =
     map (\<lambda>i. if i < n \<and> int i \<noteq> cueBallIndex s
              then (if stationary (smallSphereBodies s ! i) (lastVelocities s ! i)
                    then (if stationaryTimes s ! i + dt > 2000 then 0 else stationaryTimes s ! i + dt)
                    else 0)
              else stationaryTimes s ! i)
       [0..<length (stationaryTimes s)]"

definition livenessVelocities :: "random_source \<Rightarrow> real \<Rightarrow> state \<Rightarrow> nat \<Rightarrow> vec3 list" where
  "livenessVelocities rnd dt s n =
     map (\<lambda>i. if i < n \<and> int i \<noteq> cueBallIndex s then velocity (revivedBody rnd dt s i)
              else lastVelocities s ! i)
       [0..<length (lastVelocities s)]"

text \<open>
  The invariant of the registry.  The two arrays run in parallel and the driver index
  lies inside them; the mesh at a position is flagged \<^verbatim>\<open>isCueBall\<close> exactly at the driver
  index; every mesh of the registry and of the pending spawn is an object that exists;
  the pending spawn is not the driver and has mesh and body together; and the registry
  with the pending spawn never outgrows the initial population, which is the length of
  the two tracker arrays.
\<close>

definition isCueMesh :: "state \<Rightarrow> nat \<Rightarrow> bool" where
  "isCueMesh s m = isCueBall (userData (objects s m))"

definition pendingCount :: "state \<Rightarrow> nat" where
  "pendingCount s = (case pmesh (pendingNewSphere s) of None \<Rightarrow> 0 | Some m \<Rightarrow> 1)"

definition registry_inv :: "state \<Rightarrow> bool" where
  "registry_inv s =
     (driver_valid s \<and>
      (\<forall>i < length (smallSphereMeshes s).
          isCueMesh s (smallSphereMeshes s ! i) = (int i = cueBallIndex s)) \<and>
      (\<forall>m \<in> set (smallSphereMeshes s). m < next_object s) \<and>
      (case pmesh (pendingNewSphere s) of
         None \<Rightarrow> pbody (pendingNewSphere s) = None
       | Some m \<Rightarrow> m < next_object s \<and> \<not> isCueMesh s m \<and> pbody (pendingNewSphere s) \<noteq> None) \<and>
      length (smallSphereMeshes s) + pendingCount s \<le> smallCount \<and>
      length (lastVelocities s) = smallCount \<and>
      length (stationaryTimes s) = smallCount)"

text \<open>
  What the invariant reads of a state: a phase that leaves this unchanged keeps the
  invariant and the driver.
\<close>

definition skeleton ::
  "state \<Rightarrow> nat list \<times> nat list \<times> int \<times> (nat \<Rightarrow> SphereUserData) \<times> nat \<times> nat option \<times> bool \<times> nat \<times> nat" where
  "skeleton s =
     (smallSphereMeshes s, map body_id (smallSphereBodies s), cueBallIndex s,
      (\<lambda>m. userData (objects s m)), next_object s, pmesh (pendingNewSphere s),
      pbody (pendingNewSphere s) = None, length (lastVelocities s), length (stationaryTimes s))"

text \<open>The invariant of the loop that creates the initial spheres, after \<open>n\<close> rounds.\<close>

definition building :: "nat \<Rightarrow> state \<Rightarrow> bool" where
  "building n s =
     (length (smallSphereMeshes s) = n \<and> length (smallSphereBodies s) = n \<and>
      0 \<le> cueBallIndex s \<and> cueBallIndex s < int smallCount \<and>
      (\<forall>i < n. isCueMesh s (smallSphereMeshes s ! i) = (int i = cueBallIndex s)) \<and>
      (\<forall>m \<in> set (smallSphereMeshes s). m < next_object s) \<and>
      pmesh (pendingNewSphere s) = None \<and> pbody (pendingNewSphere s) = None \<and>
      length (lastVelocities s) = smallCount \<and> length (stationaryTimes s) = smallCount)"

subsection \<open>A small registry for the examples\<close>

text \<open>
  Three spheres, each with a light, the driver in the middle: the scene holds the five
  objects of the start, then mesh and light of each sphere, then the two glow spheres.
\<close>

definition exampleBody :: "nat \<Rightarrow> vec3 \<Rightarrow> vec3 \<Rightarrow> body" where
  "exampleBody i p v =
     \<lparr>body_id = i, btype = DYNAMIC, radius = 0.3, mass = 0.6, position = p, velocity = v,
      applied = []\<rparr>"

definition exampleMesh :: "int \<Rightarrow> nat \<Rightarrow> bool \<Rightarrow> object3d" where
  "exampleMesh li l cue =
     (newObject MeshObject)\<lparr>userData := \<lparr>hasLight = True, lightIndex = li, isCueBall = cue\<rparr>,
                             ownedLight := Some l\<rparr>"

definition exampleState :: state where
  "exampleState =
     beforeSpheres
       \<lparr>smallSphereMeshes := [5, 7, 9],
        smallSphereBodies := [exampleBody 0 (Vec3 1 0 0) (Vec3 0 0 0),
                              exampleBody 1 (Vec3 0 0 0) (Vec3 0 0 0),
                              exampleBody 2 (Vec3 0 2 0) (Vec3 0 0 0)],
        cueBallIndex := 1,
        lastVelocities := replicate smallCount (Vec3 0 0 0),
        stationaryTimes := replicate smallCount 0,
        children := [0, 1, 2, 3, 4, 5, 6, 7, 8, 9, 10, 11, 12],
        objects := (objects beforeSpheres)
           (5 := exampleMesh 6 6 False, 6 := newObject PointLightObject,
            7 := exampleMesh 8 8 True, 8 := newObject PointLightObject,
            9 := exampleMesh 10 10 False, 10 := newObject PointLightObject,
            11 := newObject MeshObject, 12 := newObject MeshObject),
        next_object := 13,
        world_bodies := [0, 1, 2],
        next_body := 3\<rparr>"

text \<open>
  The same registry with the first sphere at rest at position \<open>p\<close>, its timer at 1990 ms;
  and the random source that always returns one half.
\<close>

definition restingState :: "vec3 \<Rightarrow> state" where
  "restingState p =
     exampleState
       \<lparr>smallSphereBodies := (smallSphereBodies exampleState)[0 := exampleBody 0 p (Vec3 0 0 0)],
        stationaryTimes := (stationaryTimes exampleState)[0 := 1990]\<rparr>"

definition halves :: random_source where
  "halves = (\<lambda>n. 1 / 2)"

text \<open>
  The random source that always returns three quarters; and a state in which the solver
  has moved the first body of the registry to distance 6 from the centre, beyond the
  exit threshold.
\<close>

definition threeQuarters :: random_source where
  "threeQuarters = (\<lambda>n. 3 / 4)"

definition movedOut :: "state \<Rightarrow> state" where
  "movedOut s =
     s\<lparr>smallSphereBodies :=
          (smallSphereBodies s)[0 := (smallSphereBodies s ! 0)\<lparr>position := Vec3 6 0 0\<rparr>]\<rparr>"

section \<open>Properties\<close>

lemma calculateNewImpulseDirection_unfold:
  "calculateNewImpulseDirection rnd n =
     (if rejected (rawSample rnd n) then calculateNewImpulseDirection rnd (n + 3)
      else Some (vscale (1 / sqrt (lengthSq (rawSample rnd n))) (rawSample rnd n), n + 3))"
  by (subst calculateNewImpulseDirection.simps)
     (simp add: rejected_def rawSample_def lengthSq_def vscale_def Let_def)

subsection \<open>The direction generator\<close>

lemma dir_terminates_aux:
  "\<not> rejected (rawSample rnd (n + 3 * k)) \<Longrightarrow> calculateNewImpulseDirection rnd n \<noteq> None"
proof (induction k arbitrary: n)
  case 0
  then show ?case by (subst calculateNewImpulseDirection_unfold) simp
next
  case (Suc k)
  have e: "n + 3 * Suc k = (n + 3) + 3 * k" by simp
  from Suc.prems have "\<not> rejected (rawSample rnd ((n + 3) + 3 * k))" unfolding e .
  then have "calculateNewImpulseDirection rnd (n + 3) \<noteq> None" by (rule Suc.IH)
  then show ?case by (subst calculateNewImpulseDirection_unfold) simp
qed

lemma vlength_vscale: "vlength (vscale k v) = \<bar>k\<bar> * vlength v"
proof -
  have "vx v * k * (vx v * k) + vy v * k * (vy v * k) + vz v * k * (vz v * k)
        = k\<^sup>2 * (vx v * vx v + vy v * vy v + vz v * vz v)"
    by (simp add: power2_eq_square algebra_simps)
  then show ?thesis
    by (simp add: vlength_def vscale_def real_sqrt_mult)
qed

lemma vlength_unit:
  assumes "lengthSq v > 0"
  shows "vlength (vscale (1 / sqrt (lengthSq v)) v) = 1"
proof -
  have "vlength v = sqrt (lengthSq v)" by (simp add: vlength_def lengthSq_def)
  moreover have "sqrt (lengthSq v) > 0" using assms by simp
  ultimately show ?thesis by (simp add: vlength_vscale)
qed

lemma dir_result_aux:
  assumes "calculateNewImpulseDirection rnd n = Some r"
  shows "\<exists>k. snd r = n + 3 * k + 3 \<and> (\<forall>j<k. rejected (rawSample rnd (n + 3 * j)))
        \<and> \<not> rejected (rawSample rnd (n + 3 * k))
        \<and> fst r = vscale (1 / sqrt (lengthSq (rawSample rnd (n + 3 * k)))) (rawSample rnd (n + 3 * k))"
proof -
  let ?P = "\<lambda>rnd n r. \<exists>k. snd r = n + 3 * k + 3 \<and> (\<forall>j<k. rejected (rawSample rnd (n + 3 * j)))
        \<and> \<not> rejected (rawSample rnd (n + 3 * k))
        \<and> fst r = vscale (1 / sqrt (lengthSq (rawSample rnd (n + 3 * k)))) (rawSample rnd (n + 3 * k))"
  have "?P rnd n r"
  proof (rule calculateNewImpulseDirection.raw_induct[where P = ?P, OF _ assms])
    fix f :: "random_source \<Rightarrow> nat \<Rightarrow> (vec3 \<times> nat) option" and rnd n r
    assume IH: "\<And>rnd n r. f rnd n = Some r \<Longrightarrow> ?P rnd n r"
    assume eq: "(let x = rnd n * 2 - 1; y = rnd (n + 1) * 2 - 1; z = rnd (n + 2) * 2 - 1;
                     lengthSquared = x * x + y * y + z * z
                 in if lengthSquared \<ge> 1 \<or> lengthSquared < 0.1 then f rnd (n + 3)
                    else (let length = sqrt lengthSquared
                          in Some (Vec3 (x / length) (y / length) (z / length), n + 3))) = Some r"
    show "?P rnd n r"
    proof (cases "rejected (rawSample rnd n)")
      case True
      with eq have "f rnd (n + 3) = Some r"
        by (simp add: rejected_def rawSample_def lengthSq_def Let_def)
      from IH[OF this] obtain k where k: "snd r = n + 3 + 3 * k + 3"
        "\<forall>j<k. rejected (rawSample rnd (n + 3 + 3 * j))"
        "\<not> rejected (rawSample rnd (n + 3 + 3 * k))"
        "fst r = vscale (1 / sqrt (lengthSq (rawSample rnd (n + 3 + 3 * k)))) (rawSample rnd (n + 3 + 3 * k))"
        by (elim exE conjE)
      have e: "\<And>j. n + 3 + 3 * j = n + 3 * Suc j" by simp
      have "\<forall>j<Suc k. rejected (rawSample rnd (n + 3 * j))"
      proof (intro allI impI)
        fix j assume "j < Suc k"
        show "rejected (rawSample rnd (n + 3 * j))"
        proof (cases j)
          case 0 with True show ?thesis by simp
        next
          case (Suc j')
          with \<open>j < Suc k\<close> have "j' < k" by simp
          with k(2) have "rejected (rawSample rnd (n + 3 + 3 * j'))" by blast
          then show ?thesis unfolding e Suc .
        qed
      qed
      moreover have "snd r = n + 3 * Suc k + 3" using k(1) by simp
      moreover have "\<not> rejected (rawSample rnd (n + 3 * Suc k))" using k(3) unfolding e .
      moreover have "fst r = vscale (1 / sqrt (lengthSq (rawSample rnd (n + 3 * Suc k)))) (rawSample rnd (n + 3 * Suc k))"
        using k(4) unfolding e .
      ultimately show ?thesis by blast
    next
      case False
      with eq have "r = (vscale (1 / sqrt (lengthSq (rawSample rnd n))) (rawSample rnd n), n + 3)"
        by (simp add: rejected_def rawSample_def lengthSq_def Let_def vscale_def)
      with False show ?thesis by (intro exI[of _ 0]) simp
    qed
  qed
  then show ?thesis .
qed


lemma acceptance_cube:
  assumes "0.6 \<le> u" "u \<le> 0.7" "0.6 \<le> v" "v \<le> 0.7" "0.6 \<le> w" "w \<le> (0.7::real)"
  shows "\<not> rejected (Vec3 (u * 2 - 1) (v * 2 - 1) (w * 2 - 1))"
proof -
  have sq: "0.04 \<le> x * x \<and> x * x \<le> 0.16" if "0.2 \<le> x" "x \<le> 0.4" for x :: real
  proof -
    have "0.2 * 0.2 \<le> x * x" using that by (intro mult_mono) auto
    moreover have "x * x \<le> 0.4 * 0.4" using that by (intro mult_mono) auto
    ultimately show ?thesis by simp
  qed
  have "0.04 \<le> (u * 2 - 1) * (u * 2 - 1) \<and> (u * 2 - 1) * (u * 2 - 1) \<le> 0.16"
    using assms by (intro sq) auto
  moreover have "0.04 \<le> (v * 2 - 1) * (v * 2 - 1) \<and> (v * 2 - 1) * (v * 2 - 1) \<le> 0.16"
    using assms by (intro sq) auto
  moreover have "0.04 \<le> (w * 2 - 1) * (w * 2 - 1) \<and> (w * 2 - 1) * (w * 2 - 1) \<le> 0.16"
    using assms by (intro sq) auto
  ultimately show ?thesis by (simp add: rejected_def lengthSq_def)
qed

text \<open>
  Claim C9.  The rejection loop of \<^verbatim>\<open>calculateNewImpulseDirection\<close> has no retry cap and
  returns whenever some round of the random source falls in the acceptance region; a
  returned direction comes from a round \<open>k\<close> whose raw sample has squared length in
  \<open>[0.1, 1)\<close>, it is that sample divided by its length, and its length is one.  The
  acceptance region has positive volume: it contains the samples drawn from the cube
  \<open>[0.6, 0.7]\<^sup>3\<close> of random values.
\<close>

theorem direction_generator_terminates_unit:
  "((\<exists>k. \<not> rejected (rawSample rnd (n + 3 * k))) \<longrightarrow>
       (\<exists>d m. calculateNewImpulseDirection rnd n = Some (d, m)))
   \<and> (\<forall>d m. calculateNewImpulseDirection rnd n = Some (d, m) \<longrightarrow>
        (\<exists>k. m = n + 3 * k + 3 \<and>
             0.1 \<le> lengthSq (rawSample rnd (n + 3 * k)) \<and>
             lengthSq (rawSample rnd (n + 3 * k)) < 1 \<and>
             d = vscale (1 / sqrt (lengthSq (rawSample rnd (n + 3 * k)))) (rawSample rnd (n + 3 * k)) \<and>
             vlength d = 1))
   \<and> (\<forall>u v w. 0.6 \<le> u \<and> u \<le> 0.7 \<and> 0.6 \<le> v \<and> v \<le> 0.7 \<and> 0.6 \<le> w \<and> w \<le> 0.7 \<longrightarrow>
        \<not> rejected (Vec3 (u * 2 - 1) (v * 2 - 1) (w * 2 - 1)))"
proof (intro conjI allI impI)
  assume "\<exists>k. \<not> rejected (rawSample rnd (n + 3 * k))"
  then obtain k where "\<not> rejected (rawSample rnd (n + 3 * k))" ..
  then have "calculateNewImpulseDirection rnd n \<noteq> None" by (rule dir_terminates_aux)
  then show "\<exists>d m. calculateNewImpulseDirection rnd n = Some (d, m)" by auto
next
  fix d m
  assume "calculateNewImpulseDirection rnd n = Some (d, m)"
  from dir_result_aux[OF this] obtain k where k: "m = n + 3 * k + 3"
    "\<not> rejected (rawSample rnd (n + 3 * k))"
    "d = vscale (1 / sqrt (lengthSq (rawSample rnd (n + 3 * k)))) (rawSample rnd (n + 3 * k))"
    by auto
  from k(2) have r: "0.1 \<le> lengthSq (rawSample rnd (n + 3 * k))" "lengthSq (rawSample rnd (n + 3 * k)) < 1"
    by (simp_all add: rejected_def)
  then have "vlength d = 1" unfolding k(3) by (intro vlength_unit) simp
  with k r show "\<exists>k. m = n + 3 * k + 3 \<and>
             0.1 \<le> lengthSq (rawSample rnd (n + 3 * k)) \<and>
             lengthSq (rawSample rnd (n + 3 * k)) < 1 \<and>
             d = vscale (1 / sqrt (lengthSq (rawSample rnd (n + 3 * k)))) (rawSample rnd (n + 3 * k)) \<and>
             vlength d = 1" by blast
next
  fix u v w :: real
  assume "0.6 \<le> u \<and> u \<le> 0.7 \<and> 0.6 \<le> v \<and> v \<le> 0.7 \<and> 0.6 \<le> w \<and> w \<le> 0.7"
  then show "\<not> rejected (Vec3 (u * 2 - 1) (v * 2 - 1) (w * 2 - 1))"
    by (intro acceptance_cube) auto
qed

theorem direction_generator_witness:
  "\<exists>d. calculateNewImpulseDirection (\<lambda>_. 3 / 4) 0 = Some (d, 3) \<and> vlength d = 1"
proof -
  let ?rnd = "(\<lambda>_. 3 / 4) :: random_source"
  have acc: "\<not> rejected (rawSample ?rnd (0 + 3 * 0))"
    by (simp add: rejected_def rawSample_def lengthSq_def)
  have first: "\<And>k. \<not> rejected (rawSample ?rnd (0 + 3 * k))"
    by (simp add: rejected_def rawSample_def lengthSq_def)
  from direction_generator_terminates_unit[of ?rnd 0] acc
  obtain d m where dm: "calculateNewImpulseDirection ?rnd 0 = Some (d, m)" by blast
  with direction_generator_terminates_unit[of ?rnd 0]
  obtain k where k: "m = 0 + 3 * k + 3" "vlength d = 1" by blast
  have "calculateNewImpulseDirection ?rnd 0 = Some (vscale (1 / sqrt (lengthSq (rawSample ?rnd 0))) (rawSample ?rnd 0), 3)"
    using acc by (subst calculateNewImpulseDirection_unfold) simp
  with dm have "m = 3" by simp
  with dm k(2) show ?thesis by auto
qed

subsection \<open>Boundary confinement of one body\<close>

lemma vlength_nonneg: "0 \<le> vlength v"
  by (simp add: vlength_def)

lemma vlength_vneg: "vlength (vneg v) = vlength v"
  by (simp add: vlength_def vneg_def)

lemma vscale_zero: "vscale 0 v = Vec3 0 0 0"
  by (simp add: vscale_def)

lemma boundaryBody_inside:
  assumes dyn: "btype b = DYNAMIC"
    and inside: "vlength (position b) \<le> mainRadius * exitThreshold"
  shows "boundaryBody isDriver b =
     (let d = vlength (position b);
          u = (if d > 0 then vscale (1 / d) (vneg (position b)) else vneg (position b));
          F = ((d - effectiveRadius * 0.8) / (effectiveRadius * 0.2))\<^sup>2 * boundaryForceMultiplier
      in if d > effectiveRadius * 0.8
         then (b\<lparr>applied := applied b @ [Force (Vec3 0 0 0) (Vec3 0 0 0), Force (vscale F u) (Vec3 0 0 0)],
                  velocity := clampSpeed (vscale 0.95 (velocity b))\<rparr>, False)
         else (b\<lparr>applied := applied b @ [Force (Vec3 0 0 0) (Vec3 0 0 0)],
                  velocity := clampSpeed (velocity b)\<rparr>, False))"
  using assms
  by (simp add: boundaryBody_def Let_def applyForce_def clampSpeed_def centralGravityStrength_def
      vscale_zero vneg_def)


lemma vlength_axis: "vlength (Vec3 a 0 0) = \<bar>a\<bar>"
  by (simp add: vlength_def)

text \<open>
  Claim C4.  For a dynamic body inside the exit threshold, at distance \<open>d\<close> from the
  centre: when \<open>d > 0.8 \<times> effectiveRadius\<close> the boundary callback applies, after the
  central gravity force (the zero vector, its strength being 0), exactly one restoring
  force \<open>F \<times> u\<close>, where \<open>u\<close> is the unit vector toward the centre and
  \<open>F = ((d - 0.8 effR) / (0.2 effR))\<^sup>2 \<times> boundaryForceMultiplier\<close> is its magnitude, and the
  velocity is multiplied by 0.95 before the speed clamp; at or below \<open>0.8 \<times> effectiveRadius\<close>
  no restoring force is applied and the velocity is only clamped.  The body is not marked
  for removal.
\<close>

theorem boundary_restoring_force:
  assumes "btype b = DYNAMIC"
    and "vlength (position b) \<le> mainRadius * exitThreshold"
  shows "(let d = vlength (position b);
              u = vscale (1 / d) (vneg (position b));
              F = ((d - effectiveRadius * 0.8) / (effectiveRadius * 0.2))\<^sup>2 * boundaryForceMultiplier;
              b' = fst (boundaryBody isDriver b)
          in (if d > effectiveRadius * 0.8
              then applied b' = applied b @ [Force (Vec3 0 0 0) (Vec3 0 0 0), Force (vscale F u) (Vec3 0 0 0)]
                   \<and> vlength u = 1 \<and> vlength (vscale F u) = F
                   \<and> velocity b' = clampSpeed (vscale 0.95 (velocity b))
              else applied b' = applied b @ [Force (Vec3 0 0 0) (Vec3 0 0 0)]
                   \<and> velocity b' = clampSpeed (velocity b))
             \<and> \<not> snd (boundaryBody isDriver b))"
proof (cases "vlength (position b) > effectiveRadius * 0.8")
  case True
  let ?d = "vlength (position b)"
  have er: "effectiveRadius > 0" by (simp add: effectiveRadius_def mainRadius_def)
  then have "effectiveRadius * 0.8 > 0" by simp
  with True have dpos: "?d > 0" by linarith
  have u1: "vlength (vscale (1 / ?d) (vneg (position b))) = 1"
    using dpos by (simp add: vlength_vscale vlength_vneg)
  have F0: "0 \<le> ((?d - effectiveRadius * 0.8) / (effectiveRadius * 0.2))\<^sup>2 * boundaryForceMultiplier"
    by (simp add: boundaryForceMultiplier_def)
  have "vlength (vscale (((?d - effectiveRadius * 0.8) / (effectiveRadius * 0.2))\<^sup>2 * boundaryForceMultiplier)
          (vscale (1 / ?d) (vneg (position b))))
        = ((?d - effectiveRadius * 0.8) / (effectiveRadius * 0.2))\<^sup>2 * boundaryForceMultiplier"
    using F0 u1 by (subst vlength_vscale) simp
  with True dpos u1 show ?thesis
    by (simp add: boundaryBody_inside[OF assms] Let_def)
next
  case False
  then show ?thesis
    by (simp add: boundaryBody_inside[OF assms] Let_def)
qed

theorem boundary_restoring_force_witness:
  "(let b = \<lparr>body_id = 0, btype = DYNAMIC, radius = 0.3, mass = 0.6, position = Vec3 4 0 0,
              velocity = Vec3 1 0 0, applied = []\<rparr>;
        b' = fst (boundaryBody False b)
    in applied b' = [Force (Vec3 0 0 0) (Vec3 0 0 0), Force (Vec3 (- (800 / 27)) 0 0) (Vec3 0 0 0)]
       \<and> velocity b' = Vec3 0.95 0 0)"
proof -
  let ?b = "\<lparr>body_id = 0, btype = DYNAMIC, radius = 0.3, mass = 0.6, position = Vec3 4 0 0,
              velocity = Vec3 1 0 0, applied = []\<rparr>"
  have h1: "btype ?b = DYNAMIC" by simp
  have h2: "vlength (position ?b) \<le> mainRadius * exitThreshold"
    by (simp add: vlength_axis mainRadius_def exitThreshold_def)
  show ?thesis
    using boundary_restoring_force[OF h1 h2, of False]
    by (simp add: Let_def vlength_axis effectiveRadius_def mainRadius_def boundaryForceMultiplier_def
        vscale_def vneg_def clampSpeed_def maxVelocity_def power2_eq_square)
qed

subsection \<open>Splicing lists\<close>

lemma length_splice1: "i < length xs \<Longrightarrow> length (splice1 i xs) = length xs - 1"
  by (simp add: splice1_def)

lemma nth_splice1:
  "i < length xs \<Longrightarrow> j < length xs - 1 \<Longrightarrow>
     splice1 i xs ! j = (if j < i then xs ! j else xs ! Suc j)"
  by (auto simp: splice1_def nth_append min_def)

lemma map_splice1: "map f (splice1 i xs) = splice1 i (map f xs)"
  by (simp add: splice1_def take_map drop_map)

lemma nths_all: "(\<And>j. j < length xs \<Longrightarrow> j \<in> A) \<Longrightarrow> nths xs A = xs"
proof (induction xs arbitrary: A rule: rev_induct)
  case Nil
  then show ?case by simp
next
  case (snoc x xs)
  then show ?case by (simp add: nths_append)
qed

lemma nths_cong_len:
  "(\<And>j. j < length xs \<Longrightarrow> (j \<in> A) = (j \<in> B)) \<Longrightarrow> nths xs A = nths xs B"
  unfolding nths_def by (intro arg_cong[where f = "map fst"] filter_cong) (auto simp: set_zip)

lemma nths_splice1:
  assumes "k < length xs" and "\<And>j. j \<in> K \<Longrightarrow> j < k"
  shows "nths (splice1 k xs) (- K) = nths xs (- insert k K)"
proof -
  have xs: "xs = take k xs @ (xs ! k) # drop (Suc k) xs"
    using assms(1) by (simp add: id_take_nth_drop)
  have a: "nths (take k xs) (- K) = nths (take k xs) (- insert k K)"
    by (rule nths_cong_len) (use assms(1) in auto)
  have b: "nths (drop (Suc k) xs) {j. j + length (take k xs) \<in> - K} = drop (Suc k) xs"
    using assms by (intro nths_all) (fastforce simp: min_def)
  have c: "nths (drop (Suc k) xs) {j. Suc j + length (take k xs) \<in> - insert k K} = drop (Suc k) xs"
    using assms by (intro nths_all) (fastforce simp: min_def)
  have "nths xs (- insert k K) = nths (take k xs @ (xs ! k) # drop (Suc k) xs) (- insert k K)"
    using xs by simp
  also have "\<dots> = nths (take k xs) (- insert k K) @ drop (Suc k) xs"
    using assms(1) c by (simp add: nths_append nths_Cons min_def)
  finally show ?thesis
    using a b by (simp add: splice1_def nths_append)
qed

lemma fold_splice1_nths:
  "descending ks \<Longrightarrow> (\<And>k. k \<in> set ks \<Longrightarrow> k < length xs) \<Longrightarrow>
     fold splice1 ks xs = nths xs (- set ks)"
proof (induction ks arbitrary: xs)
  case Nil
  then show ?case by (simp add: nths_all)
next
  case (Cons k ks)
  have k: "k < length xs" using Cons.prems(2) by simp
  have lt: "\<And>j. j \<in> set ks \<Longrightarrow> j < k" using Cons.prems(1) by simp
  have "fold splice1 ks (splice1 k xs) = nths (splice1 k xs) (- set ks)"
  proof (rule Cons.IH)
    show "descending ks" using Cons.prems(1) by simp
    fix j assume "j \<in> set ks"
    then show "j < length (splice1 k xs)" using lt[of j] k by (simp add: length_splice1)
  qed
  also have "\<dots> = nths xs (- insert k (set ks))" using k lt by (rule nths_splice1)
  finally show ?case by simp
qed


subsection \<open>Removing spheres\<close>

lemma at_index_nat [simp]: "at_index xs (int k) = (if k < length xs then Some (xs ! k) else None)"
  by (simp add: at_index_def)

lemma removeSphereAt_eq:
  assumes "k < length (smallSphereMeshes s)" and "k < length (smallSphereBodies s)"
  shows "removeSphereAt (int k) s =
     Returns (s\<lparr>cueBallIndex := (if int k < cueBallIndex s then cueBallIndex s - 1 else cueBallIndex s),
                children := childrenAfterRemoval k s,
                world_bodies := remove1 (body_id (smallSphereBodies s ! k)) (world_bodies s),
                smallSphereMeshes := splice1 k (smallSphereMeshes s),
                smallSphereBodies := splice1 k (smallSphereBodies s)\<rparr>)"
  using assms
  by (simp add: removeSphereAt_def Let_def scene_remove_def world_removeBody_def
      childrenAfterRemoval_def split: option.split)

lemma removeSphereAt_throws:
  "\<not> (0 \<le> k \<and> k < int (length (smallSphereMeshes s)) \<and> k < int (length (smallSphereBodies s))) \<Longrightarrow>
     removeSphereAt k s = Throws TypeError"
  by (auto simp: removeSphereAt_def at_index_def split: option.split)

lemma at_index_splice1:
  assumes "k < length xs" and "0 \<le> c" and "c < int (length xs)" and "int k \<noteq> c"
  shows "at_index (splice1 k xs) (if int k < c then c - 1 else c) = at_index xs c"
proof -
  obtain n where n: "c = int n" using assms(2) nonneg_int_cases by blast
  with assms have "n < length xs" "k \<noteq> n" by auto
  then show ?thesis
    using assms(1) unfolding n
    by (cases "k < n") (auto simp: at_index_def length_splice1 nth_splice1 nat_diff_distrib' Suc_diff_Suc)
qed


lemma cue_shift:
  assumes "descending (k # rest)"
  shows "(if int k < c then c - 1 else c)
           - int (card {j \<in> set rest. int j < (if int k < c then c - 1 else c)})
         = c - int (card {j \<in> set (k # rest). int j < c})"
proof (cases "int k < c")
  case True
  have lt: "\<And>j. j \<in> set rest \<Longrightarrow> j < k" using assms by simp
  have a: "{j \<in> set rest. int j < c - 1} = set rest" using lt True by force
  have b: "{j \<in> set (k # rest). int j < c} = insert k (set rest)" using lt True by force
  have "k \<notin> set rest" using lt by blast
  then have "card (insert k (set rest)) = Suc (card (set rest))" by simp
  with True a b show ?thesis by simp
next
  case False
  then have "{j \<in> set (k # rest). int j < c} = {j \<in> set rest. int j < c}" by auto
  with False show ?thesis by simp
qed

lemma removeMarked_descending:
  assumes "descending ks"
    and "\<And>k. k \<in> set ks \<Longrightarrow> k < length (smallSphereMeshes s)"
    and "length (smallSphereMeshes s) = length (smallSphereBodies s)"
  shows "\<exists>ch w. removeMarked ks s =
           Returns (s\<lparr>cueBallIndex := cueBallIndex s - int (card {k \<in> set ks. int k < cueBallIndex s}),
                      children := ch, world_bodies := w,
                      smallSphereMeshes := nths (smallSphereMeshes s) (- set ks),
                      smallSphereBodies := nths (smallSphereBodies s) (- set ks)\<rparr>)"
  using assms
proof (induction ks arbitrary: s)
  case Nil
  show ?case
    by (rule exI[of _ "children s"], rule exI[of _ "world_bodies s"]) (simp add: nths_all)
next
  case (Cons k ks)
  let ?s1 = "s\<lparr>cueBallIndex := (if int k < cueBallIndex s then cueBallIndex s - 1 else cueBallIndex s),
                children := childrenAfterRemoval k s,
                world_bodies := remove1 (body_id (smallSphereBodies s ! k)) (world_bodies s),
                smallSphereMeshes := splice1 k (smallSphereMeshes s),
                smallSphereBodies := splice1 k (smallSphereBodies s)\<rparr>"
  have k: "k < length (smallSphereMeshes s)" "k < length (smallSphereBodies s)"
    using Cons.prems by auto
  have lt: "\<And>j. j \<in> set ks \<Longrightarrow> j < k" using Cons.prems(1) by simp
  have step: "removeSphereAt (int k) s = Returns ?s1" using k by (rule removeSphereAt_eq)
  have "\<exists>ch w. removeMarked ks ?s1 =
           Returns (?s1\<lparr>cueBallIndex := cueBallIndex ?s1 - int (card {j \<in> set ks. int j < cueBallIndex ?s1}),
                      children := ch, world_bodies := w,
                      smallSphereMeshes := nths (smallSphereMeshes ?s1) (- set ks),
                      smallSphereBodies := nths (smallSphereBodies ?s1) (- set ks)\<rparr>)"
  proof (rule Cons.IH)
    show "descending ks" using Cons.prems(1) by simp
    show "\<And>j. j \<in> set ks \<Longrightarrow> j < length (smallSphereMeshes ?s1)"
      using lt k by (fastforce simp: length_splice1)
    show "length (smallSphereMeshes ?s1) = length (smallSphereBodies ?s1)"
      using k Cons.prems(3) by (simp add: length_splice1)
  qed
  then obtain ch w where r: "removeMarked ks ?s1 =
           Returns (?s1\<lparr>cueBallIndex := cueBallIndex ?s1 - int (card {j \<in> set ks. int j < cueBallIndex ?s1}),
                      children := ch, world_bodies := w,
                      smallSphereMeshes := nths (smallSphereMeshes ?s1) (- set ks),
                      smallSphereBodies := nths (smallSphereBodies ?s1) (- set ks)\<rparr>)"
    by blast
  have m: "nths (splice1 k (smallSphereMeshes s)) (- set ks) = nths (smallSphereMeshes s) (- set (k # ks))"
    using k(1) lt by (simp add: nths_splice1)
  have b: "nths (splice1 k (smallSphereBodies s)) (- set ks) = nths (smallSphereBodies s) (- set (k # ks))"
    using k(2) lt by (simp add: nths_splice1)
  have c: "cueBallIndex ?s1 - int (card {j \<in> set ks. int j < cueBallIndex ?s1})
           = cueBallIndex s - int (card {j \<in> set (k # ks). int j < cueBallIndex s})"
    using cue_shift[OF Cons.prems(1), of "cueBallIndex s"] by simp
  show ?case
    apply (rule exI[of _ ch], rule exI[of _ w])
    using c m b r by (simp add: step obind_def)
qed


lemma at_index_nths_descending:
  assumes "descending ks"
    and "\<And>k. k \<in> set ks \<Longrightarrow> k < length xs"
    and "0 \<le> c" and "c < int (length xs)"
    and "\<And>k. k \<in> set ks \<Longrightarrow> int k \<noteq> c"
  shows "at_index (nths xs (- set ks)) (c - int (card {k \<in> set ks. int k < c})) = at_index xs c"
  using assms
proof (induction ks arbitrary: xs c)
  case Nil
  then show ?case by (simp add: nths_all)
next
  case (Cons k ks)
  let ?c1 = "if int k < c then c - 1 else c"
  have k: "k < length xs" using Cons.prems(2) by simp
  have lt: "\<And>j. j \<in> set ks \<Longrightarrow> j < k" using Cons.prems(1) by simp
  have kc: "int k \<noteq> c" using Cons.prems(5) by simp
  have "at_index (nths (splice1 k xs) (- set ks)) (?c1 - int (card {j \<in> set ks. int j < ?c1}))
        = at_index (splice1 k xs) ?c1"
  proof (rule Cons.IH)
    show "descending ks" using Cons.prems(1) by simp
    show "\<And>j. j \<in> set ks \<Longrightarrow> j < length (splice1 k xs)"
      using lt k by (fastforce simp: length_splice1)
    show "0 \<le> ?c1" using Cons.prems(3) by auto
    show "?c1 < int (length (splice1 k xs))"
      using k kc Cons.prems(4) by (auto simp: length_splice1)
    show "int j \<noteq> ?c1" if "j \<in> set ks" for j
    proof -
      have "j < k" using lt that by simp
      moreover have "int j \<noteq> c" using Cons.prems(5) that by simp
      ultimately show ?thesis by auto
    qed
  qed
  also have "\<dots> = at_index xs c"
    using k Cons.prems(3,4) kc by (rule at_index_splice1)
  finally show ?case
    using cue_shift[OF Cons.prems(1), of c] nths_splice1[of k xs "set ks"] k lt by simp
qed

subsection \<open>The boundary scan\<close>

lemma boundaryBody_marked: "snd (boundaryBody isDriver b) = (exits b \<and> \<not> isDriver)"
  by (simp add: boundaryBody_def exits_def Let_def)

lemma boundaryStep_eq:
  "boundaryStep n (s, tr) =
     (s\<lparr>smallSphereBodies := (smallSphereBodies s)
           [n := fst (boundaryBody (int n = cueBallIndex s) (smallSphereBodies s ! n))]\<rparr>,
      if exits (smallSphereBodies s ! n) \<and> int n \<noteq> cueBallIndex s then tr @ [n] else tr)"
proof -
  obtain b' m where bm: "boundaryBody (int n = cueBallIndex s) (smallSphereBodies s ! n) = (b', m)"
    by (cases "boundaryBody (int n = cueBallIndex s) (smallSphereBodies s ! n)")
  have "m = (exits (smallSphereBodies s ! n) \<and> int n \<noteq> cueBallIndex s)"
    using boundaryBody_marked[of "int n = cueBallIndex s" "smallSphereBodies s ! n"] bm by simp
  then show ?thesis by (simp add: boundaryStep_def bm)
qed

lemma boundary_fold:
  "n \<le> length (smallSphereBodies s) \<Longrightarrow>
   fold boundaryStep [0..<n] (s, []) =
     (s\<lparr>smallSphereBodies :=
          map (\<lambda>i. if i < n then fst (boundaryBody (int i = cueBallIndex s) (smallSphereBodies s ! i))
                    else smallSphereBodies s ! i) [0..<length (smallSphereBodies s)]\<rparr>,
      filter (\<lambda>i. int i \<noteq> cueBallIndex s \<and> exits (smallSphereBodies s ! i)) [0..<n])"
proof (induction n)
  case 0
  then show ?case by (simp add: map_nth)
next
  case (Suc n)
  then have n: "n < length (smallSphereBodies s)" by simp
  let ?f = "\<lambda>m i. if i < m then fst (boundaryBody (int i = cueBallIndex s) (smallSphereBodies s ! i))
                    else smallSphereBodies s ! i"
  let ?bs = "map (?f n) [0..<length (smallSphereBodies s)]"
  let ?tr = "filter (\<lambda>i. int i \<noteq> cueBallIndex s \<and> exits (smallSphereBodies s ! i)) [0..<n]"
  have upd: "?bs[n := fst (boundaryBody (int n = cueBallIndex s) (smallSphereBodies s ! n))]
        = map (?f (Suc n)) [0..<length (smallSphereBodies s)]"
  proof (rule nth_equalityI)
    show "length (?bs[n := fst (boundaryBody (int n = cueBallIndex s) (smallSphereBodies s ! n))])
          = length (map (?f (Suc n)) [0..<length (smallSphereBodies s)])" by simp
  next
    fix i
    assume "i < length (?bs[n := fst (boundaryBody (int n = cueBallIndex s) (smallSphereBodies s ! n))])"
    then have i: "i < length (smallSphereBodies s)" by simp
    show "?bs[n := fst (boundaryBody (int n = cueBallIndex s) (smallSphereBodies s ! n))] ! i
          = map (?f (Suc n)) [0..<length (smallSphereBodies s)] ! i"
    proof (cases "i = n")
      case True
      then show ?thesis using n by simp
    next
      case False
      then have "(i < Suc n) = (i < n)" by auto
      with False i show ?thesis by simp
    qed
  qed
  have nth: "?bs ! n = smallSphereBodies s ! n" using n by simp
  have "fold boundaryStep [0..<Suc n] (s, []) = boundaryStep n (fold boundaryStep [0..<n] (s, []))"
    by simp
  also have "\<dots> = boundaryStep n (s\<lparr>smallSphereBodies := ?bs\<rparr>, ?tr)"
    using Suc.IH n by simp
  also have "\<dots> = (s\<lparr>smallSphereBodies := ?bs[n := fst (boundaryBody (int n = cueBallIndex s) (smallSphereBodies s ! n))]\<rparr>,
      if exits (smallSphereBodies s ! n) \<and> int n \<noteq> cueBallIndex s then ?tr @ [n] else ?tr)"
    unfolding boundaryStep_eq using nth by simp
  also have "\<dots> = (s\<lparr>smallSphereBodies := map (?f (Suc n)) [0..<length (smallSphereBodies s)]\<rparr>,
      filter (\<lambda>i. int i \<noteq> cueBallIndex s \<and> exits (smallSphereBodies s ! i)) [0..<Suc n])"
    unfolding upd by auto
  finally show ?case .
qed

lemma boundaryConfinement_eq:
  "boundaryConfinement s = (s\<lparr>smallSphereBodies := confinedBodies s\<rparr>, markedIndices s)"
  using boundary_fold[of "length (smallSphereBodies s)" s]
  by (simp add: boundaryConfinement_def confinedBodies_def markedIndices_def cong: map_cong)

lemma markedIndices_props:
  "sorted (markedIndices s)" "distinct (markedIndices s)"
  "\<And>k. k \<in> set (markedIndices s) \<Longrightarrow> k < length (smallSphereBodies s) \<and> int k \<noteq> cueBallIndex s
        \<and> exits (smallSphereBodies s ! k)"
  by (auto simp: markedIndices_def intro: sorted_wrt_filter)

lemma descending_rev_sorted: "sorted xs \<Longrightarrow> distinct xs \<Longrightarrow> descending (rev xs)"
proof (induction xs rule: rev_induct)
  case Nil
  then show ?case by simp
next
  case (snoc x xs)
  have "j < x" if "j \<in> set xs" for j
  proof -
    have "j \<le> x" using snoc.prems(1) that by (simp add: sorted_append)
    moreover have "j \<noteq> x" using snoc.prems(2) that by auto
    ultimately show ?thesis by simp
  qed
  moreover have "descending (rev xs)"
    using snoc by (simp add: sorted_append)
  ultimately show ?case by simp
qed

subsection \<open>The driver index under removals\<close>

lemma pickRandomIndex_unfold:
  "pickRandomIndex rnd n len c =
     (if \<lfloor>rnd n * real len\<rfloor> = c then pickRandomIndex rnd (n + 1) len c
      else Some (\<lfloor>rnd n * real len\<rfloor>, n + 1))"
  by (subst pickRandomIndex.simps) (simp add: Let_def)

lemma pickRandomIndex_result:
  assumes "pickRandomIndex rnd n len c = Some r"
  shows "\<exists>j. n \<le> j \<and> snd r = j + 1 \<and> fst r = \<lfloor>rnd j * real len\<rfloor> \<and> fst r \<noteq> c
             \<and> (\<forall>i. n \<le> i \<and> i < j \<longrightarrow> \<lfloor>rnd i * real len\<rfloor> = c)"
proof -
  let ?P = "\<lambda>rnd n len c r. \<exists>j. n \<le> j \<and> snd r = j + 1 \<and> fst r = \<lfloor>rnd j * real len\<rfloor> \<and> fst r \<noteq> c
             \<and> (\<forall>i. n \<le> i \<and> i < j \<longrightarrow> \<lfloor>rnd i * real len\<rfloor> = c)"
  have "?P rnd n len c r"
  proof (rule pickRandomIndex.raw_induct[where P = ?P, OF _ assms])
    fix f :: "random_source \<Rightarrow> nat \<Rightarrow> nat \<Rightarrow> int \<Rightarrow> (int \<times> nat) option" and rnd n len c r
    assume IH: "\<And>rnd n len c r. f rnd n len c = Some r \<Longrightarrow> ?P rnd n len c r"
    assume eq: "(let randomIndex = \<lfloor>rnd n * real len\<rfloor>
                 in if randomIndex = c then f rnd (n + 1) len c else Some (randomIndex, n + 1)) = Some r"
    show "?P rnd n len c r"
    proof (cases "\<lfloor>rnd n * real len\<rfloor> = c")
      case True
      with eq have "f rnd (n + 1) len c = Some r" by (simp add: Let_def)
      from IH[OF this] obtain j where j: "n + 1 \<le> j" "snd r = j + 1" "fst r = \<lfloor>rnd j * real len\<rfloor>"
        "fst r \<noteq> c" "\<forall>i. n + 1 \<le> i \<and> i < j \<longrightarrow> \<lfloor>rnd i * real len\<rfloor> = c"
        by (elim exE conjE)
      have "\<forall>i. n \<le> i \<and> i < j \<longrightarrow> \<lfloor>rnd i * real len\<rfloor> = c"
      proof (intro allI impI)
        fix i assume i: "n \<le> i \<and> i < j"
        show "\<lfloor>rnd i * real len\<rfloor> = c"
        proof (cases "i = n")
          case True with \<open>\<lfloor>rnd n * real len\<rfloor> = c\<close> show ?thesis by simp
        next
          case False
          with i have "n + 1 \<le> i \<and> i < j" by simp
          with j(5) show ?thesis by blast
        qed
      qed
      moreover have "n \<le> j" using j(1) by simp
      ultimately show ?thesis using j(2,3,4) by blast
    next
      case False
      with eq have "r = (\<lfloor>rnd n * real len\<rfloor>, n + 1)" by (simp add: Let_def)
      with False show ?thesis by (intro exI[of _ n]) simp
    qed
  qed
  then show ?thesis .
qed

lemma pickRandomIndex_terminates:
  "\<lfloor>rnd (n + k) * real len\<rfloor> \<noteq> c \<Longrightarrow> pickRandomIndex rnd n len c \<noteq> None"
proof (induction k arbitrary: n)
  case 0
  then show ?case by (subst pickRandomIndex_unfold) simp
next
  case (Suc k)
  have e: "n + Suc k = (n + 1) + k" by simp
  from Suc.prems have "\<lfloor>rnd ((n + 1) + k) * real len\<rfloor> \<noteq> c" unfolding e .
  then have "pickRandomIndex rnd (n + 1) len c \<noteq> None" by (rule Suc.IH)
  then show ?case by (subst pickRandomIndex_unfold) simp
qed

lemma random_index_range:
  assumes "random_ok rnd" and "0 < len"
  shows "0 \<le> \<lfloor>rnd j * real len\<rfloor>" and "\<lfloor>rnd j * real len\<rfloor> < int len"
proof -
  have r: "0 \<le> rnd j" "rnd j < 1" using assms(1) by (auto simp: random_ok_def)
  then show "0 \<le> \<lfloor>rnd j * real len\<rfloor>" by simp
  have "rnd j * real len < 1 * real len" using r assms(2) by (intro mult_strict_right_mono) auto
  then have "rnd j * real len < real_of_int (int len)" by simp
  then show "\<lfloor>rnd j * real len\<rfloor> < int len" by (simp only: floor_less_iff)
qed


lemma removeSphereAt_driver:
  assumes "driver_valid s" and "k < length (smallSphereMeshes s)" and "int k \<noteq> cueBallIndex s"
  shows "\<exists>s'. removeSphereAt (int k) s = Returns s'
           \<and> cueBallIndex s' = (if int k < cueBallIndex s then cueBallIndex s - 1 else cueBallIndex s)
           \<and> driverMesh s' = driverMesh s \<and> driverBody s' = driverBody s \<and> driver_valid s'"
proof -
  have len: "length (smallSphereMeshes s) = length (smallSphereBodies s)"
    and c: "0 \<le> cueBallIndex s" "cueBallIndex s < int (length (smallSphereMeshes s))"
    using assms(1) by (auto simp: driver_valid_def)
  have kb: "k < length (smallSphereBodies s)" using assms(2) len by simp
  have m: "at_index (splice1 k (smallSphereMeshes s))
             (if int k < cueBallIndex s then cueBallIndex s - 1 else cueBallIndex s)
           = at_index (smallSphereMeshes s) (cueBallIndex s)"
    using assms(2) c assms(3) by (rule at_index_splice1)
  have b: "at_index (splice1 k (smallSphereBodies s))
             (if int k < cueBallIndex s then cueBallIndex s - 1 else cueBallIndex s)
           = at_index (smallSphereBodies s) (cueBallIndex s)"
    using kb c(1) c(2)[unfolded len] assms(3) by (rule at_index_splice1)
  have v: "0 \<le> (if int k < cueBallIndex s then cueBallIndex s - 1 else cueBallIndex s)
         \<and> (if int k < cueBallIndex s then cueBallIndex s - 1 else cueBallIndex s)
             < int (length (splice1 k (smallSphereMeshes s)))"
    using assms(2,3) c by (auto simp: length_splice1)
  show ?thesis
    unfolding removeSphereAt_eq[OF assms(2) kb]
    using m b v len assms(2) kb
    by (simp add: driverMesh_def driverBody_def driver_valid_def length_splice1)
qed

lemma removeRandomSphere_cases:
  assumes "random_ok rnd" and "driver_valid s" and "removeRandomSphere rnd time s = Returns s'"
  shows "(length (smallSphereMeshes s) \<le> 1 \<and> s' = s) \<or>
         (\<exists>k n s1. k < length (smallSphereMeshes s) \<and> int k \<noteq> cueBallIndex s
            \<and> pickRandomIndex rnd (rng s) (length (smallSphereMeshes s)) (cueBallIndex s) = Some (int k, n)
            \<and> removeSphereAt (int k) (s\<lparr>rng := n\<rparr>) = Returns s1
            \<and> s' = s1\<lparr>lastSphereRegenerationTime := time\<rparr>)"
proof (cases "length (smallSphereMeshes s) \<le> 1")
  case True
  with assms(3) show ?thesis by (simp add: removeRandomSphere_def)
next
  case False
  have len: "length (smallSphereMeshes s) = length (smallSphereBodies s)"
    using assms(2) by (simp add: driver_valid_def)
  with False have F2: "\<not> length (smallSphereBodies s) \<le> 1" by simp
  from assms(3) False F2 obtain i n where
    p: "pickRandomIndex rnd (rng s) (length (smallSphereMeshes s)) (cueBallIndex s) = Some (i, n)"
    by (auto simp: removeRandomSphere_def split: option.splits)
  from pickRandomIndex_result[OF p] obtain j where
    j: "i = \<lfloor>rnd j * real (length (smallSphereMeshes s))\<rfloor>" "i \<noteq> cueBallIndex s" by auto
  have pos: "0 < length (smallSphereMeshes s)" using False by linarith
  have "0 \<le> i" "i < int (length (smallSphereMeshes s))"
    unfolding j(1) using random_index_range[OF assms(1) pos] by auto
  then obtain k where k: "i = int k" "k < length (smallSphereMeshes s)"
    by (metis nonneg_int_cases of_nat_less_iff)
  from assms(3) False F2 p obtain s1 where
    s1: "removeSphereAt i (s\<lparr>rng := n\<rparr>) = Returns s1" "s' = s1\<lparr>lastSphereRegenerationTime := time\<rparr>"
    by (auto simp: removeRandomSphere_def obind_def split: outcome.splits)
  show ?thesis
    using k j(2) p s1 by (intro disjI2) auto
qed

lemma boundaryBody_id: "body_id (fst (boundaryBody d b)) = body_id b"
  by (simp add: boundaryBody_def Let_def applyForce_def)

lemma length_confinedBodies [simp]: "length (confinedBodies s) = length (smallSphereBodies s)"
  by (simp add: confinedBodies_def)

lemma map_body_id_confinedBodies: "map body_id (confinedBodies s) = map body_id (smallSphereBodies s)"
  by (rule nth_equalityI) (simp_all add: confinedBodies_def boundaryBody_id)


lemma at_index_Some_iff: "(at_index xs c \<noteq> None) = (0 \<le> c \<and> c < int (length xs))"
  by (simp add: at_index_def)

lemma boundary_pass:
  assumes "driver_valid s"
  shows "\<exists>ch w. removalCompaction (snd (boundaryConfinement s)) (fst (boundaryConfinement s)) =
           Returns (s\<lparr>cueBallIndex := cueBallIndex s
                          - int (card {k \<in> set (markedIndices s). int k < cueBallIndex s}),
                      children := ch, world_bodies := w,
                      smallSphereMeshes := nths (smallSphereMeshes s) (- set (markedIndices s)),
                      smallSphereBodies := nths (confinedBodies s) (- set (markedIndices s))\<rparr>)"
proof -
  let ?s1 = "s\<lparr>smallSphereBodies := confinedBodies s\<rparr>"
  let ?ks = "rev (markedIndices s)"
  have len: "length (smallSphereMeshes s) = length (smallSphereBodies s)"
    using assms by (simp add: driver_valid_def)
  have d: "descending ?ks"
    using markedIndices_props(1,2) by (rule descending_rev_sorted)
  have r: "\<And>k. k \<in> set ?ks \<Longrightarrow> k < length (smallSphereMeshes ?s1)"
    using markedIndices_props(3)[of _ s] len by simp
  have l1: "length (smallSphereMeshes ?s1) = length (smallSphereBodies ?s1)"
    using len by simp
  from removeMarked_descending[OF d r l1]
  show ?thesis
    by (simp add: boundaryConfinement_eq removalCompaction_def)
qed

lemma boundary_pass_driver:
  assumes "driver_valid s"
    and "removalCompaction (snd (boundaryConfinement s)) (fst (boundaryConfinement s)) = Returns s'"
  shows "driverMesh s' = driverMesh s \<and> driverBody s' = driverBody s \<and> driver_valid s'"
proof -
  let ?K = "set (markedIndices s)"
  let ?c = "cueBallIndex s"
  let ?c' = "?c - int (card {k \<in> ?K. int k < ?c})"
  have len: "length (smallSphereMeshes s) = length (smallSphereBodies s)"
    and c: "0 \<le> ?c" "?c < int (length (smallSphereMeshes s))"
    using assms(1) by (auto simp: driver_valid_def)
  from boundary_pass[OF assms(1)] assms(2) obtain ch w where
    s': "s' = s\<lparr>cueBallIndex := ?c', children := ch, world_bodies := w,
                 smallSphereMeshes := nths (smallSphereMeshes s) (- ?K),
                 smallSphereBodies := nths (confinedBodies s) (- ?K)\<rparr>"
    by auto
  have d: "descending (rev (markedIndices s))"
    using markedIndices_props(1,2) by (rule descending_rev_sorted)
  have m: "at_index (nths (smallSphereMeshes s) (- set (rev (markedIndices s))))
             (?c - int (card {k \<in> set (rev (markedIndices s)). int k < ?c}))
           = at_index (smallSphereMeshes s) ?c"
    using d markedIndices_props(3)[of _ s] len c by (intro at_index_nths_descending) auto
  have b: "at_index (nths (confinedBodies s) (- set (rev (markedIndices s))))
             (?c - int (card {k \<in> set (rev (markedIndices s)). int k < ?c}))
           = at_index (confinedBodies s) ?c"
    using d markedIndices_props(3)[of _ s] len c by (intro at_index_nths_descending) auto
  have ids: "map_option body_id (at_index (confinedBodies s) ?c)
             = map_option body_id (at_index (smallSphereBodies s) ?c)"
  proof -
    have "nat ?c < length (smallSphereBodies s)" using c len by simp
    then have "body_id (confinedBodies s ! nat ?c) = body_id (smallSphereBodies s ! nat ?c)"
      by (simp add: confinedBodies_def boundaryBody_id)
    then show ?thesis by (simp add: at_index_def)
  qed
  have lens: "length (nths (smallSphereMeshes s) (- ?K)) = length (nths (confinedBodies s) (- ?K))"
    using len by (simp add: length_nths)
  have "at_index (nths (smallSphereMeshes s) (- ?K)) ?c' \<noteq> None"
    using m c by (simp add: at_index_def)
  then have v: "0 \<le> ?c' \<and> ?c' < int (length (nths (smallSphereMeshes s) (- ?K)))"
    by (simp only: at_index_Some_iff)
  show ?thesis
    unfolding s' using m b ids lens v
    by (simp add: driverMesh_def driverBody_def driver_valid_def)
qed


text \<open>
  Claim C3.  In a state whose driver index lies inside the registry: removing the sphere
  at any other index \<open>k\<close> (the code shared by the regenerator and the boundary pass)
  decrements the driver index exactly when \<open>k\<close> is less than it, and the index then
  points at the same mesh and the same body as before; so it does after
  \<^verbatim>\<open>removeRandomSphere\<close>, and after a whole boundary pass, where the marked indices are
  removed in descending order and the index has dropped by the number of marked indices
  below it.
\<close>

theorem driver_index_tracks_driver:
  assumes "driver_valid s"
  shows "(\<forall>k. k < length (smallSphereMeshes s) \<and> int k \<noteq> cueBallIndex s \<longrightarrow>
            (\<exists>s'. removeSphereAt (int k) s = Returns s'
               \<and> cueBallIndex s' = (if int k < cueBallIndex s then cueBallIndex s - 1 else cueBallIndex s)
               \<and> driverMesh s' = driverMesh s \<and> driverBody s' = driverBody s \<and> driver_valid s'))
       \<and> (\<forall>rnd time s'. random_ok rnd \<and> removeRandomSphere rnd time s = Returns s' \<longrightarrow>
            driverMesh s' = driverMesh s \<and> driverBody s' = driverBody s \<and> driver_valid s')
       \<and> (\<exists>s'. removalCompaction (snd (boundaryConfinement s)) (fst (boundaryConfinement s)) = Returns s'
               \<and> cueBallIndex s' = cueBallIndex s
                    - int (card {k \<in> set (markedIndices s). int k < cueBallIndex s})
               \<and> driverMesh s' = driverMesh s \<and> driverBody s' = driverBody s \<and> driver_valid s')
       \<and> driverMesh s \<noteq> None \<and> driverBody s \<noteq> None"
proof (intro conjI allI impI)
  fix k assume "k < length (smallSphereMeshes s) \<and> int k \<noteq> cueBallIndex s"
  then show "\<exists>s'. removeSphereAt (int k) s = Returns s'
               \<and> cueBallIndex s' = (if int k < cueBallIndex s then cueBallIndex s - 1 else cueBallIndex s)
               \<and> driverMesh s' = driverMesh s \<and> driverBody s' = driverBody s \<and> driver_valid s'"
    using removeSphereAt_driver[OF assms] by blast
next
  fix rnd time s'
  assume a: "random_ok rnd \<and> removeRandomSphere rnd time s = Returns s'"
  from removeRandomSphere_cases[OF _ assms, of rnd time s'] a
  consider "s' = s"
    | k n s1 where "k < length (smallSphereMeshes s)" "int k \<noteq> cueBallIndex s"
        "removeSphereAt (int k) (s\<lparr>rng := n\<rparr>) = Returns s1"
        "s' = s1\<lparr>lastSphereRegenerationTime := time\<rparr>"
    by blast
  then have "driverMesh s' = driverMesh s \<and> driverBody s' = driverBody s \<and> driver_valid s'"
  proof cases
    case 1
    then show ?thesis using assms by simp
  next
    case 2
    have dv: "driver_valid (s\<lparr>rng := n\<rparr>)" using assms by (simp add: driver_valid_def)
    from removeSphereAt_driver[OF dv, of k] 2(1,2,3)
    have "driverMesh s1 = driverMesh (s\<lparr>rng := n\<rparr>) \<and> driverBody s1 = driverBody (s\<lparr>rng := n\<rparr>)
          \<and> driver_valid s1" by auto
    then show ?thesis
      unfolding 2(4) by (simp add: driverMesh_def driverBody_def driver_valid_def)
  qed
  then show "driverMesh s' = driverMesh s" "driverBody s' = driverBody s" "driver_valid s'"
    by simp_all
next
  from boundary_pass[OF assms] obtain ch w where
    r: "removalCompaction (snd (boundaryConfinement s)) (fst (boundaryConfinement s)) =
           Returns (s\<lparr>cueBallIndex := cueBallIndex s
                          - int (card {k \<in> set (markedIndices s). int k < cueBallIndex s}),
                      children := ch, world_bodies := w,
                      smallSphereMeshes := nths (smallSphereMeshes s) (- set (markedIndices s)),
                      smallSphereBodies := nths (confinedBodies s) (- set (markedIndices s))\<rparr>)"
    by blast
  from boundary_pass_driver[OF assms r] r
  show "\<exists>s'. removalCompaction (snd (boundaryConfinement s)) (fst (boundaryConfinement s)) = Returns s'
               \<and> cueBallIndex s' = cueBallIndex s
                    - int (card {k \<in> set (markedIndices s). int k < cueBallIndex s})
               \<and> driverMesh s' = driverMesh s \<and> driverBody s' = driverBody s \<and> driver_valid s'"
    by simp
next
  show "driverMesh s \<noteq> None" "driverBody s \<noteq> None"
    using assms by (simp_all add: driverMesh_def driverBody_def driver_valid_def at_index_def)
qed

theorem driver_index_tracks_driver_witness:
  "driver_valid exampleState \<and>
   (\<exists>s'. removeSphereAt 0 exampleState = Returns s' \<and> cueBallIndex s' = 0
         \<and> driverMesh s' = Some 7 \<and> driverBody s' = Some 1)"
proof -
  have dv: "driver_valid exampleState" by (simp add: driver_valid_def exampleState_def)
  have dm: "driverMesh exampleState = Some 7" "driverBody exampleState = Some 1"
    by (simp_all add: driverMesh_def driverBody_def at_index_def exampleState_def exampleBody_def)
  have k: "0 < length (smallSphereMeshes exampleState) \<and> int 0 \<noteq> cueBallIndex exampleState"
    by (simp add: exampleState_def)
  have c: "cueBallIndex exampleState = 1" by (simp add: exampleState_def)
  from driver_index_tracks_driver[OF dv, THEN conjunct1, rule_format, OF k]
  obtain s' where "removeSphereAt (int 0) exampleState = Returns s'"
    "cueBallIndex s' = (if int 0 < cueBallIndex exampleState then cueBallIndex exampleState - 1
                        else cueBallIndex exampleState)"
    "driverMesh s' = driverMesh exampleState" "driverBody s' = driverBody exampleState"
    by blast
  then have "removeSphereAt 0 exampleState = Returns s' \<and> cueBallIndex s' = 0
         \<and> driverMesh s' = Some 7 \<and> driverBody s' = Some 1"
    using dm c by simp
  then show ?thesis using dv by blast
qed

subsection \<open>Liveness enforcement\<close>

lemma livenessBody_driver: "int index = cueBallIndex s \<Longrightarrow> livenessBody rnd dt index s = Returns s"
  by (simp add: livenessBody_def)

lemma livenessBody_eq:
  assumes "int index \<noteq> cueBallIndex s"
    and "index < length (lastVelocities s)" and "index < length (stationaryTimes s)"
    and "index < length (smallSphereBodies s)"
  shows "livenessBody rnd dt index s =
     Returns
       (let b = smallSphereBodies s ! index;
            t = stationaryTimes s ! index + dt
        in if stationary b (lastVelocities s ! index) then
             (if t > 2000 then
                s\<lparr>smallSphereBodies := (smallSphereBodies s)
                      [index := applyImpulse (revivalImpulse rnd (rng s) b) (position b) b],
                  rng := rng s + 4,
                  stationaryTimes := (stationaryTimes s)[index := 0],
                  lastVelocities := (lastVelocities s)
                      [index := velocity (applyImpulse (revivalImpulse rnd (rng s) b) (position b) b)]\<rparr>
              else s\<lparr>stationaryTimes := (stationaryTimes s)[index := t],
                     lastVelocities := (lastVelocities s)[index := velocity b]\<rparr>)
           else s\<lparr>stationaryTimes := (stationaryTimes s)[index := 0],
                  lastVelocities := (lastVelocities s)[index := velocity b]\<rparr>)"
proof -
  consider (revive) "stationary (smallSphereBodies s ! index) (lastVelocities s ! index)"
      "stationaryTimes s ! index + dt > 2000"
    | (wait) "stationary (smallSphereBodies s ! index) (lastVelocities s ! index)"
      "\<not> stationaryTimes s ! index + dt > 2000"
    | (moving) "\<not> stationary (smallSphereBodies s ! index) (lastVelocities s ! index)"
    by blast
  then show ?thesis
  proof cases
    case revive
    then show ?thesis
      using assms unfolding livenessBody_def stationary_def by (simp add: Let_def)
  next
    case wait
    then show ?thesis
      using assms unfolding livenessBody_def stationary_def by (simp add: Let_def)
  next
    case moving
    then show ?thesis
      using assms unfolding livenessBody_def stationary_def by (auto simp: Let_def)
  qed
qed

lemma normalize_unit: "vlength v > 0 \<Longrightarrow> vlength (normalize_vec v) = 1"
proof -
  assume p: "vlength v > 0"
  have "normalize_vec v = vscale (1 / vlength v) v" using p by (simp add: normalize_vec_def vscale_def Let_def)
  then show ?thesis using p by (simp add: vlength_vscale)
qed

lemma normalize_zero: "\<not> vlength v > 0 \<Longrightarrow> normalize_vec v = Vec3 0 0 0"
  by (simp add: normalize_vec_def Let_def)

lemma vlength_zero_iff: "(vlength v = 0) = (v = Vec3 0 0 0)"
proof
  assume "vlength v = 0"
  then have "vx v * vx v + vy v * vy v + vz v * vz v = 0" by (simp add: vlength_def)
  then have "vx v = 0 \<and> vy v = 0 \<and> vz v = 0"
    by (smt (verit) zero_le_square mult_eq_0_iff)
  then show "v = Vec3 0 0 0" by (cases v) simp
next
  assume "v = Vec3 0 0 0" then show "vlength v = 0" by (simp add: vlength_def)
qed

lemma vlength_pos_iff: "(vlength v > 0) = (v \<noteq> Vec3 0 0 0)"
  using vlength_zero_iff[of v] vlength_nonneg[of v] by auto

text \<open>The triangle inequality, in the form the blend of two directions needs.\<close>

lemma vlength_blend_lower:
  assumes "vlength a = 1" and "vlength c = 1 \<or> c = Vec3 0 0 0"
  shows "vlength (Vec3 (vx a * 0.8 + vx c * 0.2) (vy a * 0.8 + vy c * 0.2) (vz a * 0.8 + vz c * 0.2)) \<ge> 0.6"
proof -
  define A where "A = vx a * vx a + vy a * vy a + vz a * vz a"
  define C where "C = vx c * vx c + vy c * vy c + vz c * vz c"
  define D where "D = vx a * vx c + vy a * vy c + vz a * vz c"
  define L where "L = (vx a * 0.8 + vx c * 0.2) * (vx a * 0.8 + vx c * 0.2)
        + (vy a * 0.8 + vy c * 0.2) * (vy a * 0.8 + vy c * 0.2)
        + (vz a * 0.8 + vz c * 0.2) * (vz a * 0.8 + vz c * 0.2)"
  have aa: "A = 1" using assms(1) by (simp add: vlength_def A_def)
  have "0 \<le> (vx a + vx c)\<^sup>2 + (vy a + vy c)\<^sup>2 + (vz a + vz c)\<^sup>2" by simp
  also have "\<dots> = A + C + 2 * D" by (simp add: power2_eq_square algebra_simps A_def C_def D_def)
  finally have d: "2 * D \<ge> - A - C" by linarith
  have L: "L = 16 / 25 * A + 1 / 25 * C + 8 / 25 * D"
    by (simp add: L_def A_def C_def D_def field_simps)
  have "L \<ge> 9 / 25"
  proof (cases "c = Vec3 0 0 0")
    case True
    then have "C = 0" "D = 0" by (simp_all add: C_def D_def)
    with L aa show ?thesis by simp
  next
    case False
    with assms(2) have "vlength c = 1" by simp
    then have "C = 1" by (simp add: vlength_def C_def)
    with L aa d show ?thesis by linarith
  qed
  then have "(3 / 5 :: real)\<^sup>2 \<le> L" by (simp add: power2_eq_square)
  then have "3 / 5 \<le> sqrt L" by (rule real_le_rsqrt)
  then show ?thesis by (simp add: vlength_def L_def)
qed

lemma normalize_cases: "vlength (normalize_vec v) = 1 \<or> normalize_vec v = Vec3 0 0 0"
  using normalize_unit[of v] normalize_zero[of v] by blast

text \<open>The blend when the direction toward the centre is the zero vector.\<close>

lemma vlength_blend_centre:
  assumes "vlength c = 1"
  shows "vlength (Vec3 (0 * 0.8 + vx c * 0.2) (0 * 0.8 + vy c * 0.2) (0 * 0.8 + vz c * 0.2)) = 0.2"
proof -
  have "Vec3 (0 * 0.8 + vx c * 0.2) (0 * 0.8 + vy c * 0.2) (0 * 0.8 + vz c * 0.2) = vscale 0.2 c"
    by (simp add: vscale_def mult.commute)
  then show ?thesis using assms by (simp add: vlength_vscale)
qed

text \<open>
  The revival impulse has the strength drawn for it, between 8 and 14, unless the body is
  exactly at the centre and the random vector is exactly zero; then it is the zero vector.
\<close>

lemma revivalImpulse_strength:
  assumes "position b \<noteq> Vec3 0 0 0 \<or> revivalRandom rnd n \<noteq> Vec3 0 0 0"
    and "0 \<le> rnd (n + 3)" and "rnd (n + 3) < 1"
  shows "vlength (revivalImpulse rnd n b) = 8 + rnd (n + 3) * 6"
    and "8 \<le> vlength (revivalImpulse rnd n b)" and "vlength (revivalImpulse rnd n b) < 14"
proof -
  let ?tc = "normalize_vec (Vec3 (- vx (position b)) (- vy (position b)) (- vz (position b)))"
  let ?rd = "normalize_vec (Vec3 ((rnd n - 0.5) * 2) ((rnd (n + 1) - 0.5) * 2) ((rnd (n + 2) - 0.5) * 2))"
  let ?blend = "Vec3 (vx ?tc * 0.8 + vx ?rd * 0.2) (vy ?tc * 0.8 + vy ?rd * 0.2) (vz ?tc * 0.8 + vz ?rd * 0.2)"
  have "vlength ?blend > 0"
  proof (cases "position b = Vec3 0 0 0")
    case False
    then have "Vec3 (- vx (position b)) (- vy (position b)) (- vz (position b)) \<noteq> Vec3 0 0 0"
      by (cases "position b") simp
    then have "vlength (Vec3 (- vx (position b)) (- vy (position b)) (- vz (position b))) > 0"
      using vlength_pos_iff by blast
    then have tc: "vlength ?tc = 1" by (rule normalize_unit)
    have "vlength ?blend \<ge> 0.6" using tc normalize_cases by (rule vlength_blend_lower)
    then show ?thesis by simp
  next
    case True
    then have tc: "?tc = Vec3 0 0 0" by (simp add: normalize_vec_def vlength_def)
    from True assms(1) have "revivalRandom rnd n \<noteq> Vec3 0 0 0" by simp
    then have "vlength (revivalRandom rnd n) > 0" using vlength_pos_iff by blast
    then have "vlength ?rd = 1" unfolding revivalRandom_def by (rule normalize_unit)
    then have "vlength (Vec3 (0 * 0.8 + vx ?rd * 0.2) (0 * 0.8 + vy ?rd * 0.2) (0 * 0.8 + vz ?rd * 0.2)) = 0.2"
      by (rule vlength_blend_centre)
    then show ?thesis unfolding tc by simp
  qed
  then have fd: "vlength (normalize_vec ?blend) = 1" by (rule normalize_unit)
  have "revivalImpulse rnd n b = vscale (8 + rnd (n + 3) * 6) (normalize_vec ?blend)"
    by (simp add: revivalImpulse_def Let_def vscale_def)
  then show e: "vlength (revivalImpulse rnd n b) = 8 + rnd (n + 3) * 6"
    using fd assms(2) by (simp add: vlength_vscale)
  show "8 \<le> vlength (revivalImpulse rnd n b)" "vlength (revivalImpulse rnd n b) < 14"
    unfolding e using assms(2,3) by simp_all
qed

lemma revivalImpulse_zero:
  assumes "position b = Vec3 0 0 0" and "revivalRandom rnd n = Vec3 0 0 0"
  shows "revivalImpulse rnd n b = Vec3 0 0 0"
  using assms by (simp add: revivalImpulse_def revivalRandom_def Let_def normalize_vec_def)


lemma forEachIndex_snoc:
  "forEachIndex f (xs @ [x]) s = obind (forEachIndex f xs s) (f x)"
proof (induction xs arbitrary: s)
  case Nil
  then show ?case by (simp add: obind_def split: outcome.split)
next
  case (Cons a xs)
  then show ?case by (simp add: obind_def split: outcome.split)
qed

lemma map_upt_update:
  assumes "n < m"
    and "\<And>i. i < m \<Longrightarrow> i \<noteq> n \<Longrightarrow> g i = f i"
    and "g n = v"
  shows "(map f [0..<m])[n := v] = map g [0..<m]"
proof (rule nth_equalityI)
  show "length ((map f [0..<m])[n := v]) = length (map g [0..<m])" by simp
next
  fix i assume "i < length ((map f [0..<m])[n := v])"
  then have i: "i < m" by simp
  show "(map f [0..<m])[n := v] ! i = map g [0..<m] ! i"
  proof (cases "i = n")
    case True
    then show ?thesis using assms(1,3) by simp
  next
    case False
    then show ?thesis using i assms(2) by simp
  qed
qed

lemma rngAt_Suc: "rngAt dt s (Suc n) = rngAt dt s n + (if revivedAt dt s n then 4 else 0)"
  by (simp add: rngAt_def)

lemma liveness_loop:
  assumes "n \<le> length (smallSphereBodies s)"
    and "length (smallSphereBodies s) \<le> length (lastVelocities s)"
    and "length (smallSphereBodies s) \<le> length (stationaryTimes s)"
  shows "forEachIndex (livenessBody rnd dt) [0..<n] s =
     Returns (s\<lparr>smallSphereBodies := livenessBodies rnd dt s n, rng := rngAt dt s n,
                stationaryTimes := livenessTimes dt s n,
                lastVelocities := livenessVelocities rnd dt s n\<rparr>)"
  using assms(1)
proof (induction n)
  case 0
  show ?case
    by (simp add: livenessBodies_def livenessTimes_def livenessVelocities_def rngAt_def map_nth)
next
  case (Suc n)
  let ?sn = "s\<lparr>smallSphereBodies := livenessBodies rnd dt s n, rng := rngAt dt s n,
                stationaryTimes := livenessTimes dt s n,
                lastVelocities := livenessVelocities rnd dt s n\<rparr>"
  have n: "n < length (smallSphereBodies s)" using Suc.prems by simp
  have nl: "n < length (lastVelocities s)" "n < length (stationaryTimes s)"
    using n assms(2,3) by simp_all
  have IH: "forEachIndex (livenessBody rnd dt) [0..<n] s = Returns ?sn"
    using Suc.IH n by simp
  have bn: "smallSphereBodies ?sn ! n = smallSphereBodies s ! n"
    using n by (simp add: livenessBodies_def)
  have tn: "stationaryTimes ?sn ! n = stationaryTimes s ! n"
    using nl by (simp add: livenessTimes_def)
  have vn: "lastVelocities ?sn ! n = lastVelocities s ! n"
    using nl by (simp add: livenessVelocities_def)
  have step: "livenessBody rnd dt n ?sn =
     Returns (s\<lparr>smallSphereBodies := livenessBodies rnd dt s (Suc n), rng := rngAt dt s (Suc n),
                stationaryTimes := livenessTimes dt s (Suc n),
                lastVelocities := livenessVelocities rnd dt s (Suc n)\<rparr>)"
  proof (cases "int n = cueBallIndex s")
    case True
    have b: "livenessBodies rnd dt s (Suc n) = livenessBodies rnd dt s n"
      using True by (auto simp: livenessBodies_def revivedAt_def less_Suc_eq Let_def)
    have t: "livenessTimes dt s (Suc n) = livenessTimes dt s n"
      using True by (auto simp: livenessTimes_def less_Suc_eq)
    have v: "livenessVelocities rnd dt s (Suc n) = livenessVelocities rnd dt s n"
      using True by (auto simp: livenessVelocities_def less_Suc_eq)
    have r: "rngAt dt s (Suc n) = rngAt dt s n"
      using True by (simp add: rngAt_Suc revivedAt_def)
    show ?thesis unfolding b t v r using True by (simp add: livenessBody_driver)
  next
    case False
    let ?b = "smallSphereBodies s ! n"
    have b: "(livenessBodies rnd dt s n)
               [n := if revivedAt dt s n
                     then applyImpulse (revivalImpulse rnd (rngAt dt s n) ?b) (position ?b) ?b else ?b]
             = livenessBodies rnd dt s (Suc n)"
      unfolding livenessBodies_def using n
      by (intro map_upt_update) (auto simp: Let_def less_Suc_eq)
    have t: "(livenessTimes dt s n)
               [n := if stationary ?b (lastVelocities s ! n)
                     then (if stationaryTimes s ! n + dt > 2000 then 0 else stationaryTimes s ! n + dt)
                     else 0]
             = livenessTimes dt s (Suc n)"
      unfolding livenessTimes_def using nl False
      by (intro map_upt_update) (auto simp: less_Suc_eq)
    have v: "(livenessVelocities rnd dt s n)[n := velocity (revivedBody rnd dt s n)]
               = livenessVelocities rnd dt s (Suc n)"
      unfolding livenessVelocities_def using nl False
      by (intro map_upt_update) (auto simp: less_Suc_eq)
    have rb: "revivedBody rnd dt s n =
               (if revivedAt dt s n
                then applyImpulse (revivalImpulse rnd (rngAt dt s n) ?b) (position ?b) ?b else ?b)"
      by (simp add: revivedBody_def Let_def)
    have v1: "(livenessVelocities rnd dt s n)
                [n := velocity (applyImpulse (revivalImpulse rnd (rngAt dt s n) ?b) (position ?b) ?b)]
              = livenessVelocities rnd dt s (Suc n)" if "revivedAt dt s n"
      using v rb that by simp
    have v2: "(livenessVelocities rnd dt s n)[n := velocity ?b] = livenessVelocities rnd dt s (Suc n)"
      if "\<not> revivedAt dt s n"
      using v rb that by simp
    have ln: "n < length (lastVelocities ?sn)" "n < length (stationaryTimes ?sn)"
      "n < length (smallSphereBodies ?sn)"
      using nl n by (simp_all add: livenessTimes_def livenessVelocities_def livenessBodies_def)
    have c: "int n \<noteq> cueBallIndex ?sn" using False by simp
    have same: "livenessBodies rnd dt s n = livenessBodies rnd dt s (Suc n)"
      if "\<not> revivedAt dt s n"
      using that by (auto simp: livenessBodies_def Let_def less_Suc_eq)
    have rv: "revivedAt dt s n =
        (stationary ?b (lastVelocities s ! n) \<and> stationaryTimes s ! n + dt > 2000)"
      using False by (simp add: revivedAt_def)
    show ?thesis
    proof (cases "revivedAt dt s n")
      case True
      then have "stationary ?b (lastVelocities s ! n)" "stationaryTimes s ! n + dt > 2000"
        using rv by simp_all
      then show ?thesis
        unfolding livenessBody_eq[OF c ln] bn tn vn
        using b t v1[OF True] True
        by (simp add: Let_def rngAt_Suc)
    next
      case F: False
      show ?thesis
      proof (cases "stationary ?b (lastVelocities s ! n)")
        case True
        then have "\<not> stationaryTimes s ! n + dt > 2000" using rv F by simp
        then show ?thesis
          unfolding livenessBody_eq[OF c ln] bn tn vn
          using t v2[OF F] same[OF F] True F
          by (simp add: Let_def rngAt_Suc)
      next
        case False
        then show ?thesis
          unfolding livenessBody_eq[OF c ln] bn tn vn
          using t v2[OF F] same[OF F] F
          by (simp add: Let_def rngAt_Suc)
      qed
    qed
  qed
  have "forEachIndex (livenessBody rnd dt) [0..<Suc n] s
        = obind (forEachIndex (livenessBody rnd dt) [0..<n] s) (livenessBody rnd dt n)"
    by (simp add: forEachIndex_snoc)
  also have "\<dots> = livenessBody rnd dt n ?sn" unfolding IH by (simp add: obind_def)
  finally show ?case using step by simp
qed


lemma livenessEnforcement_eq:
  assumes "length (smallSphereBodies s) \<le> length (lastVelocities s)"
    and "length (smallSphereBodies s) \<le> length (stationaryTimes s)"
  shows "livenessEnforcement rnd dt s =
     Returns (s\<lparr>smallSphereBodies := livenessBodies rnd dt s (length (smallSphereBodies s)),
                rng := rngAt dt s (length (smallSphereBodies s)),
                stationaryTimes := livenessTimes dt s (length (smallSphereBodies s)),
                lastVelocities := livenessVelocities rnd dt s (length (smallSphereBodies s))\<rparr>)"
  unfolding livenessEnforcement_def using assms by (intro liveness_loop) simp_all

lemma revivalImpulse_direction:
  "revivalImpulse rnd n b =
     vscale (8 + rnd (n + 3) * 6)
       (normalize_vec (vadd (vscale 0.8 (normalize_vec (vneg (position b))))
                        (vscale 0.2 (normalize_vec (Vec3 ((rnd n - 0.5) * 2) ((rnd (n + 1) - 0.5) * 2)
                                                    ((rnd (n + 2) - 0.5) * 2))))))"
  by (simp add: revivalImpulse_def Let_def vscale_def vadd_def vneg_def)

lemma normalize_vneg_unit: "v \<noteq> Vec3 0 0 0 \<Longrightarrow> vlength (normalize_vec (vneg v)) = 1"
proof -
  assume "v \<noteq> Vec3 0 0 0"
  then have "vlength v > 0" using vlength_pos_iff by blast
  then have "vlength (vneg v) > 0" by (simp add: vlength_vneg)
  then show ?thesis by (rule normalize_unit)
qed

text \<open>
  The liveness pass at one position.  In a frame of elapsed time \<open>dt\<close>, for the non-driver
  body at position \<open>i\<close>: when the body is stationary (speed below 0.3 and speed change
  from the sample below 0.05) its timer grows by \<open>dt\<close>, and is zero otherwise; when the
  grown timer exceeds 2000 it is reset to zero in the same pass and the body receives one
  impulse, at its own position: the blend
  \<open>normalize_vec (0.8 \<times> normalize_vec (- position) + 0.2 \<times> normalize_vec random)\<close> scaled by a
  strength \<open>8 + 6 \<times> random\<close>.  The impulse has magnitude in \<open>[8, 14)\<close> unless the body is
  exactly at the centre and the random vector is exactly zero, where the impulse is the
  zero vector.  The sample kept for the next frame is the velocity the body has after the
  callback.  The two hypotheses on the lengths follow from the invariant of the registry.
\<close>

lemma liveness_pass_at:
  assumes "length (smallSphereBodies s) \<le> length (lastVelocities s)"
    and "length (smallSphereBodies s) \<le> length (stationaryTimes s)"
    and "random_ok rnd"
    and "i < length (smallSphereBodies s)" and "int i \<noteq> cueBallIndex s"
  shows "\<exists>s'. livenessEnforcement rnd dt s = Returns s' \<and>
     (let b = smallSphereBodies s ! i; t = stationaryTimes s ! i + dt
      in lastVelocities s' ! i = velocity (smallSphereBodies s' ! i) \<and>
         (if stationary b (lastVelocities s ! i) then
            (if t > 2000 then
               stationaryTimes s' ! i = 0 \<and>
               (\<exists>n. smallSphereBodies s' ! i = applyImpulse (revivalImpulse rnd n b) (position b) b
                  \<and> revivalImpulse rnd n b =
                      vscale (8 + rnd (n + 3) * 6)
                        (normalize_vec (vadd (vscale 0.8 (normalize_vec (vneg (position b))))
                           (vscale 0.2 (normalize_vec (revivalRandom rnd n)))))
                  \<and> (position b \<noteq> Vec3 0 0 0 \<longrightarrow> vlength (normalize_vec (vneg (position b))) = 1)
                  \<and> (position b \<noteq> Vec3 0 0 0 \<or> revivalRandom rnd n \<noteq> Vec3 0 0 0 \<longrightarrow>
                        8 \<le> vlength (revivalImpulse rnd n b)
                        \<and> vlength (revivalImpulse rnd n b) < 14)
                  \<and> (position b = Vec3 0 0 0 \<and> revivalRandom rnd n = Vec3 0 0 0 \<longrightarrow>
                        revivalImpulse rnd n b = Vec3 0 0 0))
             else stationaryTimes s' ! i = t \<and> smallSphereBodies s' ! i = b)
          else stationaryTimes s' ! i = 0 \<and> smallSphereBodies s' ! i = b))"
proof -
  let ?n = "length (smallSphereBodies s)"
  let ?b = "smallSphereBodies s ! i"
  let ?s' = "s\<lparr>smallSphereBodies := livenessBodies rnd dt s ?n, rng := rngAt dt s ?n,
                stationaryTimes := livenessTimes dt s ?n,
                lastVelocities := livenessVelocities rnd dt s ?n\<rparr>"
  have il: "i < length (lastVelocities s)" "i < length (stationaryTimes s)"
    using assms(1,2,4) by simp_all
  have r: "0 \<le> rnd (rngAt dt s i + 3)" "rnd (rngAt dt s i + 3) < 1"
    using assms(3) by (simp_all add: random_ok_def)
  have b: "smallSphereBodies ?s' ! i =
      (if revivedAt dt s i then applyImpulse (revivalImpulse rnd (rngAt dt s i) ?b) (position ?b) ?b
       else ?b)"
    using assms(4) by (simp add: livenessBodies_def Let_def)
  have v: "lastVelocities ?s' ! i = velocity (smallSphereBodies ?s' ! i)"
    unfolding b using il assms(4,5) by (simp add: livenessVelocities_def revivedBody_def Let_def)
  have t: "stationaryTimes ?s' ! i =
      (if stationary ?b (lastVelocities s ! i)
       then (if stationaryTimes s ! i + dt > 2000 then 0 else stationaryTimes s ! i + dt) else 0)"
    using il assms(4,5) by (simp add: livenessTimes_def)
  have m: "(position ?b \<noteq> Vec3 0 0 0 \<longrightarrow> vlength (normalize_vec (vneg (position ?b))) = 1)
         \<and> (position ?b \<noteq> Vec3 0 0 0 \<or> revivalRandom rnd (rngAt dt s i) \<noteq> Vec3 0 0 0 \<longrightarrow>
             8 \<le> vlength (revivalImpulse rnd (rngAt dt s i) ?b)
             \<and> vlength (revivalImpulse rnd (rngAt dt s i) ?b) < 14)
         \<and> (position ?b = Vec3 0 0 0 \<and> revivalRandom rnd (rngAt dt s i) = Vec3 0 0 0 \<longrightarrow>
             revivalImpulse rnd (rngAt dt s i) ?b = Vec3 0 0 0)"
    using revivalImpulse_strength(2,3)[of ?b rnd "rngAt dt s i"] r
      normalize_vneg_unit[of "position ?b"] revivalImpulse_zero[of ?b rnd "rngAt dt s i"] by blast
  have d: "revivalImpulse rnd (rngAt dt s i) ?b =
             vscale (8 + rnd (rngAt dt s i + 3) * 6)
               (normalize_vec (vadd (vscale 0.8 (normalize_vec (vneg (position ?b))))
                  (vscale 0.2 (normalize_vec (revivalRandom rnd (rngAt dt s i))))))"
    unfolding revivalRandom_def by (rule revivalImpulse_direction)
  have "let b = smallSphereBodies s ! i; t = stationaryTimes s ! i + dt
      in lastVelocities ?s' ! i = velocity (smallSphereBodies ?s' ! i) \<and>
         (if stationary b (lastVelocities s ! i) then
            (if t > 2000 then
               stationaryTimes ?s' ! i = 0 \<and>
               (\<exists>n. smallSphereBodies ?s' ! i = applyImpulse (revivalImpulse rnd n b) (position b) b
                  \<and> revivalImpulse rnd n b =
                      vscale (8 + rnd (n + 3) * 6)
                        (normalize_vec (vadd (vscale 0.8 (normalize_vec (vneg (position b))))
                           (vscale 0.2 (normalize_vec (revivalRandom rnd n)))))
                  \<and> (position b \<noteq> Vec3 0 0 0 \<longrightarrow> vlength (normalize_vec (vneg (position b))) = 1)
                  \<and> (position b \<noteq> Vec3 0 0 0 \<or> revivalRandom rnd n \<noteq> Vec3 0 0 0 \<longrightarrow>
                        8 \<le> vlength (revivalImpulse rnd n b)
                        \<and> vlength (revivalImpulse rnd n b) < 14)
                  \<and> (position b = Vec3 0 0 0 \<and> revivalRandom rnd n = Vec3 0 0 0 \<longrightarrow>
                        revivalImpulse rnd n b = Vec3 0 0 0))
             else stationaryTimes ?s' ! i = t \<and> smallSphereBodies ?s' ! i = b)
          else stationaryTimes ?s' ! i = 0 \<and> smallSphereBodies ?s' ! i = b)"
  proof (cases "stationary ?b (lastVelocities s ! i) \<and> stationaryTimes s ! i + dt > 2000")
    case True
    then have "revivedAt dt s i" using assms(5) by (simp add: revivedAt_def)
    then have "smallSphereBodies ?s' ! i
                 = applyImpulse (revivalImpulse rnd (rngAt dt s i) ?b) (position ?b) ?b"
      using b by simp
    with m d
    have "\<exists>n. smallSphereBodies ?s' ! i = applyImpulse (revivalImpulse rnd n ?b) (position ?b) ?b
                  \<and> revivalImpulse rnd n ?b =
                      vscale (8 + rnd (n + 3) * 6)
                        (normalize_vec (vadd (vscale 0.8 (normalize_vec (vneg (position ?b))))
                           (vscale 0.2 (normalize_vec (revivalRandom rnd n)))))
                  \<and> (position ?b \<noteq> Vec3 0 0 0 \<longrightarrow> vlength (normalize_vec (vneg (position ?b))) = 1)
                  \<and> (position ?b \<noteq> Vec3 0 0 0 \<or> revivalRandom rnd n \<noteq> Vec3 0 0 0 \<longrightarrow>
                        8 \<le> vlength (revivalImpulse rnd n ?b)
                        \<and> vlength (revivalImpulse rnd n ?b) < 14)
                  \<and> (position ?b = Vec3 0 0 0 \<and> revivalRandom rnd n = Vec3 0 0 0 \<longrightarrow>
                        revivalImpulse rnd n ?b = Vec3 0 0 0)"
      by (intro exI[of _ "rngAt dt s i"]) blast
    with True v t show ?thesis unfolding Let_def by simp
  next
    case False
    then have "\<not> revivedAt dt s i" by (simp add: revivedAt_def)
    then have "smallSphereBodies ?s' ! i = ?b" using b by simp
    with False v t show ?thesis unfolding Let_def by auto
  qed
  then show ?thesis
    unfolding livenessEnforcement_eq[OF assms(1,2)] by blast
qed


lemma vlength_origin [simp]: "vlength (Vec3 0 0 0) = 0"
  by (simp add: vlength_def)

lemma exampleBody_sel [simp]:
  "body_id (exampleBody i p v) = i" "btype (exampleBody i p v) = DYNAMIC"
  "mass (exampleBody i p v) = 0.6" "position (exampleBody i p v) = p"
  "velocity (exampleBody i p v) = v" "applied (exampleBody i p v) = []"
  by (simp_all add: exampleBody_def)

lemma restingState_simps:
  "smallSphereBodies (restingState p) ! 0 = exampleBody 0 p (Vec3 0 0 0)"
  "length (smallSphereBodies (restingState p)) = 3"
  "length (lastVelocities (restingState p)) = 14"
  "length (stationaryTimes (restingState p)) = 14"
  "cueBallIndex (restingState p) = 1"
  "lastVelocities (restingState p) ! 0 = Vec3 0 0 0"
  "stationaryTimes (restingState p) ! 0 = 1990"
  "rng (restingState p) = 900"
  by (simp_all add: restingState_def exampleState_def smallCount_def beforeSpheres_def)

lemma random_ok_halves: "random_ok halves"
  by (simp add: random_ok_def halves_def)

text \<open>
  The pass on a body at rest at \<open>(1, 0, 0)\<close> whose timer is at 1990 ms, in a frame of
  16 ms, every random call returning one half: the impulse is \<open>(-11, 0, 0)\<close>, the body of
  mass 0.6 leaves the callback with velocity \<open>(-55/3, 0, 0)\<close>, and this is the sample
  kept.
\<close>

lemma liveness_pass_example:
  "\<exists>s'. livenessEnforcement halves 16 (restingState (Vec3 1 0 0)) = Returns s'
      \<and> stationaryTimes s' ! 0 = 0
      \<and> applied (smallSphereBodies s' ! 0) = [Impulse (Vec3 (- 11) 0 0) (Vec3 1 0 0)]
      \<and> velocity (smallSphereBodies s' ! 0) = Vec3 (- 55 / 3) 0 0
      \<and> lastVelocities s' ! 0 = Vec3 (- 55 / 3) 0 0"
proof -
  let ?s = "restingState (Vec3 1 0 0)"
  let ?b = "exampleBody 0 (Vec3 1 0 0) (Vec3 0 0 0)"
  have h: "length (smallSphereBodies ?s) \<le> length (lastVelocities ?s)"
    "length (smallSphereBodies ?s) \<le> length (stationaryTimes ?s)"
    "0 < length (smallSphereBodies ?s)" "int 0 \<noteq> cueBallIndex ?s"
    by (simp_all add: restingState_simps)
  have st: "stationary ?b (Vec3 0 0 0)" by (simp add: stationary_def)
  have sq: "sqrt (16 / 25) = 4 / 5"
    by (rule real_sqrt_unique) (simp_all add: power2_eq_square)
  have imp: "revivalImpulse halves n ?b = Vec3 (- 11) 0 0" for n
    by (simp add: revivalImpulse_def Let_def normalize_vec_def halves_def vlength_def sq)
  have ap: "applyImpulse (Vec3 (- 11) 0 0) (Vec3 1 0 0) ?b
      = ?b\<lparr>velocity := Vec3 (- 55 / 3) 0 0, applied := [Impulse (Vec3 (- 11) 0 0) (Vec3 1 0 0)]\<rparr>"
    by (simp add: applyImpulse_def vadd_def vscale_def)
  from liveness_pass_at[OF h(1,2) random_ok_halves h(3,4), of 16]
  show ?thesis
    by (auto simp: restingState_simps st Let_def imp ap)
qed

text \<open>
  Claim C5 (liveness enforcement), the revival impulse.  The body at position 0 is not the
  driver; it is at rest exactly at the centre, where every sphere is created, and its
  timer is at 1990 ms.  In a frame of 16 ms the timer exceeds 2000 ms.  The three random
  calls of the direction return one half, so the random vector is zero; the direction
  toward the centre is zero as well, and normalising a zero vector gives the zero vector.
  The pass resets the timer and applies an impulse that is the zero vector, not one of
  magnitude in \<open>[8, 14)\<close>: the body stays at rest, and the sample kept is the zero velocity.
\<close>

theorem revival_impulse_zero_at_centre:
  "\<exists>s' v. livenessEnforcement halves 16 (restingState (Vec3 0 0 0)) = Returns s'
      \<and> stationary (smallSphereBodies (restingState (Vec3 0 0 0)) ! 0)
           (lastVelocities (restingState (Vec3 0 0 0)) ! 0)
      \<and> stationaryTimes (restingState (Vec3 0 0 0)) ! 0 + 16 > 2000
      \<and> applied (smallSphereBodies s' ! 0) = [Impulse v (Vec3 0 0 0)]
      \<and> vlength v = 0
      \<and> velocity (smallSphereBodies s' ! 0) = Vec3 0 0 0
      \<and> stationaryTimes s' ! 0 = 0
      \<and> lastVelocities s' ! 0 = Vec3 0 0 0"
proof -
  let ?s = "restingState (Vec3 0 0 0)"
  let ?b = "exampleBody 0 (Vec3 0 0 0) (Vec3 0 0 0)"
  have h: "length (smallSphereBodies ?s) \<le> length (lastVelocities ?s)"
    "length (smallSphereBodies ?s) \<le> length (stationaryTimes ?s)"
    by (simp_all add: restingState_simps)
  have st: "stationary ?b (Vec3 0 0 0)" by (simp add: stationary_def)
  have rv: "revivedAt 16 ?s 0" by (simp add: revivedAt_def restingState_simps st)
  have imp: "revivalImpulse halves n ?b = Vec3 0 0 0" for n
    by (simp add: revivalImpulse_def Let_def normalize_vec_def halves_def)
  have ap: "applyImpulse (Vec3 0 0 0) (Vec3 0 0 0) ?b
      = ?b\<lparr>applied := [Impulse (Vec3 0 0 0) (Vec3 0 0 0)]\<rparr>"
    by (simp add: applyImpulse_def vadd_def vscale_def exampleBody_def)
  have b: "livenessBodies halves 16 ?s 3 ! 0 = ?b\<lparr>applied := [Impulse (Vec3 0 0 0) (Vec3 0 0 0)]\<rparr>"
    using rv by (simp add: livenessBodies_def restingState_simps Let_def imp ap)
  have t: "livenessTimes 16 ?s 3 ! 0 = 0"
    using st by (simp add: livenessTimes_def restingState_simps)
  have v: "livenessVelocities halves 16 ?s 3 ! 0 = Vec3 0 0 0"
    using rv by (simp add: livenessVelocities_def revivedBody_def restingState_simps Let_def imp ap)
  show ?thesis
    unfolding livenessEnforcement_eq[OF h]
    apply (rule exI[of _ "?s\<lparr>smallSphereBodies := livenessBodies halves 16 ?s (length (smallSphereBodies ?s)),
                rng := rngAt 16 ?s (length (smallSphereBodies ?s)),
                stationaryTimes := livenessTimes 16 ?s (length (smallSphereBodies ?s)),
                lastVelocities := livenessVelocities halves 16 ?s (length (smallSphereBodies ?s))\<rparr>"])
    apply (rule exI[of _ "Vec3 0 0 0"])
    using b t v st by (simp add: restingState_simps)
qed

subsection \<open>Phases that leave the registry alone\<close>

lemma at_index_map: "at_index (map f xs) c = map_option f (at_index xs c)"
  by (auto simp: at_index_def)

lemma skeleton_keeps:
  assumes "skeleton s' = skeleton s"
  shows "registry_inv s' = registry_inv s" and "driverMesh s' = driverMesh s"
    and "driverBody s' = driverBody s" and "driver_valid s' = driver_valid s"
proof -
  have m: "smallSphereMeshes s' = smallSphereMeshes s" and c: "cueBallIndex s' = cueBallIndex s"
    and b: "map body_id (smallSphereBodies s') = map body_id (smallSphereBodies s)"
    and u: "(\<lambda>m. userData (objects s' m)) = (\<lambda>m. userData (objects s m))"
    and rest: "next_object s' = next_object s"
      "pmesh (pendingNewSphere s') = pmesh (pendingNewSphere s)"
      "(pbody (pendingNewSphere s') = None) = (pbody (pendingNewSphere s) = None)"
      "length (lastVelocities s') = length (lastVelocities s)"
      "length (stationaryTimes s') = length (stationaryTimes s)"
    using assms by (simp_all add: skeleton_def)
  have l: "length (smallSphereBodies s') = length (smallSphereBodies s)"
    using b by (metis length_map)
  have cm: "isCueMesh s' = isCueMesh s"
    using u by (auto simp: isCueMesh_def fun_eq_iff)
  show dv: "driver_valid s' = driver_valid s" by (simp add: driver_valid_def m c l)
  show "driverMesh s' = driverMesh s" by (simp add: driverMesh_def m c)
  show "driverBody s' = driverBody s"
    using b by (simp add: driverBody_def c flip: at_index_map)
  show "registry_inv s' = registry_inv s"
    using rest(3) by (simp add: registry_inv_def dv m c cm rest(1,2,4,5) pendingCount_def split: option.split)
qed

lemma map_body_id_update:
  assumes "\<And>b. body_id (f b) = body_id b"
  shows "map body_id (xs[i := f (xs ! i)]) = map body_id xs"
proof (cases "i < length xs")
  case True
  then have "(map body_id xs)[i := body_id (xs ! i)] = map body_id xs"
    by (metis list_update_id nth_map)
  then show ?thesis by (simp add: map_update assms)
next
  case False
  then show ?thesis by (simp add: list_update_beyond)
qed

lemma body_id_applyImpulse [simp]: "body_id (applyImpulse v p b) = body_id b"
  by (simp add: applyImpulse_def)

lemma body_id_applyForce [simp]: "body_id (applyForce v p b) = body_id b"
  by (simp add: applyForce_def)

lemma body_id_stepBody [simp]: "body_id (stepBody phys dt w b) = body_id b"
  by (simp add: stepBody_def split: prod.split)

lemma skeleton_world_step: "skeleton (world_step phys dt s) = skeleton s"
  by (simp add: skeleton_def world_step_def Let_def comp_def)

lemma skeleton_stepWorld: "skeleton (stepWorld phys s) = skeleton s"
  by (simp add: stepWorld_def skeleton_world_step)

lemma skeleton_nudgeBody: "skeleton (nudgeBody rnd i s) = skeleton s"
  by (simp add: skeleton_def nudgeBody_def Let_def map_body_id_update)

lemma skeleton_fold:
  "(\<And>i s. skeleton (f i s) = skeleton s) \<Longrightarrow> skeleton (fold f xs s) = skeleton s"
  by (induction xs arbitrary: s) simp_all

lemma skeleton_ambientNudge: "skeleton (ambientNudge rnd time s) = skeleton s"
  by (simp add: ambientNudge_def skeleton_fold skeleton_nudgeBody)

lemma skeleton_pointerImpulse: "skeleton (pointerImpulse rnd hit s) = skeleton s"
  by (simp add: skeleton_def pointerImpulse_def Let_def map_body_id_update split: option.split)

lemma skeleton_boundaryConfinement: "skeleton (fst (boundaryConfinement s)) = skeleton s"
  by (simp add: boundaryConfinement_eq skeleton_def map_body_id_confinedBodies)

lemma skeleton_applyCueBallImpulse:
  "applyCueBallImpulse rnd time s = Returns s' \<Longrightarrow> skeleton s' = skeleton s"
  by (auto simp: applyCueBallImpulse_def skeleton_def Let_def at_index_def map_body_id_update
      split: if_splits option.splits)

lemma skeleton_forEachIndex:
  assumes "\<And>i s s'. f i s = Returns s' \<Longrightarrow> skeleton s' = skeleton s"
  shows "forEachIndex f xs s = Returns s' \<Longrightarrow> skeleton s' = skeleton s"
proof (induction xs arbitrary: s)
  case Nil
  then show ?case by simp
next
  case (Cons i xs)
  from Cons.prems obtain s1 where s1: "f i s = Returns s1" "forEachIndex f xs s1 = Returns s'"
    by (auto simp: obind_def split: outcome.splits)
  from Cons.IH[OF s1(2)] assms[OF s1(1)] show ?case by simp
qed

lemma skeleton_livenessBody:
  "livenessBody rnd dt i s = Returns s' \<Longrightarrow> skeleton s' = skeleton s"
  by (auto simp: livenessBody_def skeleton_def Let_def map_body_id_update split: if_splits)

lemma skeleton_livenessEnforcement:
  "livenessEnforcement rnd dt s = Returns s' \<Longrightarrow> skeleton s' = skeleton s"
  unfolding livenessEnforcement_def
  by (rule skeleton_forEachIndex[where f = "livenessBody rnd dt"]) (rule skeleton_livenessBody)

lemma skeleton_update_object:
  "(\<And>ob. userData (f ob) = userData ob) \<Longrightarrow> skeleton (update_object m f s) = skeleton s"
  by (simp add: skeleton_def update_object_def fun_eq_iff)

lemma skeleton_syncBody: "syncBody time i s = Returns s' \<Longrightarrow> skeleton s' = skeleton s"
  by (auto simp: syncBody_def Let_def skeleton_update_object split: option.splits if_splits)

lemma skeleton_renderSync: "renderSync time s = Returns s' \<Longrightarrow> skeleton s' = skeleton s"
proof -
  assume a: "renderSync time s = Returns s'"
  then obtain mm where mm: "mainSphereMeshRef s = Some mm" by (auto simp: renderSync_def split: option.splits)
  let ?s2 = "update_object (particlesMesh s)
                      (\<lambda>ob. ob\<lparr>orotation := Vec3 (time * 0.0001) (time * 0.0002) (vz (orotation ob))\<rparr>)
             (update_object mm
                      (\<lambda>ob. ob\<lparr>orotation := Vec3 (time * 0.0001) (time * 0.0002) (vz (orotation ob)),
                               oposition := Vec3 0 0 0,
                               oscale := Vec3 (sin (time * 0.001) * 0.03 + 1) (sin (time * 0.001) * 0.03 + 1)
                                   (sin (time * 0.001) * 0.03 + 1)\<rparr>) s)"
  have s2: "skeleton ?s2 = skeleton s" by (simp add: skeleton_update_object)
  from a mm obtain s3 where s3: "forEachIndex (syncBody time) [0..<length (smallSphereBodies ?s2)] ?s2 = Returns s3"
    "s' = s3\<lparr>renders := renders s3 + 1\<rparr>"
    by (auto simp: renderSync_def Let_def obind_def update_object_def split: outcome.splits)
  have "skeleton s3 = skeleton ?s2"
    by (rule skeleton_forEachIndex[where f = "syncBody time", OF _ s3(1)]) (rule skeleton_syncBody)
  then show ?thesis using s2 s3(2) by (simp add: skeleton_def)
qed

subsection \<open>The invariant under removals\<close>

lemma set_splice1_subset: "set (splice1 k xs) \<subseteq> set xs"
  by (auto simp: splice1_def dest: in_set_takeD in_set_dropD)

lemma flags_splice1:
  assumes "\<And>i. i < length xs \<Longrightarrow> P (xs ! i) = (int i = c)"
    and "k < length xs" and "int k \<noteq> c" and "i < length (splice1 k xs)"
  shows "P (splice1 k xs ! i) = (int i = (if int k < c then c - 1 else c))"
proof -
  have i: "i < length xs - 1" using assms(2,4) by (simp add: length_splice1)
  show ?thesis
  proof (cases "i < k")
    case True
    then have "splice1 k xs ! i = xs ! i" using assms(2) i by (simp add: nth_splice1)
    moreover have "P (xs ! i) = (int i = c)" using assms(1) i by simp
    ultimately show ?thesis using True by auto
  next
    case False
    then have "splice1 k xs ! i = xs ! Suc i" using assms(2) i by (simp add: nth_splice1)
    moreover have "P (xs ! Suc i) = (int (Suc i) = c)" using assms(1) i by simp
    ultimately show ?thesis using False assms(3) by auto
  qed
qed

lemma removeSphereAt_inv:
  assumes "registry_inv s" and "k < length (smallSphereMeshes s)" and "int k \<noteq> cueBallIndex s"
  shows "\<exists>s'. removeSphereAt (int k) s = Returns s' \<and> registry_inv s'
           \<and> driverMesh s' = driverMesh s \<and> driverBody s' = driverBody s
           \<and> length (smallSphereMeshes s') = length (smallSphereMeshes s) - 1
           \<and> cueBallIndex s' = (if int k < cueBallIndex s then cueBallIndex s - 1 else cueBallIndex s)
           \<and> pendingNewSphere s' = pendingNewSphere s \<and> rng s' = rng s
           \<and> lastSphereRegenerationTime s' = lastSphereRegenerationTime s"
proof -
  have dv: "driver_valid s" using assms(1) by (simp add: registry_inv_def)
  then have kb: "k < length (smallSphereBodies s)" using assms(2) by (simp add: driver_valid_def)
  let ?s' = "s\<lparr>cueBallIndex := (if int k < cueBallIndex s then cueBallIndex s - 1 else cueBallIndex s),
                children := childrenAfterRemoval k s,
                world_bodies := remove1 (body_id (smallSphereBodies s ! k)) (world_bodies s),
                smallSphereMeshes := splice1 k (smallSphereMeshes s),
                smallSphereBodies := splice1 k (smallSphereBodies s)\<rparr>"
  have eq: "removeSphereAt (int k) s = Returns ?s'" using assms(2) kb by (rule removeSphereAt_eq)
  from removeSphereAt_driver[OF dv assms(2,3)] eq
  have d: "driverMesh ?s' = driverMesh s" "driverBody ?s' = driverBody s" "driver_valid ?s'"
    by simp_all
  have cm: "isCueMesh ?s' = isCueMesh s" by (simp add: isCueMesh_def fun_eq_iff)
  have fl: "\<And>i. i < length (smallSphereMeshes s) \<Longrightarrow>
              isCueMesh s (smallSphereMeshes s ! i) = (int i = cueBallIndex s)"
    using assms(1) by (simp add: registry_inv_def)
  have flags: "\<forall>i < length (smallSphereMeshes ?s').
                  isCueMesh ?s' (smallSphereMeshes ?s' ! i) = (int i = cueBallIndex ?s')"
    unfolding cm using flags_splice1[of "smallSphereMeshes s" "isCueMesh s" "cueBallIndex s" k, OF fl assms(2,3)]
    by simp
  have sub: "\<forall>m \<in> set (smallSphereMeshes ?s'). m < next_object ?s'"
    using assms(1) set_splice1_subset[of k "smallSphereMeshes s"] by (auto simp: registry_inv_def)
  have pend: "(case pmesh (pendingNewSphere ?s') of
         None \<Rightarrow> pbody (pendingNewSphere ?s') = None
       | Some m \<Rightarrow> m < next_object ?s' \<and> \<not> isCueMesh ?s' m \<and> pbody (pendingNewSphere ?s') \<noteq> None)"
    unfolding cm using assms(1) by (simp add: registry_inv_def split: option.splits)
  have pop: "length (smallSphereMeshes ?s') + pendingCount ?s' \<le> smallCount"
    "length (lastVelocities ?s') = smallCount" "length (stationaryTimes ?s') = smallCount"
    using assms(1,2) by (auto simp: registry_inv_def length_splice1 pendingCount_def split: option.splits)
  have "registry_inv ?s'"
    unfolding registry_inv_def using d(3) flags sub pend pop by blast
  moreover have "length (smallSphereMeshes ?s') = length (smallSphereMeshes s) - 1"
    using assms(2) by (simp add: length_splice1)
  ultimately show ?thesis using eq d(1,2) by simp
qed

lemma removeMarked_inv:
  assumes "descending ks" and "registry_inv s"
    and "\<And>k. k \<in> set ks \<Longrightarrow> k < length (smallSphereMeshes s) \<and> int k \<noteq> cueBallIndex s"
  shows "\<exists>s'. removeMarked ks s = Returns s' \<and> registry_inv s'
           \<and> driverMesh s' = driverMesh s \<and> driverBody s' = driverBody s
           \<and> pendingNewSphere s' = pendingNewSphere s \<and> rng s' = rng s
           \<and> lastSphereRegenerationTime s' = lastSphereRegenerationTime s"
  using assms
proof (induction ks arbitrary: s)
  case Nil
  then show ?case by simp
next
  case (Cons k ks)
  have k: "k < length (smallSphereMeshes s)" "int k \<noteq> cueBallIndex s" using Cons.prems(3) by simp_all
  have lt: "\<And>j. j \<in> set ks \<Longrightarrow> j < k" using Cons.prems(1) by simp
  from removeSphereAt_inv[OF Cons.prems(2) k] obtain s1 where
    s1: "removeSphereAt (int k) s = Returns s1" "registry_inv s1"
      "driverMesh s1 = driverMesh s" "driverBody s1 = driverBody s"
      "length (smallSphereMeshes s1) = length (smallSphereMeshes s) - 1"
      "cueBallIndex s1 = (if int k < cueBallIndex s then cueBallIndex s - 1 else cueBallIndex s)"
      "pendingNewSphere s1 = pendingNewSphere s" "rng s1 = rng s"
      "lastSphereRegenerationTime s1 = lastSphereRegenerationTime s"
    by blast
  have "\<exists>s'. removeMarked ks s1 = Returns s' \<and> registry_inv s'
           \<and> driverMesh s' = driverMesh s1 \<and> driverBody s' = driverBody s1
           \<and> pendingNewSphere s' = pendingNewSphere s1 \<and> rng s' = rng s1
           \<and> lastSphereRegenerationTime s' = lastSphereRegenerationTime s1"
  proof (rule Cons.IH)
    show "descending ks" using Cons.prems(1) by simp
    show "registry_inv s1" by (rule s1(2))
    fix j assume j: "j \<in> set ks"
    have "j < k" using lt j by simp
    moreover have "int j \<noteq> cueBallIndex s" using Cons.prems(3) j by simp
    ultimately show "j < length (smallSphereMeshes s1) \<and> int j \<noteq> cueBallIndex s1"
      using k(1) s1(5,6) by auto
  qed
  then show ?case using s1 by (auto simp: obind_def)
qed

subsection \<open>The invariant under the population regenerator\<close>

lemma skeleton_rng [simp]: "skeleton (s\<lparr>rng := n\<rparr>) = skeleton s"
  by (simp add: skeleton_def)

lemma skeleton_lastRegen [simp]: "skeleton (s\<lparr>lastSphereRegenerationTime := t\<rparr>) = skeleton s"
  by (simp add: skeleton_def)

lemma removeRandomSphere_inv:
  assumes "random_ok rnd" and "registry_inv s" and "removeRandomSphere rnd time s = Returns s'"
  shows "registry_inv s' \<and> driverMesh s' = driverMesh s \<and> driverBody s' = driverBody s
         \<and> pendingNewSphere s' = pendingNewSphere s
         \<and> ((length (smallSphereMeshes s) \<le> 1 \<and> s' = s) \<or>
             (length (smallSphereMeshes s') = length (smallSphereMeshes s) - 1
              \<and> lastSphereRegenerationTime s' = time))"
proof -
  have dv: "driver_valid s" using assms(2) by (simp add: registry_inv_def)
  from removeRandomSphere_cases[OF assms(1) dv assms(3)]
  consider "length (smallSphereMeshes s) \<le> 1" "s' = s"
    | k n s1 where "k < length (smallSphereMeshes s)" "int k \<noteq> cueBallIndex s"
        "removeSphereAt (int k) (s\<lparr>rng := n\<rparr>) = Returns s1"
        "s' = s1\<lparr>lastSphereRegenerationTime := time\<rparr>"
    by blast
  then show ?thesis
  proof cases
    case 1
    then show ?thesis using assms(2) by simp
  next
    case 2
    let ?s0 = "s\<lparr>rng := n\<rparr>"
    have sk: "skeleton ?s0 = skeleton s" by simp
    have inv0: "registry_inv ?s0" using skeleton_keeps(1)[OF sk] assms(2) by simp
    have k0: "k < length (smallSphereMeshes ?s0)" "int k \<noteq> cueBallIndex ?s0" using 2(1,2) by simp_all
    from removeSphereAt_inv[OF inv0 k0] 2(3)
    have s1: "registry_inv s1" "driverMesh s1 = driverMesh ?s0" "driverBody s1 = driverBody ?s0"
      "length (smallSphereMeshes s1) = length (smallSphereMeshes ?s0) - 1"
      "pendingNewSphere s1 = pendingNewSphere ?s0"
      by auto
    have sk': "skeleton s' = skeleton s1" unfolding 2(4) by simp
    show ?thesis
      using skeleton_keeps[OF sk'] skeleton_keeps[OF sk] s1
      by (simp add: 2(4))
  qed
qed

lemma createNewSphere_Returns:
  assumes "createNewSphere rnd time s = Returns s'"
  shows "smallSphereMeshes s' = smallSphereMeshes s" and "smallSphereBodies s' = smallSphereBodies s"
    and "cueBallIndex s' = cueBallIndex s"
    and "lastVelocities s' = lastVelocities s" and "stationaryTimes s' = stationaryTimes s"
    and "next_object s' = next_object s + 2"
    and "pmesh (pendingNewSphere s') = Some (next_object s)"
    and "pbody (pendingNewSphere s') \<noteq> None"
    and "startTime (pendingNewSphere s') = time"
    and "\<And>m. m < next_object s \<Longrightarrow> objects s' m = objects s m"
    and "\<not> isCueMesh s' (next_object s)"
    and "lastSphereRegenerationTime s' = lastSphereRegenerationTime s"
  using assms
  by (auto simp: createNewSphere_def Let_def scene_add_def update_object_def world_addBody_def
        isCueMesh_def split: option.splits prod.splits)

lemma createNewSphere_inv:
  assumes "registry_inv s" and "pmesh (pendingNewSphere s) = None"
    and "length (smallSphereMeshes s) < smallCount"
    and "createNewSphere rnd time s = Returns s'"
  shows "registry_inv s' \<and> driverMesh s' = driverMesh s \<and> driverBody s' = driverBody s"
proof -
  note r = createNewSphere_Returns[OF assms(4)]
  have cm: "isCueMesh s' m = isCueMesh s m" if "m < next_object s" for m
    using r(10)[OF that] by (simp add: isCueMesh_def)
  have lt: "\<forall>m \<in> set (smallSphereMeshes s). m < next_object s"
    using assms(1) by (simp add: registry_inv_def)
  have dv: "driver_valid s'" using assms(1) by (simp add: registry_inv_def driver_valid_def r)
  have flags: "\<forall>i < length (smallSphereMeshes s').
                  isCueMesh s' (smallSphereMeshes s' ! i) = (int i = cueBallIndex s')"
    using assms(1) lt cm by (simp add: registry_inv_def r)
  have "registry_inv s'"
    unfolding registry_inv_def
    using dv flags lt assms(1,2,3) r(11)
    by (auto simp: r registry_inv_def pendingCount_def)
  then show ?thesis by (simp add: driverMesh_def driverBody_def r)
qed


lemma at_index_snoc: "0 \<le> c \<Longrightarrow> c < int (length xs) \<Longrightarrow> at_index (xs @ [x]) c = at_index xs c"
  by (simp add: at_index_def nth_append nat_less_iff)

lemma updateNewSphereAnimation_inv:
  assumes "registry_inv s" and "updateNewSphereAnimation rnd time s = Returns s'"
  shows "registry_inv s' \<and> driverMesh s' = driverMesh s \<and> driverBody s' = driverBody s"
proof (cases "pmesh (pendingNewSphere s)")
  case None
  then have "s' = s" using assms(2) by (simp add: updateNewSphereAnimation_def)
  then show ?thesis using assms(1) by simp
next
  case (Some m)
  then obtain b where b: "pbody (pendingNewSphere s) = Some b"
    using assms(1) by (auto simp: registry_inv_def)
  have pm: "m < next_object s" "\<not> isCueMesh s m"
    using assms(1) Some by (simp_all add: registry_inv_def)
  show ?thesis
  proof (cases "time - startTime (pendingNewSphere s) \<le> popupDuration")
    case True
    have "skeleton s' = skeleton s"
      using assms(2) Some b True
      by (auto simp: updateNewSphereAnimation_def Let_def skeleton_update_object split: option.splits)
    then show ?thesis using skeleton_keeps assms(1) by blast
  next
    case False
    let ?s1 = "update_object m (\<lambda>ob. ob\<lparr>oscale := Vec3 1 1 1\<rparr>) s"
    from assms(2) Some b False obtain d n where
      s': "s' = ?s1\<lparr>rng := n,
             smallSphereMeshes := smallSphereMeshes ?s1 @ [m],
             smallSphereBodies := smallSphereBodies ?s1 @
               [applyImpulse (Vec3 (vx d * newSphereImpulseFactor) (vy d * newSphereImpulseFactor)
                                   (vz d * newSphereImpulseFactor))
                  (position (b\<lparr>btype := DYNAMIC\<rparr>)) (b\<lparr>btype := DYNAMIC\<rparr>)],
             pendingNewSphere := noPending\<rparr>"
      by (auto simp: updateNewSphereAnimation_def Let_def split: option.splits)
    have dv: "driver_valid s" and fl: "\<forall>i < length (smallSphereMeshes s).
          isCueMesh s (smallSphereMeshes s ! i) = (int i = cueBallIndex s)"
      and lt: "\<forall>m \<in> set (smallSphereMeshes s). m < next_object s"
      and pop: "length (smallSphereMeshes s) + pendingCount s \<le> smallCount"
        "length (lastVelocities s) = smallCount" "length (stationaryTimes s) = smallCount"
      using assms(1) by (simp_all add: registry_inv_def)
    have c: "0 \<le> cueBallIndex s" "cueBallIndex s < int (length (smallSphereMeshes s))"
      "length (smallSphereMeshes s) = length (smallSphereBodies s)"
      using dv by (simp_all add: driver_valid_def)
    have cm: "isCueMesh s' = isCueMesh s"
      unfolding s' by (simp add: isCueMesh_def update_object_def fun_eq_iff)
    have f: "smallSphereMeshes s' = smallSphereMeshes s @ [m]"
      "length (smallSphereBodies s') = Suc (length (smallSphereBodies s))"
      "cueBallIndex s' = cueBallIndex s" "next_object s' = next_object s"
      "pendingNewSphere s' = noPending"
      "length (lastVelocities s') = length (lastVelocities s)"
      "length (stationaryTimes s') = length (stationaryTimes s)"
      unfolding s' by (simp_all add: update_object_def)
    have dv': "driver_valid s'" using c by (simp add: driver_valid_def f)
    have flags: "\<forall>i < length (smallSphereMeshes s').
          isCueMesh s' (smallSphereMeshes s' ! i) = (int i = cueBallIndex s')"
    proof (intro allI impI)
      fix i assume "i < length (smallSphereMeshes s')"
      then have "i < length (smallSphereMeshes s) \<or> i = length (smallSphereMeshes s)"
        by (auto simp: f)
      then show "isCueMesh s' (smallSphereMeshes s' ! i) = (int i = cueBallIndex s')"
      proof (elim disjE)
        assume "i < length (smallSphereMeshes s)"
        then show ?thesis using fl by (simp add: f cm nth_append)
      next
        assume "i = length (smallSphereMeshes s)"
        then show ?thesis using pm(2) c(2) by (simp add: f cm)
      qed
    qed
    have pc: "pendingCount s = 1" using Some by (simp add: pendingCount_def)
    have "registry_inv s'"
      unfolding registry_inv_def
      using dv' flags lt pm(1) pop pc
      by (auto simp: f noPending_def pendingCount_def)
    moreover have "driverMesh s' = driverMesh s"
      using c by (simp add: driverMesh_def f at_index_snoc)
    moreover have "driverBody s' = driverBody s"
      using c unfolding s' by (simp add: driverBody_def update_object_def at_index_snoc)
    ultimately show ?thesis by simp
  qed
qed

lemma regenerationCycle_inv:
  assumes "random_ok rnd" and "registry_inv s" and "regenerationCycle rnd time s = Returns s'"
  shows "registry_inv s' \<and> driverMesh s' = driverMesh s \<and> driverBody s' = driverBody s"
proof (cases "time - lastSphereRegenerationTime s > regenerationInterval")
  case False
  then have "s' = s" using assms(3) by (simp add: regenerationCycle_def)
  then show ?thesis using assms(2) by simp
next
  case True
  define big where "big = (real (length (smallSphereMeshes s)) > max 2 (real smallCount / 2))"
  from assms(3) True obtain s1 where
    s1: "(if big then removeRandomSphere rnd time s else Returns s) = Returns s1"
      "(if pmesh (pendingNewSphere s1) = None then createNewSphere rnd time s1 else Returns s1) = Returns s'"
    unfolding big_def by (auto simp: regenerationCycle_def obind_def split: outcome.splits)
  have k1: "registry_inv s1 \<and> driverMesh s1 = driverMesh s \<and> driverBody s1 = driverBody s
            \<and> pendingNewSphere s1 = pendingNewSphere s
            \<and> (pmesh (pendingNewSphere s) = None \<longrightarrow> length (smallSphereMeshes s1) < smallCount)"
  proof (cases big)
    case True
    with s1(1) have r: "removeRandomSphere rnd time s = Returns s1" by simp
    have big: "length (smallSphereMeshes s) > 1" using True by (simp add: big_def)
    have "length (smallSphereMeshes s) \<le> smallCount"
      using assms(2) by (simp add: registry_inv_def)
    with removeRandomSphere_inv[OF assms(1,2) r] big show ?thesis by auto
  next
    case False
    with s1(1) have "s1 = s" by simp
    moreover have "length (smallSphereMeshes s) < smallCount"
      using False by (simp add: big_def smallCount_def)
    ultimately show ?thesis using assms(2) by simp
  qed
  show ?thesis
  proof (cases "pmesh (pendingNewSphere s1) = None")
    case True
    with s1(2) have c: "createNewSphere rnd time s1 = Returns s'" by simp
    have "length (smallSphereMeshes s1) < smallCount" using k1 True by simp
    from createNewSphere_inv[OF _ True this c] k1 show ?thesis by simp
  next
    case False
    with s1(2) have "s' = s1" by simp
    then show ?thesis using k1 by simp
  qed
qed

lemma populationRegenerator_inv:
  assumes "random_ok rnd" and "registry_inv s" and "populationRegenerator rnd time s = Returns s'"
  shows "registry_inv s' \<and> driverMesh s' = driverMesh s \<and> driverBody s' = driverBody s"
proof -
  from assms(3) obtain s1 where
    s1: "regenerationCycle rnd time s = Returns s1"
      "(if pmesh (pendingNewSphere s1) \<noteq> None then updateNewSphereAnimation rnd time s1
        else Returns s1) = Returns s'"
    by (auto simp: populationRegenerator_def obind_def split: outcome.splits)
  note k1 = regenerationCycle_inv[OF assms(1,2) s1(1)]
  show ?thesis
  proof (cases "pmesh (pendingNewSphere s1) \<noteq> None")
    case True
    with s1(2) have "updateNewSphereAnimation rnd time s1 = Returns s'" by simp
    from updateNewSphereAnimation_inv[OF _ this] k1 show ?thesis by simp
  next
    case False
    with s1(2) have "s' = s1" by simp
    then show ?thesis using k1 by simp
  qed
qed

lemma boundary_pass_inv:
  assumes "registry_inv s"
  shows "\<exists>s'. removalCompaction (snd (boundaryConfinement s)) (fst (boundaryConfinement s)) = Returns s'
           \<and> registry_inv s' \<and> driverMesh s' = driverMesh s \<and> driverBody s' = driverBody s"
proof -
  let ?s1 = "fst (boundaryConfinement s)"
  have sk: "skeleton ?s1 = skeleton s" by (rule skeleton_boundaryConfinement)
  have inv1: "registry_inv ?s1" using skeleton_keeps(1)[OF sk] assms by simp
  have dv: "driver_valid s" using assms by (simp add: registry_inv_def)
  have d: "descending (rev (markedIndices s))"
    using markedIndices_props(1,2) by (rule descending_rev_sorted)
  have m: "smallSphereMeshes ?s1 = smallSphereMeshes s" "cueBallIndex ?s1 = cueBallIndex s"
    by (simp_all add: boundaryConfinement_eq)
  have r: "\<And>k. k \<in> set (rev (markedIndices s)) \<Longrightarrow>
             k < length (smallSphereMeshes ?s1) \<and> int k \<noteq> cueBallIndex ?s1"
    using markedIndices_props(3)[of _ s] dv by (simp add: m driver_valid_def)
  from removeMarked_inv[OF d inv1 r]
  show ?thesis
    using skeleton_keeps(2,3)[OF sk]
    by (auto simp: removalCompaction_def boundaryConfinement_eq)
qed


subsection \<open>The invariant over a frame and at the start\<close>

lemma animate_inv:
  assumes "random_ok rnd" and "registry_inv s" and "animate rnd phys time hit s = Returns s'"
  shows "registry_inv s' \<and> driverMesh s' = driverMesh s \<and> driverBody s' = driverBody s"
proof (cases "isActive_closure s")
  case False
  then have "s' = s" using assms(3) by (simp add: animate_def)
  then show ?thesis using assms(2) by simp
next
  case True
  let ?s0 = "s\<lparr>lastTime := time, timeRef := time\<rparr>"
  have sk0: "skeleton ?s0 = skeleton s" by (simp add: skeleton_def)
  show ?thesis
  proof (cases "\<not> worldRef s \<or> mainSphereMeshRef s = None")
    case True
    then have "s' = ?s0" using assms(3) \<open>isActive_closure s\<close> by (auto simp: animate_def Let_def)
    then show ?thesis using skeleton_keeps[OF sk0] assms(2) by simp
  next
    case False
    from assms(3) \<open>isActive_closure s\<close> False obtain s1 s2 s3 s5 s6 where
      c: "populationRegenerator rnd time (stepWorld phys ?s0) = Returns s1"
         "applyCueBallImpulse rnd time s1 = Returns s2"
         "livenessEnforcement rnd (time - lastTime s) (ambientNudge rnd time s2) = Returns s3"
         "removalCompaction (snd (boundaryConfinement (pointerImpulse rnd hit s3)))
            (fst (boundaryConfinement (pointerImpulse rnd hit s3))) = Returns s5"
         "renderSync time s5 = Returns s6"
         "s' = s6\<lparr>raf_requests := raf_requests s6 + 1\<rparr>"
      by (auto simp: animate_def Let_def obind_def split: outcome.splits prod.splits)
    have a: "skeleton (stepWorld phys ?s0) = skeleton s"
      using skeleton_stepWorld[of phys ?s0] sk0 by simp
    have k0: "registry_inv (stepWorld phys ?s0)" "driverMesh (stepWorld phys ?s0) = driverMesh s"
      "driverBody (stepWorld phys ?s0) = driverBody s"
      using skeleton_keeps[OF a] assms(2) by simp_all
    note k1 = populationRegenerator_inv[OF assms(1) k0(1) c(1)]
    note sk2 = skeleton_applyCueBallImpulse[OF c(2)]
    have sk3: "skeleton s3 = skeleton s2"
      using skeleton_livenessEnforcement[OF c(3)] skeleton_ambientNudge[of rnd time s2] by simp
    have sk4: "skeleton (pointerImpulse rnd hit s3) = skeleton s3" by (rule skeleton_pointerImpulse)
    have k4: "registry_inv (pointerImpulse rnd hit s3)"
      "driverMesh (pointerImpulse rnd hit s3) = driverMesh s"
      "driverBody (pointerImpulse rnd hit s3) = driverBody s"
      using skeleton_keeps[OF sk4] skeleton_keeps[OF sk3] skeleton_keeps[OF sk2] k1 k0 by simp_all
    from boundary_pass_inv[OF k4(1)] c(4)
    have k5: "registry_inv s5" "driverMesh s5 = driverMesh s" "driverBody s5 = driverBody s"
      using k4(2,3) by auto
    note sk6 = skeleton_renderSync[OF c(5)]
    have sk7: "skeleton s' = skeleton s6" unfolding c(6) by (simp add: skeleton_def)
    show ?thesis
      using skeleton_keeps[OF sk7] skeleton_keeps[OF sk6] k5 by simp
  qed
qed

lemma createInitialSphere_Returns:
  assumes "createInitialSphere rnd i s = Returns s'"
  shows "smallSphereMeshes s' = smallSphereMeshes s @ [next_object s]"
    and "length (smallSphereBodies s') = Suc (length (smallSphereBodies s))"
    and "cueBallIndex s' = cueBallIndex s"
    and "lastVelocities s' = lastVelocities s" and "stationaryTimes s' = stationaryTimes s"
    and "pendingNewSphere s' = pendingNewSphere s"
    and "next_object s < next_object s'"
    and "\<And>m. m < next_object s \<Longrightarrow> objects s' m = objects s m"
    and "isCueMesh s' (next_object s) = (int i = cueBallIndex s)"
proof -
  consider "int i = cueBallIndex s"
    | "int i \<noteq> cueBallIndex s" "rnd (rng s + 11) > 0.3"
    | "int i \<noteq> cueBallIndex s" "\<not> rnd (rng s + 11) > 0.3"
    by blast
  then have "smallSphereMeshes s' = smallSphereMeshes s @ [next_object s]
      \<and> length (smallSphereBodies s') = Suc (length (smallSphereBodies s))
      \<and> cueBallIndex s' = cueBallIndex s
      \<and> lastVelocities s' = lastVelocities s \<and> stationaryTimes s' = stationaryTimes s
      \<and> pendingNewSphere s' = pendingNewSphere s
      \<and> next_object s < next_object s'
      \<and> (\<forall>m. m < next_object s \<longrightarrow> objects s' m = objects s m)
      \<and> isCueMesh s' (next_object s) = (int i = cueBallIndex s)"
  proof cases
    case 1
    with assms show ?thesis
      by (auto simp: createInitialSphere_def Let_def scene_add_def update_object_def
            world_addBody_def isCueMesh_def split: option.splits prod.splits if_splits)
  next
    case 2
    with assms show ?thesis
      by (auto simp: createInitialSphere_def Let_def scene_add_def update_object_def
            world_addBody_def isCueMesh_def split: prod.splits if_splits)
  next
    case 3
    with assms show ?thesis
      by (auto simp: createInitialSphere_def Let_def scene_add_def update_object_def
            world_addBody_def isCueMesh_def split: prod.splits if_splits)
  qed
  then show "smallSphereMeshes s' = smallSphereMeshes s @ [next_object s]"
    and "length (smallSphereBodies s') = Suc (length (smallSphereBodies s))"
    and "cueBallIndex s' = cueBallIndex s"
    and "lastVelocities s' = lastVelocities s" and "stationaryTimes s' = stationaryTimes s"
    and "pendingNewSphere s' = pendingNewSphere s"
    and "next_object s < next_object s'"
    and "\<And>m. m < next_object s \<Longrightarrow> objects s' m = objects s m"
    and "isCueMesh s' (next_object s) = (int i = cueBallIndex s)"
    by simp_all
qed

lemma createInitialSphere_building:
  assumes "building n s" and "createInitialSphere rnd n s = Returns s'"
  shows "building (Suc n) s'"
proof -
  note r = createInitialSphere_Returns[OF assms(2)]
  have b: "length (smallSphereMeshes s) = n" "length (smallSphereBodies s) = n"
    "0 \<le> cueBallIndex s" "cueBallIndex s < int smallCount"
    "\<forall>i < n. isCueMesh s (smallSphereMeshes s ! i) = (int i = cueBallIndex s)"
    "\<forall>m \<in> set (smallSphereMeshes s). m < next_object s"
    "pmesh (pendingNewSphere s) = None" "pbody (pendingNewSphere s) = None"
    "length (lastVelocities s) = smallCount" "length (stationaryTimes s) = smallCount"
    using assms(1) by (simp_all add: building_def)
  have cm: "isCueMesh s' m = isCueMesh s m" if "m < next_object s" for m
    using r(8)[OF that] by (simp add: isCueMesh_def)
  have flags: "\<forall>i < Suc n. isCueMesh s' (smallSphereMeshes s' ! i) = (int i = cueBallIndex s')"
  proof (intro allI impI)
    fix i assume "i < Suc n"
    then have "i < n \<or> i = n" by auto
    then show "isCueMesh s' (smallSphereMeshes s' ! i) = (int i = cueBallIndex s')"
    proof (elim disjE)
      assume i: "i < n"
      then have "smallSphereMeshes s ! i < next_object s" using b(1,6) by simp
      then show ?thesis using i b(1,5) cm by (simp add: r nth_append)
    next
      assume "i = n"
      moreover have "(smallSphereMeshes s @ [next_object s]) ! n = next_object s"
        using b(1) by (metis nth_append_length)
      ultimately show ?thesis using r(9) by (simp add: r(1,3))
    qed
  qed
  have lt: "\<forall>m \<in> set (smallSphereMeshes s'). m < next_object s'"
    using b(6) r(7) by (auto simp: r(1))
  show ?thesis
    unfolding building_def using b flags lt by (simp add: r)
qed

lemma mount_loop:
  assumes "building 0 s"
  shows "forEachIndex (createInitialSphere rnd) [0..<m] s = Returns s' \<Longrightarrow> building m s'"
proof (induction m arbitrary: s')
  case 0
  then show ?case using assms by simp
next
  case (Suc m)
  from Suc.prems obtain s1 where
    s1: "forEachIndex (createInitialSphere rnd) [0..<m] s = Returns s1"
      "createInitialSphere rnd m s1 = Returns s'"
    by (auto simp: forEachIndex_snoc obind_def split: outcome.splits)
  from createInitialSphere_building[OF Suc.IH[OF s1(1)] s1(2)] show ?case .
qed

lemma scene_add_inv:
  assumes "registry_inv s"
  shows "registry_inv (snd (scene_add ob s))"
    and "driverMesh (snd (scene_add ob s)) = driverMesh s"
    and "driverBody (snd (scene_add ob s)) = driverBody s"
proof -
  let ?s' = "snd (scene_add ob s)"
  have f: "smallSphereMeshes ?s' = smallSphereMeshes s" "smallSphereBodies ?s' = smallSphereBodies s"
    "cueBallIndex ?s' = cueBallIndex s" "next_object ?s' = Suc (next_object s)"
    "pendingNewSphere ?s' = pendingNewSphere s" "lastVelocities ?s' = lastVelocities s"
    "stationaryTimes ?s' = stationaryTimes s"
    by (simp_all add: scene_add_def Let_def)
  have cm: "isCueMesh ?s' m = isCueMesh s m" if "m < next_object s" for m
    using that by (simp add: isCueMesh_def scene_add_def Let_def)
  have lt: "\<forall>m \<in> set (smallSphereMeshes s). m < next_object s"
    using assms by (simp add: registry_inv_def)
  have flags: "\<forall>i < length (smallSphereMeshes s).
                  isCueMesh ?s' (smallSphereMeshes s ! i) = (int i = cueBallIndex s)"
    using assms lt cm by (simp add: registry_inv_def)
  show "registry_inv ?s'"
    unfolding registry_inv_def
    using assms flags lt cm
    by (auto simp: f registry_inv_def driver_valid_def pendingCount_def split: option.splits)
  show "driverMesh ?s' = driverMesh s" "driverBody ?s' = driverBody s"
    by (simp_all add: driverMesh_def driverBody_def f)
qed

lemma mount_inv:
  assumes "random_ok rnd" and "mount rnd = Returns s0"
  shows "registry_inv s0"
    and "length (smallSphereBodies s0) = smallCount"
proof -
  let ?s = "beforeSpheres\<lparr>cueBallIndex := \<lfloor>rnd 900 * real smallCount\<rfloor>, rng := 901,
                 lastVelocities := replicate smallCount (Vec3 0 0 0),
                 stationaryTimes := replicate smallCount 0\<rparr>"
  have pos: "0 < smallCount" by (simp add: smallCount_def)
  have b0: "building 0 ?s"
    using random_index_range[OF assms(1) pos, of 900]
    by (simp add: building_def beforeSpheres_def noPending_def)
  from assms(2) obtain s1 where
    s1: "forEachIndex (createInitialSphere rnd) [0..<smallCount] ?s = Returns s1"
      "s0 = createInnerGlow s1"
    by (auto simp: mount_def Let_def obind_def split: outcome.splits)
  have b: "building smallCount s1" using mount_loop[OF b0 s1(1)] .
  have inv1: "registry_inv s1"
    using b by (simp add: registry_inv_def building_def driver_valid_def pendingCount_def)
  show "registry_inv s0"
    unfolding s1(2) createInnerGlow_def
    by (intro scene_add_inv(1) inv1)
  show "length (smallSphereBodies s0) = smallCount"
    unfolding s1(2) createInnerGlow_def using b
    by (simp add: scene_add_def Let_def building_def)
qed

subsection \<open>Exactly one driver\<close>

lemma registry_inv_exampleState: "registry_inv exampleState"
proof -
  have "\<forall>i < 3. isCueMesh exampleState ([5, 7, 9] ! i) = (int i = 1)"
    by (auto simp: less_Suc_eq numeral_3_eq_3 isCueMesh_def exampleState_def exampleMesh_def)
  then show ?thesis
    by (simp add: registry_inv_def driver_valid_def pendingCount_def exampleState_def
        beforeSpheres_def noPending_def smallCount_def)
qed

lemma one_flagged:
  assumes "registry_inv s"
  shows "{i. i < length (smallSphereMeshes s) \<and> isCueMesh s (smallSphereMeshes s ! i)}
         = {nat (cueBallIndex s)}"
proof -
  have c: "0 \<le> cueBallIndex s" "cueBallIndex s < int (length (smallSphereMeshes s))"
    and fl: "\<And>i. i < length (smallSphereMeshes s) \<Longrightarrow>
              isCueMesh s (smallSphereMeshes s ! i) = (int i = cueBallIndex s)"
    using assms by (simp_all add: registry_inv_def driver_valid_def)
  show ?thesis
  proof (intro set_eqI iffI)
    fix i assume "i \<in> {i. i < length (smallSphereMeshes s) \<and> isCueMesh s (smallSphereMeshes s ! i)}"
    then have "int i = cueBallIndex s" using fl by auto
    then show "i \<in> {nat (cueBallIndex s)}" by auto
  next
    fix i assume "i \<in> {nat (cueBallIndex s)}"
    then have i: "i = nat (cueBallIndex s)" by simp
    then have "i < length (smallSphereMeshes s)" "int i = cueBallIndex s" using c by auto
    then show "i \<in> {i. i < length (smallSphereMeshes s) \<and> isCueMesh s (smallSphereMeshes s ! i)}"
      using fl by simp
  qed
qed

lemma boundaryBody_driver:
  "boundaryBody True b =
     (if exits b
      then (b\<lparr>position := vscale ((effectiveRadius / vlength (position b)) * 0.7) (position b),
              velocity := Vec3 0 0 0\<rparr>, False)
      else boundaryBody True b)"
  by (simp add: boundaryBody_def exits_def Let_def)

lemma boundaryBody_other: "exits b \<Longrightarrow> boundaryBody False b = (b, True)"
  by (simp add: boundaryBody_def exits_def Let_def)

text \<open>The driver, repositioned: at 0.7 times the effective radius, on the ray it was on.\<close>

lemma driver_repositioned:
  assumes "exits b"
  shows "vlength (position (fst (boundaryBody True b))) = 0.7 * effectiveRadius"
    and "velocity (fst (boundaryBody True b)) = Vec3 0 0 0"
    and "\<not> snd (boundaryBody True b)"
proof -
  let ?d = "vlength (position b)"
  have "mainRadius * exitThreshold > 0" by (simp add: mainRadius_def exitThreshold_def)
  then have d: "?d > 0" using assms unfolding exits_def by linarith
  have e: "effectiveRadius > 0" by (simp add: effectiveRadius_def mainRadius_def)
  have bb: "boundaryBody True b =
     (b\<lparr>position := vscale ((effectiveRadius / ?d) * 0.7) (position b), velocity := Vec3 0 0 0\<rparr>, False)"
    using assms by (subst boundaryBody_driver) simp
  have "vlength (vscale ((effectiveRadius / ?d) * 0.7) (position b)) = \<bar>(effectiveRadius / ?d) * 0.7\<bar> * ?d"
    by (rule vlength_vscale)
  also have "\<dots> = 0.7 * effectiveRadius" using d e by simp
  finally show "vlength (position (fst (boundaryBody True b))) = 0.7 * effectiveRadius"
    by (simp add: bb)
  show "velocity (fst (boundaryBody True b)) = Vec3 0 0 0" "\<not> snd (boundaryBody True b)"
    by (simp_all add: bb)
qed

text \<open>
  Claim C2.  The registry invariant (which says that exactly one position of the registry
  holds a mesh flagged as the driver, the one the driver index points at) holds after the
  mount and is kept by every frame that returns; across a frame the driver index keeps
  pointing at the same mesh and the same body, so the driver is never removed.  In
  particular it is kept by \<^verbatim>\<open>removeRandomSphere\<close>, whose loop never returns the driver's
  index; the boundary scan never marks the driver's index, and repositions the driver
  when it is beyond the exit threshold; and the liveness callback returns the state
  unchanged at the driver's index.
\<close>

theorem exactly_one_driver:
  "(random_ok rnd \<and> mount rnd = Returns s0 \<longrightarrow> registry_inv s0)
   \<and> (random_ok rnd \<and> registry_inv s \<and> animate rnd phys time hit s = Returns s' \<longrightarrow>
        registry_inv s' \<and> driverMesh s' = driverMesh s \<and> driverBody s' = driverBody s)
   \<and> (registry_inv s \<longrightarrow>
        {i. i < length (smallSphereMeshes s) \<and> isCueMesh s (smallSphereMeshes s ! i)}
          = {nat (cueBallIndex s)}
        \<and> driverMesh s \<noteq> None \<and> driverBody s \<noteq> None)
   \<and> (random_ok rnd \<and> registry_inv s \<and> removeRandomSphere rnd time s = Returns s' \<longrightarrow>
        registry_inv s' \<and> driverMesh s' = driverMesh s \<and> driverBody s' = driverBody s)
   \<and> (pickRandomIndex rnd n len (cueBallIndex s) = Some (k, m) \<longrightarrow> k \<noteq> cueBallIndex s)
   \<and> (registry_inv s \<longrightarrow>
        nat (cueBallIndex s) \<notin> set (snd (boundaryConfinement s))
        \<and> (exits b \<longrightarrow> \<not> snd (boundaryBody True b)
              \<and> vlength (position (fst (boundaryBody True b))) = 0.7 * effectiveRadius
              \<and> velocity (fst (boundaryBody True b)) = Vec3 0 0 0))
   \<and> (registry_inv s \<longrightarrow> livenessBody rnd dt (nat (cueBallIndex s)) s = Returns s)"
proof (intro conjI impI)
  assume "random_ok rnd \<and> mount rnd = Returns s0"
  then show "registry_inv s0" using mount_inv(1) by blast
next
  assume a: "random_ok rnd \<and> registry_inv s \<and> animate rnd phys time hit s = Returns s'"
  then have "registry_inv s' \<and> driverMesh s' = driverMesh s \<and> driverBody s' = driverBody s"
    using animate_inv by blast
  then show "registry_inv s'" "driverMesh s' = driverMesh s" "driverBody s' = driverBody s"
    by simp_all
next
  assume i: "registry_inv s"
  then show "{i. i < length (smallSphereMeshes s) \<and> isCueMesh s (smallSphereMeshes s ! i)}
          = {nat (cueBallIndex s)}" by (rule one_flagged)
  show "driverMesh s \<noteq> None" "driverBody s \<noteq> None"
    using i by (simp_all add: registry_inv_def driver_valid_def driverMesh_def driverBody_def at_index_def)
next
  assume a: "random_ok rnd \<and> registry_inv s \<and> removeRandomSphere rnd time s = Returns s'"
  then have "registry_inv s' \<and> driverMesh s' = driverMesh s \<and> driverBody s' = driverBody s"
    using removeRandomSphere_inv by blast
  then show "registry_inv s'" "driverMesh s' = driverMesh s" "driverBody s' = driverBody s"
    by simp_all
next
  assume "pickRandomIndex rnd n len (cueBallIndex s) = Some (k, m)"
  from pickRandomIndex_result[OF this] show "k \<noteq> cueBallIndex s" by auto
next
  assume i: "registry_inv s"
  then have "0 \<le> cueBallIndex s" by (simp add: registry_inv_def driver_valid_def)
  then show "nat (cueBallIndex s) \<notin> set (snd (boundaryConfinement s))"
    using markedIndices_props(3)[of "nat (cueBallIndex s)" s] by (auto simp: boundaryConfinement_eq)
next
  assume "exits b"
  then show "\<not> snd (boundaryBody True b)"
    "vlength (position (fst (boundaryBody True b))) = 0.7 * effectiveRadius"
    "velocity (fst (boundaryBody True b)) = Vec3 0 0 0"
    using driver_repositioned by blast+
next
  assume i: "registry_inv s"
  then have "0 \<le> cueBallIndex s" by (simp add: registry_inv_def driver_valid_def)
  then show "livenessBody rnd dt (nat (cueBallIndex s)) s = Returns s"
    by (simp add: livenessBody_driver)
qed

theorem exactly_one_driver_witness:
  "registry_inv exampleState
   \<and> {i. i < length (smallSphereMeshes exampleState)
          \<and> isCueMesh exampleState (smallSphereMeshes exampleState ! i)} = {1}
   \<and> driverMesh exampleState = Some 7
   \<and> livenessBody halves 16 1 exampleState = Returns exampleState"
proof -
  have c: "nat (cueBallIndex exampleState) = 1" by (simp add: exampleState_def)
  have dm: "driverMesh exampleState = Some 7"
    by (simp add: driverMesh_def at_index_def exampleState_def)
  from exactly_one_driver[where rnd = halves and s = exampleState and dt = 16]
    registry_inv_exampleState
  have "{i. i < length (smallSphereMeshes exampleState)
          \<and> isCueMesh exampleState (smallSphereMeshes exampleState ! i)}
          = {nat (cueBallIndex exampleState)}"
    and "livenessBody halves 16 (nat (cueBallIndex exampleState)) exampleState = Returns exampleState"
    by blast+
  then show ?thesis using registry_inv_exampleState dm unfolding c by simp
qed

subsection \<open>The lights of removed spheres\<close>

lemma dir_threeQuarters:
  "calculateNewImpulseDirection threeQuarters n =
     Some (vscale (1 / sqrt (lengthSq (rawSample threeQuarters n))) (rawSample threeQuarters n), n + 3)"
  by (subst calculateNewImpulseDirection_unfold)
     (simp add: rejected_def rawSample_def lengthSq_def threeQuarters_def)

lemma upt14: "[0..<14] = [0,1,2,3,4,5,6,7,8,9,10,11,12,13]"
  by (simp add: upt_rec)

lemma threeQuarters_val: "threeQuarters n = 3 / 4"
  by (simp add: threeQuarters_def)

lemma exits_origin: "position b = Vec3 0 0 0 \<Longrightarrow> \<not> exits b"
  by (simp add: exits_def mainRadius_def exitThreshold_def)

lemma exits_six: "position b = Vec3 6 0 0 \<Longrightarrow> exits b"
  by (simp add: exits_def vlength_axis mainRadius_def exitThreshold_def)

lemma markedIndices_movedOut:
  assumes "map position (smallSphereBodies s) = replicate n (Vec3 0 0 0)" and "0 < n"
    and "cueBallIndex s \<noteq> 0"
  shows "markedIndices (movedOut s) = [0]"
proof -
  have len: "length (smallSphereBodies s) = n"
    using assms(1) by (metis length_map length_replicate)
  have p: "position (smallSphereBodies s ! i) = Vec3 0 0 0" if "i < n" for i
    using assms(1) that len by (metis nth_map nth_replicate)
  let ?P = "\<lambda>i. int i \<noteq> cueBallIndex (movedOut s) \<and> exits (smallSphereBodies (movedOut s) ! i)"
  have P0: "?P 0" using assms(2,3) len by (simp add: movedOut_def exits_six)
  have Pi: "\<not> ?P i" if "i \<in> set [1..<n]" for i
  proof -
    have "0 < i" "i < n" using that by simp_all
    then have "position (smallSphereBodies (movedOut s) ! i) = Vec3 0 0 0"
      using p by (simp add: movedOut_def)
    then show ?thesis using exits_origin by simp
  qed
  have "filter ?P [1..<n] = []" using Pi by (simp add: filter_empty_conv)
  moreover have "[0..<n] = 0 # [1..<n]" using assms(2) by (simp add: upt_rec)
  ultimately have "filter ?P [0..<n] = [0]" using P0 by simp
  then show ?thesis by (simp add: markedIndices_def movedOut_def len)
qed

lemma position_confined: "\<not> exits b \<Longrightarrow> position (fst (boundaryBody d b)) = position b"
  by (simp add: boundaryBody_def exits_def Let_def applyForce_def)

text \<open>
  A boundary pass on a state whose first body alone is beyond the threshold: the pass
  removes position 0, with the children of the scene the removal code computes, and the
  bodies left are at the centre again.
\<close>

lemma boundary_pass_movedOut:
  assumes "map position (smallSphereBodies s) = replicate (Suc n) (Vec3 0 0 0)"
    and "length (smallSphereMeshes s) = Suc n" and "cueBallIndex s > 0"
  shows "snd (boundaryConfinement (movedOut s)) = [0]"
    and "\<exists>s'. removalCompaction (snd (boundaryConfinement (movedOut s)))
                 (fst (boundaryConfinement (movedOut s))) = Returns s'
            \<and> children s' = childrenAfterRemoval 0 s
            \<and> smallSphereMeshes s' = tl (smallSphereMeshes s)
            \<and> objects s' = objects s
            \<and> cueBallIndex s' = cueBallIndex s - 1
            \<and> map position (smallSphereBodies s') = replicate n (Vec3 0 0 0)"
proof -
  let ?m = "movedOut s"
  have len: "length (smallSphereBodies s) = Suc n"
    using assms(1) by (metis length_map length_replicate)
  have mk: "markedIndices ?m = [0]"
    using assms(1,3) by (intro markedIndices_movedOut[where n = "Suc n"]) simp_all
  show t: "snd (boundaryConfinement ?m) = [0]" by (simp add: boundaryConfinement_eq mk)
  let ?s1 = "?m\<lparr>smallSphereBodies := confinedBodies ?m\<rparr>"
  have l1: "0 < length (smallSphereMeshes ?s1)" "0 < length (smallSphereBodies ?s1)"
    using assms(2) len by (simp_all add: movedOut_def)
  have pos: "map position (splice1 0 (confinedBodies ?m)) = replicate n (Vec3 0 0 0)"
  proof (rule nth_equalityI)
    show "length (map position (splice1 0 (confinedBodies ?m))) = length (replicate n (Vec3 0 0 0))"
      using len by (simp add: splice1_def movedOut_def)
  next
    fix i assume "i < length (map position (splice1 0 (confinedBodies ?m)))"
    then have i: "i < n" using len by (simp add: splice1_def movedOut_def)
    have b: "smallSphereBodies ?m ! Suc i = smallSphereBodies s ! Suc i" by (simp add: movedOut_def)
    have "position (smallSphereBodies s ! Suc i) = Vec3 0 0 0"
      using assms(1) i len by (metis Suc_less_eq nth_map nth_replicate)
    then have q: "position (smallSphereBodies ?m ! Suc i) = Vec3 0 0 0"
      using b by simp
    have lm: "length (smallSphereBodies ?m) = Suc n" using len by (simp add: movedOut_def)
    have "confinedBodies ?m ! Suc i
        = fst (boundaryBody (int (Suc i) = cueBallIndex ?m) (smallSphereBodies ?m ! Suc i))"
      unfolding confinedBodies_def using i lm by (simp del: upt_Suc)
    then have "position (confinedBodies ?m ! Suc i) = Vec3 0 0 0"
      using q by (simp only: position_confined[OF exits_origin[OF q]])
    then show "map position (splice1 0 (confinedBodies ?m)) ! i = replicate n (Vec3 0 0 0) ! i"
      using i len by (simp add: splice1_def movedOut_def nth_tl drop_Suc)
  qed
  have ch: "childrenAfterRemoval 0 ?s1 = childrenAfterRemoval 0 s"
    by (simp add: childrenAfterRemoval_def movedOut_def cong: if_cong option.case_cong)
  have tl: "splice1 0 (smallSphereMeshes s) = tl (smallSphereMeshes s)"
    by (simp add: splice1_def drop_Suc)
  show "\<exists>s'. removalCompaction (snd (boundaryConfinement ?m)) (fst (boundaryConfinement ?m)) = Returns s'
            \<and> children s' = childrenAfterRemoval 0 s
            \<and> smallSphereMeshes s' = tl (smallSphereMeshes s)
            \<and> objects s' = objects s
            \<and> cueBallIndex s' = cueBallIndex s - 1
            \<and> map position (smallSphereBodies s') = replicate n (Vec3 0 0 0)"
    unfolding t
    using removeSphereAt_eq[OF l1] pos ch tl assms(3)
    by (simp add: boundaryConfinement_eq removalCompaction_def obind_def movedOut_def)
qed

lemma mount_threeQuarters:
  "\<exists>s0. mount threeQuarters = Returns s0
     \<and> children s0 = [0,1,2,3,4,5,6,7,8,9,10,11,12,13,14,15,16,17,18,19,20,21,22,23,24,25,26,27,28,29,30,31,32,33,34]
     \<and> smallSphereMeshes s0 = [5,7,9,11,13,15,17,19,21,23,25,27,29,31]
     \<and> cueBallIndex s0 = 10
     \<and> map position (smallSphereBodies s0) = replicate 14 (Vec3 0 0 0)
     \<and> userData (objects s0 5) = \<lparr>hasLight = True, lightIndex = 6, isCueBall = False\<rparr>
     \<and> userData (objects s0 7) = \<lparr>hasLight = True, lightIndex = 8, isCueBall = False\<rparr>
     \<and> ownedLight (objects s0 7) = Some 8 \<and> ownedLight (objects s0 9) = Some 10"
  by (simp add: mount_def upt14 smallCount_def obind_def dir_threeQuarters createInnerGlow_def
     createInitialSphere_def Let_def scene_add_def update_object_def world_addBody_def
     beforeSpheres_def mainRadius_def smallMinRadius_def smallMaxRadius_def newObject_def
     numeral_eq_Suc threeQuarters_val)


text \<open>
  Claim C1 (boundary confinement), the parenthetical on removal.  The population is the one
  the component mounts when every random draw is 3/4: fourteen spheres, all with a light,
  the driver at position 10, scene children 0 to 34.  The sphere at position 0 leaves the
  boundary and is removed together with its light (object 6).  Then the sphere that is now
  at position 0 (mesh 7, whose light is object 8) leaves.  Its recorded light index 8 is
  read in the children of the scene as they are now, where it designates object 10, the
  light of mesh 9.  After the pass, the light of the removed sphere is still in the scene
  and the light of a sphere that is still registered is gone.
\<close>

theorem owned_light_not_detached:
  "\<exists>s0 s1 s2. mount threeQuarters = Returns s0
      \<and> removalCompaction (snd (boundaryConfinement (movedOut s0)))
            (fst (boundaryConfinement (movedOut s0))) = Returns s1
      \<and> snd (boundaryConfinement (movedOut s1)) = [0]
      \<and> smallSphereMeshes s1 ! 0 = 7
      \<and> ownedLight (objects s1 7) = Some 8
      \<and> removalCompaction (snd (boundaryConfinement (movedOut s1)))
            (fst (boundaryConfinement (movedOut s1))) = Returns s2
      \<and> 7 \<notin> set (smallSphereMeshes s2) \<and> 7 \<notin> set (children s2)
      \<and> 8 \<in> set (children s2)
      \<and> 9 \<in> set (smallSphereMeshes s2) \<and> ownedLight (objects s2 9) = Some 10
      \<and> 10 \<notin> set (children s2)"
proof -
  obtain s0 where m: "mount threeQuarters = Returns s0"
    and c0: "children s0 = [0,1,2,3,4,5,6,7,8,9,10,11,12,13,14,15,16,17,18,19,20,21,22,23,24,25,26,27,28,29,30,31,32,33,34]"
    and m0: "smallSphereMeshes s0 = [5,7,9,11,13,15,17,19,21,23,25,27,29,31]"
    and q0: "cueBallIndex s0 = 10"
    and p0: "map position (smallSphereBodies s0) = replicate (Suc 13) (Vec3 0 0 0)"
    and u5: "userData (objects s0 5) = \<lparr>hasLight = True, lightIndex = 6, isCueBall = False\<rparr>"
    and u7: "userData (objects s0 7) = \<lparr>hasLight = True, lightIndex = 8, isCueBall = False\<rparr>"
    and o7: "ownedLight (objects s0 7) = Some 8" and o9: "ownedLight (objects s0 9) = Some 10"
    using mount_threeQuarters by (auto simp: numeral_eq_Suc)
  have "length (smallSphereMeshes s0) = Suc 13" "cueBallIndex s0 > 0"
    by (simp_all add: m0 q0)
  from boundary_pass_movedOut[OF p0 this]
  obtain s1 where r1: "removalCompaction (snd (boundaryConfinement (movedOut s0)))
            (fst (boundaryConfinement (movedOut s0))) = Returns s1"
    and c1: "children s1 = childrenAfterRemoval 0 s0"
    and m1: "smallSphereMeshes s1 = tl (smallSphereMeshes s0)"
    and ob1: "objects s1 = objects s0"
    and q1: "cueBallIndex s1 = cueBallIndex s0 - 1"
    and p1: "map position (smallSphereBodies s1) = replicate 13 (Vec3 0 0 0)"
    by blast
  have c1': "children s1 = [0,1,2,3,4,7,8,9,10,11,12,13,14,15,16,17,18,19,20,21,22,23,24,25,26,27,28,29,30,31,32,33,34]"
    by (simp add: c1 childrenAfterRemoval_def m0 u5 c0 at_index_def)
  have m1': "smallSphereMeshes s1 = [7,9,11,13,15,17,19,21,23,25,27,29,31]"
    by (simp add: m1 m0)
  have p1': "map position (smallSphereBodies s1) = replicate (Suc 12) (Vec3 0 0 0)"
    using p1 by (simp add: numeral_eq_Suc)
  have "length (smallSphereMeshes s1) = Suc 12" "cueBallIndex s1 > 0"
    by (simp_all add: m1' q1 q0)
  from boundary_pass_movedOut[OF p1' this]
  obtain s2 where t2: "snd (boundaryConfinement (movedOut s1)) = [0]"
    and r2: "removalCompaction (snd (boundaryConfinement (movedOut s1)))
            (fst (boundaryConfinement (movedOut s1))) = Returns s2"
    and c2: "children s2 = childrenAfterRemoval 0 s1"
    and m2: "smallSphereMeshes s2 = tl (smallSphereMeshes s1)"
    and ob2: "objects s2 = objects s1"
    by blast
  have c2': "children s2 = [0,1,2,3,4,8,9,11,12,13,14,15,16,17,18,19,20,21,22,23,24,25,26,27,28,29,30,31,32,33,34]"
    by (simp add: c2 childrenAfterRemoval_def m1' ob1 u7 c1' at_index_def)
  have m2': "smallSphereMeshes s2 = [9,11,13,15,17,19,21,23,25,27,29,31]"
    by (simp add: m2 m1')
  show ?thesis
    apply (rule exI[of _ s0], rule exI[of _ s1], rule exI[of _ s2])
    using m r1 t2 r2 by (simp add: m1' ob1 ob2 o7 o9 c2' m2')
qed

subsection \<open>The tracker arrays\<close>

lemma removeSphereAt_trackers:
  assumes "removeSphereAt k s = Returns s'"
  shows "lastVelocities s' = lastVelocities s \<and> stationaryTimes s' = stationaryTimes s"
proof (cases "0 \<le> k \<and> k < int (length (smallSphereMeshes s)) \<and> k < int (length (smallSphereBodies s))")
  case True
  then have "nat k < length (smallSphereMeshes s)" "nat k < length (smallSphereBodies s)" "int (nat k) = k"
    by (simp_all add: nat_less_iff)
  from removeSphereAt_eq[OF this(1,2)] this(3) assms show ?thesis by auto
next
  case False
  from removeSphereAt_throws[OF this] assms show ?thesis by simp
qed

lemma removeMarked_trackers:
  "removeMarked ks s = Returns s' \<Longrightarrow>
     lastVelocities s' = lastVelocities s \<and> stationaryTimes s' = stationaryTimes s"
proof (induction ks arbitrary: s)
  case Nil
  then show ?case by simp
next
  case (Cons k ks)
  from Cons.prems obtain s1 where s1: "removeSphereAt (int k) s = Returns s1"
    and r: "removeMarked ks s1 = Returns s'"
    by (auto simp: obind_def split: outcome.splits)
  from Cons.IH[OF r] removeSphereAt_trackers[OF s1] show ?case by simp
qed

lemma removeRandomSphere_trackers:
  assumes "removeRandomSphere rnd t s = Returns s'"
  shows "lastVelocities s' = lastVelocities s \<and> stationaryTimes s' = stationaryTimes s"
proof (cases "length (smallSphereMeshes s) \<le> 1 \<or> length (smallSphereBodies s) \<le> 1")
  case True
  with assms show ?thesis by (simp add: removeRandomSphere_def)
next
  case False
  with assms obtain i n s1 where r: "removeSphereAt i (s\<lparr>rng := n\<rparr>) = Returns s1"
    and e: "s' = s1\<lparr>lastSphereRegenerationTime := t\<rparr>"
    by (auto simp: removeRandomSphere_def obind_def split: option.splits outcome.splits)
  from removeSphereAt_trackers[OF r] e show ?thesis by simp
qed

lemma random_ok_threeQuarters: "random_ok threeQuarters"
  by (simp add: random_ok_def threeQuarters_def)

lemma registry_inv_restingState: "registry_inv (restingState p)"
proof -
  have "skeleton (restingState p) = skeleton exampleState"
    by (simp add: skeleton_def restingState_def exampleState_def)
  from skeleton_keeps(1)[OF this] registry_inv_exampleState show ?thesis by simp
qed

text \<open>
  Claim C10.  The two tracker arrays have the length of the initial population: the
  mount creates them with one entry per initial sphere, and no frame changes their
  length.  A removal at position \<open>k\<close> splices the mesh and the body arrays and leaves both
  tracker arrays as they are; this holds of the random removal and of the removal of the
  bodies marked by the boundary scan alike.  So the body that was at a position \<open>j > k\<close>
  is at \<open>j - 1\<close> afterwards, and the next liveness pass tests it against the velocity
  sample and adds to the timer that the body formerly at \<open>j - 1\<close> left at that position.
\<close>

theorem tracker_arrays_keyed_by_position:
  assumes "random_ok rnd" and "registry_inv s"
    and "k < length (smallSphereBodies s)" and "int k \<noteq> cueBallIndex s"
    and "k < j" and "j < length (smallSphereBodies s)" and "int j \<noteq> cueBallIndex s"
  shows "(\<forall>s0. mount rnd = Returns s0 \<longrightarrow>
            length (smallSphereBodies s0) = smallCount
            \<and> length (lastVelocities s0) = length (smallSphereBodies s0)
            \<and> length (stationaryTimes s0) = length (smallSphereBodies s0))
       \<and> length (lastVelocities s) = smallCount \<and> length (stationaryTimes s) = smallCount
       \<and> (\<forall>phys time hit s2. animate rnd phys time hit s = Returns s2 \<longrightarrow>
            length (lastVelocities s2) = smallCount \<and> length (stationaryTimes s2) = smallCount)
       \<and> (\<forall>time s2. removeRandomSphere rnd time s = Returns s2 \<longrightarrow>
            lastVelocities s2 = lastVelocities s \<and> stationaryTimes s2 = stationaryTimes s)
       \<and> (\<forall>toRemove s2. removalCompaction toRemove s = Returns s2 \<longrightarrow>
            lastVelocities s2 = lastVelocities s \<and> stationaryTimes s2 = stationaryTimes s)
       \<and> (\<exists>s'. removeSphereAt (int k) s = Returns s'
            \<and> smallSphereMeshes s' = splice1 k (smallSphereMeshes s)
            \<and> smallSphereBodies s' = splice1 k (smallSphereBodies s)
            \<and> lastVelocities s' = lastVelocities s \<and> stationaryTimes s' = stationaryTimes s
            \<and> smallSphereBodies s' ! (j - 1) = smallSphereBodies s ! j
            \<and> (\<exists>s''. livenessEnforcement rnd dt s' = Returns s''
                 \<and> stationaryTimes s'' ! (j - 1) =
                     (if stationary (smallSphereBodies s ! j) (lastVelocities s ! (j - 1))
                      then (if stationaryTimes s ! (j - 1) + dt > 2000 then 0
                            else stationaryTimes s ! (j - 1) + dt)
                      else 0)))"
proof -
  have dv: "driver_valid s" and lv: "length (lastVelocities s) = smallCount"
    and lt: "length (stationaryTimes s) = smallCount"
    and le: "length (smallSphereMeshes s) \<le> smallCount"
    using assms(2) by (simp_all add: registry_inv_def)
  have len: "length (smallSphereMeshes s) = length (smallSphereBodies s)"
    using dv by (simp add: driver_valid_def)
  have km: "k < length (smallSphereMeshes s)" using assms(3) len by simp
  have a: "\<forall>s0. mount rnd = Returns s0 \<longrightarrow>
            length (smallSphereBodies s0) = smallCount
            \<and> length (lastVelocities s0) = length (smallSphereBodies s0)
            \<and> length (stationaryTimes s0) = length (smallSphereBodies s0)"
    using mount_inv[OF assms(1)] by (simp add: registry_inv_def)
  have f: "\<forall>phys time hit s2. animate rnd phys time hit s = Returns s2 \<longrightarrow>
            length (lastVelocities s2) = smallCount \<and> length (stationaryTimes s2) = smallCount"
    using animate_inv[OF assms(1,2)] by (simp add: registry_inv_def)
  have r: "\<forall>time s2. removeRandomSphere rnd time s = Returns s2 \<longrightarrow>
            lastVelocities s2 = lastVelocities s \<and> stationaryTimes s2 = stationaryTimes s"
    using removeRandomSphere_trackers by blast
  have c: "\<forall>toRemove s2. removalCompaction toRemove s = Returns s2 \<longrightarrow>
            lastVelocities s2 = lastVelocities s \<and> stationaryTimes s2 = stationaryTimes s"
    unfolding removalCompaction_def using removeMarked_trackers by blast
  let ?s' = "s\<lparr>cueBallIndex := (if int k < cueBallIndex s then cueBallIndex s - 1 else cueBallIndex s),
                children := childrenAfterRemoval k s,
                world_bodies := remove1 (body_id (smallSphereBodies s ! k)) (world_bodies s),
                smallSphereMeshes := splice1 k (smallSphereMeshes s),
                smallSphereBodies := splice1 k (smallSphereBodies s)\<rparr>"
  have e: "removeSphereAt (int k) s = Returns ?s'"
    by (rule removeSphereAt_eq[OF km assms(3)])
  have j1: "j - 1 < length (smallSphereBodies s) - 1" using assms(5,6) by simp
  have sh: "smallSphereBodies ?s' ! (j - 1) = smallSphereBodies s ! j"
    using nth_splice1[OF assms(3) j1] assms(5) by simp
  have l': "length (smallSphereBodies ?s') \<le> length (lastVelocities ?s')"
           "length (smallSphereBodies ?s') \<le> length (stationaryTimes ?s')"
    using le len lv lt assms(3) by (simp_all add: length_splice1)
  have i': "j - 1 < length (smallSphereBodies ?s')"
    using j1 assms(3) by (simp add: length_splice1)
  have c': "int (j - 1) \<noteq> cueBallIndex ?s'"
    using assms(4,5,7) by auto
  define s'' where "s'' = ?s'\<lparr>smallSphereBodies := livenessBodies rnd dt ?s' (length (smallSphereBodies ?s')),
                rng := rngAt dt ?s' (length (smallSphereBodies ?s')),
                stationaryTimes := livenessTimes dt ?s' (length (smallSphereBodies ?s')),
                lastVelocities := livenessVelocities rnd dt ?s' (length (smallSphereBodies ?s'))\<rparr>"
  have s'': "livenessEnforcement rnd dt ?s' = Returns s''"
    unfolding s''_def by (rule livenessEnforcement_eq[OF l'])
  have jt: "j - 1 < length (stationaryTimes ?s')" using i' l'(2) by linarith
  have "stationaryTimes s'' ! (j - 1) = livenessTimes dt ?s' (length (smallSphereBodies ?s')) ! (j - 1)"
    by (simp add: s''_def)
  also have "\<dots> =
              (if stationary (smallSphereBodies ?s' ! (j - 1)) (lastVelocities ?s' ! (j - 1))
               then (if stationaryTimes ?s' ! (j - 1) + dt > 2000 then 0
                     else stationaryTimes ?s' ! (j - 1) + dt)
               else 0)"
    unfolding livenessTimes_def using jt i' c' by (subst nth_map) simp_all
  finally have t: "stationaryTimes s'' ! (j - 1) =
              (if stationary (smallSphereBodies ?s' ! (j - 1)) (lastVelocities ?s' ! (j - 1))
               then (if stationaryTimes ?s' ! (j - 1) + dt > 2000 then 0
                     else stationaryTimes ?s' ! (j - 1) + dt)
               else 0)" .
  have t': "stationaryTimes s'' ! (j - 1) =
              (if stationary (smallSphereBodies s ! j) (lastVelocities s ! (j - 1))
               then (if stationaryTimes s ! (j - 1) + dt > 2000 then 0
                     else stationaryTimes s ! (j - 1) + dt)
               else 0)"
    using t unfolding sh by simp
  have x: "\<exists>s'. removeSphereAt (int k) s = Returns s'
            \<and> smallSphereMeshes s' = splice1 k (smallSphereMeshes s)
            \<and> smallSphereBodies s' = splice1 k (smallSphereBodies s)
            \<and> lastVelocities s' = lastVelocities s \<and> stationaryTimes s' = stationaryTimes s
            \<and> smallSphereBodies s' ! (j - 1) = smallSphereBodies s ! j
            \<and> (\<exists>s''. livenessEnforcement rnd dt s' = Returns s''
                 \<and> stationaryTimes s'' ! (j - 1) =
                     (if stationary (smallSphereBodies s ! j) (lastVelocities s ! (j - 1))
                      then (if stationaryTimes s ! (j - 1) + dt > 2000 then 0
                            else stationaryTimes s ! (j - 1) + dt)
                      else 0))"
    apply (rule exI[of _ ?s'])
    using e sh s'' t' by simp
  from a lv lt f r c x show ?thesis by blast
qed


theorem tracker_arrays_keyed_by_position_witness:
  "random_ok threeQuarters \<and> registry_inv (restingState (Vec3 1 0 0))
   \<and> 0 < length (smallSphereBodies (restingState (Vec3 1 0 0)))
   \<and> int 0 \<noteq> cueBallIndex (restingState (Vec3 1 0 0))
   \<and> 2 < length (smallSphereBodies (restingState (Vec3 1 0 0)))
   \<and> int 2 \<noteq> cueBallIndex (restingState (Vec3 1 0 0))
   \<and> (\<exists>s0. mount threeQuarters = Returns s0
         \<and> length (smallSphereBodies s0) = smallCount
         \<and> length (lastVelocities s0) = length (smallSphereBodies s0)
         \<and> length (stationaryTimes s0) = length (smallSphereBodies s0))
   \<and> (\<exists>s'. removeSphereAt 0 (restingState (Vec3 1 0 0)) = Returns s'
         \<and> length (smallSphereBodies s') = 2
         \<and> length (stationaryTimes s') = smallCount
         \<and> stationaryTimes s' ! 0 = 1990
         \<and> smallSphereBodies s' ! 1 = exampleBody 2 (Vec3 0 2 0) (Vec3 0 0 0)
         \<and> (\<exists>s''. livenessEnforcement threeQuarters 16 s' = Returns s''
               \<and> stationaryTimes s'' ! 1 = 16))"
proof -
  let ?s = "restingState (Vec3 1 0 0)"
  have h: "0 < length (smallSphereBodies ?s)" "int 0 \<noteq> cueBallIndex ?s" "(0::nat) < 2"
    "2 < length (smallSphereBodies ?s)" "int 2 \<noteq> cueBallIndex ?s"
    by (simp_all add: restingState_simps)
  have v: "smallSphereBodies ?s ! 2 = exampleBody 2 (Vec3 0 2 0) (Vec3 0 0 0)"
    "lastVelocities ?s ! 1 = Vec3 0 0 0" "stationaryTimes ?s ! 1 = 0"
    "stationaryTimes ?s ! 0 = 1990" "length (stationaryTimes ?s) = smallCount"
    by (simp_all add: restingState_def exampleState_def smallCount_def)
  have v1: "lastVelocities ?s ! Suc 0 = Vec3 0 0 0" "stationaryTimes ?s ! Suc 0 = 0"
    by (simp_all add: restingState_def exampleState_def smallCount_def)
  have st: "stationary (exampleBody 2 (Vec3 0 2 0) (Vec3 0 0 0)) (Vec3 0 0 0)"
    by (simp add: stationary_def)
  obtain s0 where m: "mount threeQuarters = Returns s0"
    using mount_threeQuarters by blast
  note T = tracker_arrays_keyed_by_position[OF random_ok_threeQuarters registry_inv_restingState h,
      where dt = 16]
  from T m have a: "\<exists>s0. mount threeQuarters = Returns s0
         \<and> length (smallSphereBodies s0) = smallCount
         \<and> length (lastVelocities s0) = length (smallSphereBodies s0)
         \<and> length (stationaryTimes s0) = length (smallSphereBodies s0)"
    by blast
  from T obtain s' s'' where r: "removeSphereAt 0 ?s = Returns s'"
    and b: "smallSphereBodies s' = splice1 0 (smallSphereBodies ?s)"
    and t: "stationaryTimes s' = stationaryTimes ?s"
    and j: "smallSphereBodies s' ! (2 - 1) = smallSphereBodies ?s ! 2"
    and l: "livenessEnforcement threeQuarters 16 s' = Returns s''"
    and u: "stationaryTimes s'' ! (2 - 1) =
              (if stationary (smallSphereBodies ?s ! 2) (lastVelocities ?s ! (2 - 1))
               then (if stationaryTimes ?s ! (2 - 1) + 16 > 2000 then 0
                     else stationaryTimes ?s ! (2 - 1) + 16)
               else 0)"
    by auto
  have "length (smallSphereBodies s') = 2"
    unfolding b by (simp add: length_splice1 restingState_simps)
  moreover have "stationaryTimes s'' ! 1 = 16" using u by (simp add: v v1 st)
  moreover have "smallSphereBodies s' ! 1 = exampleBody 2 (Vec3 0 2 0) (Vec3 0 0 0)"
    using j by (simp add: v)
  ultimately have x: "\<exists>s'. removeSphereAt 0 (restingState (Vec3 1 0 0)) = Returns s'
         \<and> length (smallSphereBodies s') = 2
         \<and> length (stationaryTimes s') = smallCount
         \<and> stationaryTimes s' ! 0 = 1990
         \<and> smallSphereBodies s' ! 1 = exampleBody 2 (Vec3 0 2 0) (Vec3 0 0 0)
         \<and> (\<exists>s''. livenessEnforcement threeQuarters 16 s' = Returns s''
               \<and> stationaryTimes s'' ! 1 = 16)"
    using r t l v by auto
  show ?thesis
    using random_ok_threeQuarters registry_inv_restingState h a x by simp
qed

end
